(* ===== verification/Prelude.thy ===== *)
theory Prelude
  imports Main "HOL-Library.Sublist"
begin

text \<open>
  Shared vocabulary of the development: the names of the model's basic types, the
  collections of rewrite rules the component theories fill, and generic facts on lists,
  options and integers that several components use (first-match search over a slice,
  appending to a channel log, the step budget of the execution loop).
\<close>

section \<open>Basic types\<close>

text \<open>
  A node name and a serialised JSON value are Go \<open>string\<close> and \<open>json.RawMessage\<close>
  (a byte slice); both are modelled as HOL strings.
\<close>

type_synonym node_name = string
type_synonym raw_json = string

text \<open>
  A Go \<open>map[string]interface{}\<close> literal with a fixed set of keys, as the event
  metadata of the engine uses, is an association list from keys to the dynamic values
  that occur in it.
\<close>

datatype meta_value = MetaInt int | MetaString string

type_synonym metadata = "(string \<times> meta_value) list"

section \<open>Rule collections\<close>

named_theorems emit_simps "how each emission of a streamer changes its channels"
named_theorems step_simps "evaluation rules for one iteration of the execution loop"

section \<open>Generic lemmas\<close>

text \<open>
  The Go idiom \<open>for _, x := range xs { if p(x) { ...; break } }\<close> is \<^const>\<open>find\<close>;
  the first match satisfies the predicate and no earlier element does.
\<close>

lemma find_SomeD [dest]:
  "find P xs = Some x \<Longrightarrow> P x \<and> x \<in> set xs"
  by (induction xs) (auto split: if_splits)

lemma find_append_first [simp]:
  "\<not> (\<exists>y \<in> set xs. P y) \<Longrightarrow> P x \<Longrightarrow> find P (xs @ x # ys) = Some x"
  by (induction xs) auto

lemma find_None_iff_all [simp]:
  "find P xs = None \<longleftrightarrow> (\<forall>y \<in> set xs. \<not> P y)"
  by (induction xs) auto

text \<open>Tagging an optional result with a component.\<close>

lemma map_option_Pair_Some [simp]:
  "map_option (Pair a) w = Some (b, p) \<longleftrightarrow> b = a \<and> w = Some p"
  by (cases w) auto

text \<open>Appending to a log and counting what it holds.\<close>

lemma count_list_append_single [simp]:
  "count_list (xs @ [y]) x = count_list xs x + (if y = x then 1 else 0)"
  by (induction xs) auto

lemma filter_append_single [simp]:
  "filter P (xs @ [y]) = filter P xs @ (if P y then [y] else [])"
  by simp

text \<open>
  The step counter of the execution loop is a Go \<open>int\<close> compared with the
  recursion limit; the distance to the limit, read as a \<open>nat\<close>, is the loop's
  measure.
\<close>

lemma int_budget_decreases [simp]:
  "(k::int) < l \<Longrightarrow> nat (l - (k + 1)) < nat (l - k)"
  by arith

lemma int_budget_Suc:
  "(k::int) < l \<Longrightarrow> nat (l - k) = Suc (nat (l - (k + 1)))"
  by arith

end
