(* ===== verification/Stream.thy ===== *)
theory Stream
  imports Prelude
begin

text \<open>
  The streaming model of \<open>src/pkg/core/stream.go\<close>: stream modes and event types,
  the \<open>Event\<close> and \<open>StreamEvent\<close> records, and the \<open>Streamer\<close> with its
  mode-gated emissions. A Go channel the streamer sends on is modelled by the log of
  the values sent on it, in order; a send is an append to that log. The blocking of an
  unbuffered send until a reader takes the value is the subject of theory \<open>Fanout\<close>,
  not of this one: here every send is taken. The log \<open>sent\<close> keeps all sends in the order
  they are made across both channels; it is the sequence \<open>Stream\<close> forwards.
  Fields of \<open>Event\<close> the core never sets (tags, data, parent ids) and the wall-clock
  fields (run id, timestamp) are not modelled.
\<close>

section \<open>Data model\<close>

datatype stream_mode = StreamValues | StreamUpdates | StreamCustom | StreamMessages | StreamDebug

datatype event_type =
    EventChainStart | EventChainEnd | EventChainStream
  | EventChatModelStart | EventChatModelStream | EventChatModelEnd
  | EventChannelWrite

record event =
  ev_type :: event_type
  ev_name :: string
  ev_metadata :: metadata

record 's stream_event =
  se_mode :: stream_mode
  se_data :: 's

text \<open>A send on one of the streamer's two channels.\<close>

datatype 's emission = EmEvent event | EmData "'s stream_event"

text \<open>
  The streamer: its modes and the logs of its two channels, and \<open>sent\<close>, every send in
  the order the sends are made across both channels (a history variable: the order in
  which the reader of the two channels is offered the values).
\<close>

record 's streamer =
  modes :: "stream_mode list"
  event_ch :: "event list"
  stream_ch :: "'s stream_event list"
  sent :: "'s emission list"

record stream_config =
  sc_modes :: "stream_mode list"
  sc_buffer_size :: int

section \<open>Operations\<close>

definition new_streamer :: "stream_mode list \<Rightarrow> 's streamer" where
  "new_streamer ms = \<lparr>modes = ms, event_ch = [], stream_ch = [], sent = []\<rparr>"

text \<open>\<open>hasMode\<close>: a linear scan of the active modes.\<close>

fun has_mode :: "stream_mode list \<Rightarrow> stream_mode \<Rightarrow> bool" where
  "has_mode [] mode = False"
| "has_mode (m # ms) mode = (if m = mode then True else has_mode ms mode)"

definition emit_event :: "event \<Rightarrow> 's streamer \<Rightarrow> 's streamer" where
  "emit_event evt s =
     (if has_mode (modes s) StreamDebug
      then s\<lparr>event_ch := event_ch s @ [evt], sent := sent s @ [EmEvent evt]\<rparr> else s)"

text \<open>The four data emissions differ only in the mode that gates them and tags the value.\<close>

definition emit_data :: "stream_mode \<Rightarrow> 's \<Rightarrow> 's streamer \<Rightarrow> 's streamer" where
  "emit_data mode v s =
     (if has_mode (modes s) mode
      then s\<lparr>stream_ch := stream_ch s @ [\<lparr>se_mode = mode, se_data = v\<rparr>],
              sent := sent s @ [EmData \<lparr>se_mode = mode, se_data = v\<rparr>]\<rparr> else s)"

definition emit_value :: "'s \<Rightarrow> 's streamer \<Rightarrow> 's streamer" where
  "emit_value v s = emit_data StreamValues v s"

definition emit_update :: "'s \<Rightarrow> 's streamer \<Rightarrow> 's streamer" where
  "emit_update v s = emit_data StreamUpdates v s"

definition emit_custom :: "'s \<Rightarrow> 's streamer \<Rightarrow> 's streamer" where
  "emit_custom v s = emit_data StreamCustom v s"

definition emit_message :: "'s \<Rightarrow> 's streamer \<Rightarrow> 's streamer" where
  "emit_message v s = emit_data StreamMessages v s"

text \<open>\<open>GetEventChannel\<close> and \<open>GetStreamChannel\<close> hand out the channels (here, their logs).\<close>

definition get_event_channel :: "'s streamer \<Rightarrow> event list" where
  "get_event_channel s = event_ch s"

definition get_stream_channel :: "'s streamer \<Rightarrow> 's stream_event list" where
  "get_stream_channel s = stream_ch s"

text \<open>
  \<open>Close\<close> closes both channels. The core never calls it, so the record does not keep
  whether they are closed; the flag is passed in: closing a closed channel panics
  (\<open>None\<close>), otherwise both are closed afterwards.
\<close>

definition streamer_close :: "bool \<Rightarrow> bool option" where
  "streamer_close closed = (if closed then None else Some True)"

definition default_stream_config :: stream_config where
  "default_stream_config = \<lparr>sc_modes = [StreamValues], sc_buffer_size = 100\<rparr>"

text \<open>The sends on each channel, from a sequence of sends.\<close>

fun ev_of :: "'s emission list \<Rightarrow> event list" where
  "ev_of [] = []"
| "ev_of (EmEvent e # xs) = e # ev_of xs"
| "ev_of (EmData _ # xs) = ev_of xs"

fun st_of :: "'s emission list \<Rightarrow> 's stream_event list" where
  "st_of [] = []"
| "st_of (EmEvent _ # xs) = st_of xs"
| "st_of (EmData d # xs) = d # st_of xs"

text \<open>
  The streamer invariant: every value on the data channel carries a mode that is
  active, and events reach the event channel only in debug mode.
\<close>

definition streamer_wf :: "'s streamer \<Rightarrow> bool" where
  "streamer_wf s \<longleftrightarrow>
     list_all (\<lambda>e. se_mode e \<in> set (modes s)) (stream_ch s) \<and>
     (event_ch s \<noteq> [] \<longrightarrow> StreamDebug \<in> set (modes s))"

text \<open>
  The streamer changes only by emissions: \<open>emits s t\<close> holds when \<open>t\<close> is \<open>s\<close> after a
  sequence of \<open>EmitEvent\<close> and data emissions, in that order.
\<close>

inductive emits :: "'s streamer \<Rightarrow> 's streamer \<Rightarrow> bool" where
  emits_refl: "emits s s"
| emits_event: "emits s t \<Longrightarrow> emits s (emit_event evt t)"
| emits_data: "emits s t \<Longrightarrow> emits s (emit_data mode v t)"

section \<open>Lemmas\<close>

text \<open>The scan is membership.\<close>

lemma has_mode_iff [simp]: "has_mode ms mode \<longleftrightarrow> mode \<in> set ms"
  by (induction ms) auto

lemma emit_event_channels [emit_simps]:
  "modes (emit_event evt s) = modes s"
  "stream_ch (emit_event evt s) = stream_ch s"
  "event_ch (emit_event evt s) =
     event_ch s @ (if StreamDebug \<in> set (modes s) then [evt] else [])"
  "sent (emit_event evt s) =
     sent s @ (if StreamDebug \<in> set (modes s) then [EmEvent evt] else [])"
  by (simp_all add: emit_event_def)

lemma emit_data_channels [emit_simps]:
  "modes (emit_data mode v s) = modes s"
  "event_ch (emit_data mode v s) = event_ch s"
  "stream_ch (emit_data mode v s) =
     stream_ch s @ (if mode \<in> set (modes s) then [\<lparr>se_mode = mode, se_data = v\<rparr>] else [])"
  "sent (emit_data mode v s) =
     sent s @ (if mode \<in> set (modes s) then [EmData \<lparr>se_mode = mode, se_data = v\<rparr>] else [])"
  by (simp_all add: emit_data_def)

lemma ev_of_append [simp]: "ev_of (xs @ ys) = ev_of xs @ ev_of ys"
  by (induction xs rule: ev_of.induct) simp_all

lemma st_of_append [simp]: "st_of (xs @ ys) = st_of xs @ st_of ys"
  by (induction xs rule: st_of.induct) simp_all

lemmas emit_data_defs [simp] = emit_value_def emit_update_def emit_custom_def emit_message_def

declare emit_event_channels [simp] emit_data_channels [simp]

lemma new_streamer_wf: "streamer_wf (new_streamer ms)"
  by (simp add: streamer_wf_def new_streamer_def)

lemma emit_event_wf: "streamer_wf s \<Longrightarrow> streamer_wf (emit_event evt s)"
  by (auto simp: streamer_wf_def)

lemma emit_data_wf: "streamer_wf s \<Longrightarrow> streamer_wf (emit_data mode v s)"
  by (auto simp: streamer_wf_def)

lemmas streamer_wf_intros [intro] = new_streamer_wf emit_event_wf emit_data_wf

lemma emits_trans: "emits t u \<Longrightarrow> emits s t \<Longrightarrow> emits s u"
  by (induction rule: emits.induct) (auto intro: emits.intros)

lemma emits_single [intro]:
  "emits s (emit_event evt s)" "emits s (emit_data mode v s)"
  by (auto intro: emits.intros)

text \<open>Along emissions the modes stay, the invariant is kept, and the channels only grow.\<close>

lemma emits_preserves:
  assumes "emits s t"
  shows "modes t = modes s \<and> (streamer_wf s \<longrightarrow> streamer_wf t) \<and>
         prefix (event_ch s) (event_ch t) \<and> prefix (stream_ch s) (stream_ch t)"
  using assms
proof (induction rule: emits.induct)
  case (emits_refl s)
  then show ?case by simp
next
  case (emits_event s t evt)
  then show ?case by (auto intro: emit_event_wf prefix_order.trans)
next
  case (emits_data s t mode v)
  then show ?case by (auto intro: emit_data_wf prefix_order.trans)
qed

text \<open>
  What a sequence of emissions appends to the send log is what it appends to the two
  channels, each receiving its own sends in their order.
\<close>

lemma emits_sent:
  assumes "emits s t"
  shows "\<exists>xs. sent t = sent s @ xs \<and> event_ch t = event_ch s @ ev_of xs \<and> stream_ch t = stream_ch s @ st_of xs"
  using assms
proof (induction rule: emits.induct)
  case (emits_refl s)
  then show ?case by (intro exI [of _ "[]"]) simp
next
  case (emits_event s t evt)
  then obtain xs where "sent t = sent s @ xs" "event_ch t = event_ch s @ ev_of xs" "stream_ch t = stream_ch s @ st_of xs"
    by blast
  then show ?case
    by (intro exI [of _ "xs @ (if StreamDebug \<in> set (modes t) then [EmEvent evt] else [])"]) simp
next
  case (emits_data s t mode v)
  then obtain xs where "sent t = sent s @ xs" "event_ch t = event_ch s @ ev_of xs" "stream_ch t = stream_ch s @ st_of xs"
    by blast
  then show ?case
    by (intro exI [of _ "xs @ (if mode \<in> set (modes t) then [EmData \<lparr>se_mode = mode, se_data = v\<rparr>] else [])"]) simp
qed

end
