(* ===== verification/Interrupt.thy ===== *)
theory Interrupt
  imports Prelude
begin

text \<open>
  The interrupt and breakpoint controller of \<open>src/unnamed/part_001\<close>
  (\<open>InterruptManager\<close>), and the interrupt-flavoured error a step function returns to
  request a pause (\<open>InterruptError\<close>).
  The manager's two unbuffered channels are logs: \<open>interrupt_ch\<close> holds the
  \<open>InterruptInfo\<close> values sent to the controller, in order, and \<open>resume_ch\<close> the
  states sent by \<open>Resume\<close> that the engine has not received yet. The mutex only makes
  each operation atomic, which a function on the manager's state already is.
  JSON serialisation (\<open>json.Marshal\<close>) is a parameter returning either the error
  message or the bytes.
\<close>

section \<open>Data model\<close>

record interrupt_info =
  info_node :: node_name
  info_data :: raw_json
  info_state :: raw_json

record 's interrupt_manager =
  interrupted :: bool
  interrupt_ch :: "interrupt_info list"
  resume_ch :: "'s list"
  breakpoints :: "node_name set"

text \<open>
  The errors of the manager: the two misuse errors of \<open>Interrupt\<close> and \<open>Resume\<close>,
  a serialisation failure, and the cancellation of the context \<open>WaitForResume\<close>
  listens to.
\<close>

datatype im_error = AlreadyInterrupted | NotInterrupted | MarshalError string

datatype ctx_error = ContextCanceled

text \<open>
  A Go \<open>error\<close> returned by a user step function or router: the
  \<open>*InterruptError\<close> carrying its payload, or any other error with its message.
\<close>

datatype 'd go_error = InterruptError 'd | PlainError string

type_synonym 'a marshaller = "'a \<Rightarrow> string + raw_json"

section \<open>Operations\<close>

definition new_interrupt_manager :: "'s interrupt_manager" where
  "new_interrupt_manager =
     \<lparr>interrupted = False, interrupt_ch = [], resume_ch = [], breakpoints = {}\<rparr>"

definition add_breakpoint :: "node_name \<Rightarrow> 's interrupt_manager \<Rightarrow> 's interrupt_manager" where
  "add_breakpoint n m = m\<lparr>breakpoints := insert n (breakpoints m)\<rparr>"

definition remove_breakpoint :: "node_name \<Rightarrow> 's interrupt_manager \<Rightarrow> 's interrupt_manager" where
  "remove_breakpoint n m = m\<lparr>breakpoints := breakpoints m - {n}\<rparr>"

definition has_breakpoint :: "node_name \<Rightarrow> 's interrupt_manager \<Rightarrow> bool" where
  "has_breakpoint n m \<longleftrightarrow> n \<in> breakpoints m"

text \<open>
  \<open>Interrupt(nodeName, data, state)\<close>: the flag is tested and set under the lock
  first; only then are the payload (\<open>None\<close> is Go's untyped \<open>nil\<close>) and the state
  serialised, and the info is sent. A serialisation error returns with the flag still
  set.
\<close>

definition interrupt ::
  "'d option marshaller \<Rightarrow> 's marshaller \<Rightarrow> node_name \<Rightarrow> 'd option \<Rightarrow> 's \<Rightarrow>
   's interrupt_manager \<Rightarrow> 's interrupt_manager \<times> (im_error + unit)" where
  "interrupt mdata mstate n d s m =
     (if interrupted m then (m, Inl AlreadyInterrupted)
      else
        let m1 = m\<lparr>interrupted := True\<rparr> in
        (case mdata d of
          Inl e \<Rightarrow> (m1, Inl (MarshalError e))
        | Inr db \<Rightarrow>
            (case mstate s of
              Inl e \<Rightarrow> (m1, Inl (MarshalError e))
            | Inr sb \<Rightarrow>
                (m1\<lparr>interrupt_ch := interrupt_ch m1 @
                      [\<lparr>info_node = n, info_data = db, info_state = sb\<rparr>]\<rparr>, Inr ()))))"

text \<open>
  \<open>Resume(state)\<close>: the flag is tested and cleared under the lock, then the state is sent
  on the unbuffered \<open>resumeCh\<close>. The send is modelled as delivered to the log at once;
  in Go it blocks until \<open>WaitForResume\<close> receives it, which the engine model pairs with
  each controller action (\<open>Step.await_resume\<close>). A \<open>Resume\<close> no engine waits for,
  which blocks in Go, is not modelled. Likewise the send of the info on the unbuffered
  \<open>interruptCh\<close> is taken as received by the controller.
\<close>

definition resume :: "'s \<Rightarrow> 's interrupt_manager \<Rightarrow> 's interrupt_manager \<times> (im_error + unit)" where
  "resume s m =
     (if \<not> interrupted m then (m, Inl NotInterrupted)
      else (m\<lparr>interrupted := False, resume_ch := resume_ch m @ [s]\<rparr>, Inr ()))"

text \<open>
  \<open>WaitForResume(ctx)\<close>: receive a resumed state, or return the context's error
  once it is cancelled; \<open>None\<close> when neither is ready, that is, the call blocks.
  When both are ready Go's \<open>select\<close> may take either; the model takes the state, which
  is the only case the engine model reaches (a controller action is either a resume or
  a cancellation).
\<close>

definition wait_for_resume ::
  "bool \<Rightarrow> 's interrupt_manager \<Rightarrow> ('s interrupt_manager \<times> (ctx_error + 's)) option" where
  "wait_for_resume ctx_done m =
     (case resume_ch m of
       s # rest \<Rightarrow> Some (m\<lparr>resume_ch := rest\<rparr>, Inr s)
     | [] \<Rightarrow> (if ctx_done then Some (m, Inl ContextCanceled) else None))"

text \<open>\<open>GetInterruptChannel\<close> hands out the channel of infos (here, its log).\<close>

definition get_interrupt_channel :: "'s interrupt_manager \<Rightarrow> interrupt_info list" where
  "get_interrupt_channel m = interrupt_ch m"

text \<open>The \<open>Interrupt[T]\<close> helper a step function returns: Go's zero state and the error.\<close>

definition interrupt_request :: "'s \<Rightarrow> 'd \<Rightarrow> 's \<times> 'd go_error option" where
  "interrupt_request zero d = (zero, Some (InterruptError d))"

fun is_interrupt_error :: "'d go_error \<Rightarrow> bool" where
  "is_interrupt_error (InterruptError _) = True"
| "is_interrupt_error (PlainError _) = False"

fun get_interrupt_data :: "'d go_error \<Rightarrow> 'd option" where
  "get_interrupt_data (InterruptError d) = Some d"
| "get_interrupt_data (PlainError _) = None"

section \<open>Lemmas\<close>

lemma breakpoint_simps [simp]:
  "has_breakpoint x (add_breakpoint n m) \<longleftrightarrow> x = n \<or> has_breakpoint x m"
  "has_breakpoint x (remove_breakpoint n m) \<longleftrightarrow> x \<noteq> n \<and> has_breakpoint x m"
  "has_breakpoint x new_interrupt_manager = False"
  by (auto simp: has_breakpoint_def add_breakpoint_def remove_breakpoint_def
                 new_interrupt_manager_def)

lemma breakpoint_frame [simp]:
  "interrupted (add_breakpoint n m) = interrupted m"
  "interrupt_ch (add_breakpoint n m) = interrupt_ch m"
  "resume_ch (add_breakpoint n m) = resume_ch m"
  "interrupted (remove_breakpoint n m) = interrupted m"
  "interrupt_ch (remove_breakpoint n m) = interrupt_ch m"
  "resume_ch (remove_breakpoint n m) = resume_ch m"
  by (simp_all add: add_breakpoint_def remove_breakpoint_def)

lemma interrupt_frame [simp]:
  "breakpoints (fst (interrupt md ms n d s m)) = breakpoints m"
  "resume_ch (fst (interrupt md ms n d s m)) = resume_ch m"
  by (simp_all add: interrupt_def Let_def split: sum.split)

lemma resume_frame [simp]:
  "breakpoints (fst (resume s m)) = breakpoints m"
  "interrupt_ch (fst (resume s m)) = interrupt_ch m"
  by (simp_all add: resume_def)

lemma interrupt_sets_flag:
  "\<not> interrupted m \<Longrightarrow> interrupted (fst (interrupt md ms n d s m))"
  by (simp add: interrupt_def Let_def split: sum.split)

lemma interrupt_leaves_flag: "interrupted (fst (interrupt md ms n d s m))"
  by (simp add: interrupt_def Let_def split: sum.split)

lemma interrupt_ok_iff:
  "snd (interrupt md ms n d s m) = Inr () \<longleftrightarrow>
     \<not> interrupted m \<and> (\<exists>db. md d = Inr db) \<and> (\<exists>sb. ms s = Inr sb)"
  by (auto simp: interrupt_def Let_def split: sum.splits)

lemma interrupt_Inr:
  assumes "interrupt md ms n d s m = (m', Inr ())"
  shows "\<exists>db sb. md d = Inr db \<and> ms s = Inr sb \<and> \<not> interrupted m \<and>
           m' = m\<lparr>interrupted := True, interrupt_ch := interrupt_ch m @
                    [\<lparr>info_node = n, info_data = db, info_state = sb\<rparr>]\<rparr>"
  using assms by (auto simp: interrupt_def Let_def split: if_splits sum.splits)

lemma resume_Inr:
  "resume s m = (m', Inr ()) \<longleftrightarrow>
     interrupted m \<and> m' = m\<lparr>interrupted := False, resume_ch := resume_ch m @ [s]\<rparr>"
  by (auto simp: resume_def)

lemma wait_for_resume_Some_length:
  "wait_for_resume b m = Some (m', r) \<Longrightarrow> length (resume_ch m') \<le> length (resume_ch m)"
  by (auto simp: wait_for_resume_def split: list.splits if_splits)

lemma wait_for_resume_frame:
  "wait_for_resume b m = Some (m', x) \<Longrightarrow>
     breakpoints m' = breakpoints m \<and> interrupted m' = interrupted m \<and> interrupt_ch m' = interrupt_ch m"
  by (cases "resume_ch m") (auto simp: wait_for_resume_def split: if_splits)

lemma resume_breakpoints: "resume s m = (m', r) \<Longrightarrow> breakpoints m' = breakpoints m"
  by (auto simp: resume_def split: if_splits)

lemma interrupt_breakpoints: "interrupt md ms n d s m = (m', x) \<Longrightarrow> breakpoints m' = breakpoints m"
  using interrupt_frame(1) [of md ms n d s m] by simp


section \<open>Properties\<close>

lemma im_restore [simp]:
  "\<not> interrupted m \<Longrightarrow> resume_ch m = [] \<Longrightarrow>
   m\<lparr>interrupt_ch := x, interrupted := False, resume_ch := []\<rparr> = m\<lparr>interrupt_ch := x\<rparr>"
  by (cases m) simp

text \<open>C9: A serialisation failure in \<open>Interrupt\<close>, of the payload or of the state, returns the error with the interrupted flag already set and no info sent; every later \<open>Interrupt\<close> on that manager, whatever its arguments, then fails with \<open>AlreadyInterrupted\<close> and changes nothing.\<close>

theorem interrupt_marshal_failure_keeps_flag:
  assumes "\<not> interrupted m" and "md d = Inl e \<or> (\<exists>db. md d = Inr db) \<and> ms s = Inl e"
  shows "interrupt md ms n d s m = (m\<lparr>interrupted := True\<rparr>, Inl (MarshalError e)) \<and>
         interrupt md' ms' n' d' s' (fst (interrupt md ms n d s m)) =
           (fst (interrupt md ms n d s m), Inl AlreadyInterrupted)"
  using assms by (auto simp: interrupt_def)

text \<open>C10: Round trip of the rendezvous: on a manager that is not interrupted, \<open>Interrupt\<close> sends one info with the node, the serialised payload and state, \<open>Resume(s)\<close> succeeds, and \<open>WaitForResume\<close> returns exactly \<open>s\<close>, leaving the manager as it was but for the info sent.\<close>

theorem interrupt_resume_roundtrip:
  assumes "\<not> interrupted m" and "resume_ch m = []"
    and "md d = Inr db" and "ms s = Inr sb"
  shows "snd (interrupt md ms n d s m) = Inr () \<and>
         snd (resume s' (fst (interrupt md ms n d s m))) = Inr () \<and>
         wait_for_resume b (fst (resume s' (fst (interrupt md ms n d s m)))) =
           Some (m\<lparr>interrupt_ch := interrupt_ch m @ [\<lparr>info_node = n, info_data = db, info_state = sb\<rparr>]\<rparr>, Inr s')"
proof -
  have "m\<lparr>interrupted := True, interrupt_ch := interrupt_ch m @ [\<lparr>info_node = n, info_data = db, info_state = sb\<rparr>],
          interrupted := False, resume_ch := []\<rparr> =
        m\<lparr>interrupt_ch := interrupt_ch m @ [\<lparr>info_node = n, info_data = db, info_state = sb\<rparr>]\<rparr>"
    using assms(1,2) by (cases m) simp
  with assms show ?thesis
    by (simp add: interrupt_def resume_def wait_for_resume_def)
qed

text \<open>The misuse errors: \<open>Interrupt\<close> fails with \<open>AlreadyInterrupted\<close> and changes nothing exactly when an interrupt is pending, and \<open>Resume\<close> fails with \<open>NotInterrupted\<close> and changes nothing exactly when none is.\<close>

theorem manager_misuse_errors:
  "(interrupt md ms n d s m = (m, Inl AlreadyInterrupted) \<longleftrightarrow> interrupted m) \<and>
   (resume s m = (m, Inl NotInterrupted) \<longleftrightarrow> \<not> interrupted m)"
  by (auto simp: interrupt_def resume_def Let_def split: sum.splits)

text \<open>Breakpoints are a set: adding or removing one twice is the same as once, a node has a breakpoint after it is added and none after it is removed.\<close>

theorem breakpoints_idempotent:
  "add_breakpoint n (add_breakpoint n m) = add_breakpoint n m \<and>
   remove_breakpoint n (remove_breakpoint n m) = remove_breakpoint n m \<and>
   has_breakpoint n (add_breakpoint n m) \<and> \<not> has_breakpoint n (remove_breakpoint n m)"
  by (simp add: add_breakpoint_def remove_breakpoint_def has_breakpoint_def)

end
