(* ===== verification/Graph.thy ===== *)
theory Graph
  imports Stream Interrupt
begin

text \<open>
  The graph definition of \<open>src/unnamed/part_000\<close>: step nodes, routers, conditional
  edges, the \<open>StateGraph\<close> builder with its setters, the errors of the engine, and
  \<open>Compile\<close>. A step function is \<open>(ctx, T) -> (T, error)\<close> in Go; the model drops
  the context (the engine only passes it through) and keeps the pair, the error being
  \<open>None\<close> for Go's \<open>nil\<close>. The graph owns its streamer and interrupt manager by
  pointer; the model keeps them as fields and returns the graph updated.
\<close>

section \<open>Data model\<close>

record ('s, 'd) state_node =
  sn_name :: node_name
  sn_function :: "'s \<Rightarrow> 's \<times> 'd go_error option"

type_synonym ('s, 'd) router = "'s \<Rightarrow> node_name list \<times> 'd go_error option"

record ('s, 'd) conditional_edge =
  ce_from :: node_name
  ce_router :: "('s, 'd) router"
  ce_mapping :: "(string \<rightharpoonup> string) option"

record ('s, 'd) state_graph =
  g_nodes :: "node_name \<rightharpoonup> ('s, 'd) state_node"
  g_edges :: "('s, 'd) conditional_edge list"
  g_entry_point :: node_name
  g_recursion_limit :: int
  g_interrupt_manager :: "'s interrupt_manager"
  g_streamer :: "'s streamer"
  g_stream_config :: stream_config

record ('s, 'd) runnable_state =
  rs_graph :: "('s, 'd) state_graph"

text \<open>
  The errors \<open>Compile\<close> and \<open>Invoke\<close> return, one constructor per \<open>return\<close> of
  the source, with the wrapped cause where the source wraps one (\<open>%w\<close>).
\<close>

datatype 'd graph_error =
    ErrEntryPointNotSet
  | ErrRecursionLimit int
  | ErrBreakpoint im_error
  | ErrWaitForResume ctx_error
  | ErrNodeNotFound node_name
  | ErrInterrupt im_error
  | ErrNode node_name "'d go_error"
  | ErrRouter node_name "'d go_error"
  | ErrInvalidRouterOutput
  | ErrNoOutgoingEdge node_name

text \<open>
  The special node names of the package (declared outside the sources; their values
  are those of the LangGraph convention the package follows).
\<close>

definition START :: node_name where "START = ''__start__''"
definition END :: node_name where "END = ''__end__''"

section \<open>Builder operations\<close>

definition new_state_graph :: "('s, 'd) state_graph" where
  "new_state_graph =
     \<lparr>g_nodes = Map.empty, g_edges = [], g_entry_point = '''', g_recursion_limit = 25,
      g_interrupt_manager = new_interrupt_manager,
      g_streamer = new_streamer (sc_modes default_stream_config),
      g_stream_config = default_stream_config\<rparr>"

definition set_stream_config :: "stream_config \<Rightarrow> ('s, 'd) state_graph \<Rightarrow> ('s, 'd) state_graph" where
  "set_stream_config c g = g\<lparr>g_stream_config := c, g_streamer := new_streamer (sc_modes c)\<rparr>"

definition add_node ::
  "node_name \<Rightarrow> ('s \<Rightarrow> 's \<times> 'd go_error option) \<Rightarrow> ('s, 'd) state_graph \<Rightarrow> ('s, 'd) state_graph" where
  "add_node n f g = g\<lparr>g_nodes := (g_nodes g)(n \<mapsto> \<lparr>sn_name = n, sn_function = f\<rparr>)\<rparr>"

definition add_conditional_edges ::
  "node_name \<Rightarrow> ('s, 'd) router \<Rightarrow> (string \<rightharpoonup> string) option \<Rightarrow>
   ('s, 'd) state_graph \<Rightarrow> ('s, 'd) state_graph" where
  "add_conditional_edges from rt mp g =
     g\<lparr>g_edges := g_edges g @ [\<lparr>ce_from = from, ce_router = rt, ce_mapping = mp\<rparr>]\<rparr>"

definition set_entry_point :: "node_name \<Rightarrow> ('s, 'd) state_graph \<Rightarrow> ('s, 'd) state_graph" where
  "set_entry_point n g = g\<lparr>g_entry_point := n\<rparr>"

definition set_recursion_limit :: "int \<Rightarrow> ('s, 'd) state_graph \<Rightarrow> ('s, 'd) state_graph" where
  "set_recursion_limit l g = g\<lparr>g_recursion_limit := l\<rparr>"

definition graph_add_breakpoint :: "node_name \<Rightarrow> ('s, 'd) state_graph \<Rightarrow> ('s, 'd) state_graph" where
  "graph_add_breakpoint n g = g\<lparr>g_interrupt_manager := add_breakpoint n (g_interrupt_manager g)\<rparr>"

definition graph_remove_breakpoint :: "node_name \<Rightarrow> ('s, 'd) state_graph \<Rightarrow> ('s, 'd) state_graph" where
  "graph_remove_breakpoint n g =
     g\<lparr>g_interrupt_manager := remove_breakpoint n (g_interrupt_manager g)\<rparr>"

definition graph_resume :: "'s \<Rightarrow> ('s, 'd) state_graph \<Rightarrow> ('s, 'd) state_graph \<times> (im_error + unit)" where
  "graph_resume s g =
     (case resume s (g_interrupt_manager g) of (m, r) \<Rightarrow> (g\<lparr>g_interrupt_manager := m\<rparr>, r))"

text \<open>The graph's channel getters delegate to its streamer and interrupt manager.\<close>

definition graph_get_event_channel :: "('s, 'd) state_graph \<Rightarrow> event list" where
  "graph_get_event_channel g = get_event_channel (g_streamer g)"

definition graph_get_stream_channel :: "('s, 'd) state_graph \<Rightarrow> 's stream_event list" where
  "graph_get_stream_channel g = get_stream_channel (g_streamer g)"

definition graph_get_interrupt_channel :: "('s, 'd) state_graph \<Rightarrow> interrupt_info list" where
  "graph_get_interrupt_channel g = get_interrupt_channel (g_interrupt_manager g)"

text \<open>\<open>Send\<close> and \<open>Command\<close> are declared but not used by the engine.\<close>

record 's send =
  send_node :: node_name
  send_state :: 's

record 's command =
  cmd_update :: 's
  cmd_goto :: node_name

definition compile :: "('s, 'd) state_graph \<Rightarrow> 'd graph_error + ('s, 'd) runnable_state" where
  "compile g = (if g_entry_point g = '''' then Inl ErrEntryPointNotSet else Inr \<lparr>rs_graph = g\<rparr>)"

section \<open>Lemmas\<close>

text \<open>The builder operations touch only their own field.\<close>

lemmas builder_defs =
  set_stream_config_def add_node_def add_conditional_edges_def set_entry_point_def
  set_recursion_limit_def graph_add_breakpoint_def graph_remove_breakpoint_def

lemma builder_limit [simp]:
  "g_recursion_limit (add_node n f g) = g_recursion_limit g"
  "g_recursion_limit (add_conditional_edges fr rt mp g) = g_recursion_limit g"
  "g_recursion_limit (set_entry_point e g) = g_recursion_limit g"
  "g_recursion_limit (set_recursion_limit l g) = l"
  "g_recursion_limit (set_stream_config c g) = g_recursion_limit g"
  "g_recursion_limit (graph_add_breakpoint n g) = g_recursion_limit g"
  by (simp_all add: builder_defs)

lemma add_node_lookup [simp]:
  "g_nodes (add_node n f g) x =
     (if x = n then Some \<lparr>sn_name = n, sn_function = f\<rparr> else g_nodes g x)"
  by (simp add: add_node_def)

lemma add_conditional_edges_edges [simp]:
  "g_edges (add_conditional_edges fr rt mp g) = g_edges g @ [\<lparr>ce_from = fr, ce_router = rt, ce_mapping = mp\<rparr>]"
  by (simp add: add_conditional_edges_def)

lemma graph_breakpoints [simp]:
  "has_breakpoint x (g_interrupt_manager (graph_add_breakpoint n g)) \<longleftrightarrow>
     x = n \<or> has_breakpoint x (g_interrupt_manager g)"
  "has_breakpoint x (g_interrupt_manager (graph_remove_breakpoint n g)) \<longleftrightarrow>
     x \<noteq> n \<and> has_breakpoint x (g_interrupt_manager g)"
  by (simp_all add: graph_add_breakpoint_def graph_remove_breakpoint_def)

lemma compile_Inr_iff:
  "compile g = Inr r \<longleftrightarrow> g_entry_point g \<noteq> '''' \<and> r = \<lparr>rs_graph = g\<rparr>"
  by (auto simp: compile_def)


section \<open>Properties\<close>

text \<open>\<open>Compile\<close> fails, with \<open>ErrEntryPointNotSet\<close>, exactly when no entry point is set, and otherwise wraps the graph itself.\<close>

theorem compile_checks_entry_point:
  "(case compile g of
      Inl e \<Rightarrow> e = ErrEntryPointNotSet \<and> g_entry_point g = ''''
    | Inr rs \<Rightarrow> rs_graph rs = g \<and> g_entry_point g \<noteq> '''')"
  by (simp add: compile_def)

end
