(* ===== verification/Step.thy ===== *)
theory Step
  imports Graph
begin

text \<open>
  One iteration of the loop of \<open>RunnableState.Invoke\<close> (\<open>src/unnamed/part_000\<close>,
  lines 185--305), from the recursion-limit test at its top to the \<open>continue\<close>, the
  \<open>steps++\<close> at its bottom, or a \<open>return\<close>/\<open>break\<close>. The loop variables
  (\<open>currentNode\<close>, \<open>steps\<close>, \<open>state\<close>) and the graph, whose streamer and
  interrupt manager the loop changes, form the record \<open>run\<close>. Two fields have no Go
  variable: \<open>r_ctl\<close> is the environment, the sequence of actions the controller takes
  at the successive pauses (resume with a state, or cancel the context), and
  \<open>r_calls\<close> is a history variable recording, in order, every node whose step function
  the loop calls; it only serves to state properties of the run.
\<close>

section \<open>Data model\<close>

datatype 's ctl = CtlResume 's | CtlCancel

record ('s, 'd) codec =
  marshal_state :: "'s marshaller"
  marshal_data :: "'d option marshaller"

record ('s, 'd) run =
  r_graph :: "('s, 'd) state_graph"
  r_node :: node_name
  r_steps :: int
  r_state :: 's
  r_ctl :: "'s ctl list"
  r_calls :: "node_name list"

text \<open>How an iteration leaves the loop: \<open>break\<close> at \<open>END\<close>, a \<open>return\<close> with an error, or a
  rendezvous no controller action ever completes (the goroutine blocks for good).\<close>

datatype 'd exit = Break | Fail "'d graph_error" | Block

datatype ('s, 'd) step_result = Continue "('s, 'd) run" | Stop "('s, 'd) run" "'d exit"

section \<open>Helpers of the loop body\<close>

definition node_event :: "event_type \<Rightarrow> node_name \<Rightarrow> int \<Rightarrow> event" where
  "node_event ty n k =
     \<lparr>ev_type = ty, ev_name = n,
      ev_metadata = [(''langgraph_step'', MetaInt k), (''langgraph_node'', MetaString n)]\<rparr>"

definition run_event :: "event_type \<Rightarrow> event" where
  "run_event ty = \<lparr>ev_type = ty, ev_name = ''LangGraph'', ev_metadata = []\<rparr>"

definition set_im :: "'s interrupt_manager \<Rightarrow> ('s, 'd) run \<Rightarrow> ('s, 'd) run" where
  "set_im m r = r\<lparr>r_graph := (r_graph r)\<lparr>g_interrupt_manager := m\<rparr>\<rparr>"

definition map_streamer :: "('s streamer \<Rightarrow> 's streamer) \<Rightarrow> ('s, 'd) run \<Rightarrow> ('s, 'd) run" where
  "map_streamer f r = r\<lparr>r_graph := (r_graph r)\<lparr>g_streamer := f (g_streamer (r_graph r))\<rparr>\<rparr>"

text \<open>
  The rendezvous of \<open>WaitForResume\<close> with the controller. A controller action
  \<open>CtlResume s\<close> is a call \<open>Resume(s)\<close>; when it fails (\<open>NotInterrupted\<close>) the
  error goes to the controller and the engine keeps waiting for the next action.
  \<open>CtlCancel\<close> cancels the context. With no action left the engine waits forever.
\<close>

fun await_resume ::
  "'s ctl list \<Rightarrow> 's interrupt_manager \<Rightarrow>
   ('s ctl list \<times> 's interrupt_manager \<times> (ctx_error + 's)) option" where
  "await_resume [] m = None"
| "await_resume (CtlCancel # cs) m =
     map_option (\<lambda>(m', x). (cs, m', x)) (wait_for_resume True m)"
| "await_resume (CtlResume s # cs) m =
     (case resume s m of
       (m', Inl _) \<Rightarrow> await_resume cs m'
     | (m', Inr _) \<Rightarrow> map_option (\<lambda>(m'', x). (cs, m'', x)) (wait_for_resume False m'))"

text \<open>
  The pause both the breakpoint (lines 196--208) and the interrupt request (lines
  232--244) perform: \<open>Interrupt\<close>, then \<open>WaitForResume\<close>; \<open>wrap\<close> is the error the
  failed \<open>Interrupt\<close> is wrapped in. \<open>Inr\<close> is the run that goes on with the resumed
  state.
\<close>

definition pause ::
  "('s, 'd) codec \<Rightarrow> (im_error \<Rightarrow> 'd graph_error) \<Rightarrow> 'd option \<Rightarrow> 's \<Rightarrow>
   ('s, 'd) run \<Rightarrow> (('s, 'd) run \<times> 'd exit) + ('s, 'd) run" where
  "pause c wrap d s r =
     (case interrupt (marshal_data c) (marshal_state c) (r_node r) d s
             (g_interrupt_manager (r_graph r)) of
       (m, Inl e) \<Rightarrow> Inl (set_im m r, Fail (wrap e))
     | (m, Inr _) \<Rightarrow>
         (case await_resume (r_ctl r) m of
           None \<Rightarrow> Inl (set_im m r, Block)
         | Some (cs, m', Inl e) \<Rightarrow> Inl ((set_im m' r)\<lparr>r_ctl := cs\<rparr>, Fail (ErrWaitForResume e))
         | Some (cs, m', Inr s') \<Rightarrow> Inr ((set_im m' r)\<lparr>r_ctl := cs, r_state := s'\<rparr>)))"

text \<open>The edge mapping, applied to every candidate the router returns (lines 280--290).\<close>

definition apply_mapping :: "(string \<rightharpoonup> string) option \<Rightarrow> node_name list \<Rightarrow> node_name list" where
  "apply_mapping mp ns =
     (case mp of
       None \<Rightarrow> ns
     | Some m \<Rightarrow> map (\<lambda>n. case m n of Some x \<Rightarrow> x | None \<Rightarrow> n) ns)"

text \<open>Routing (lines 264--302): the first edge leaving the node decides, its router's error
  comes first, an empty answer is invalid, and the first mapped candidate is taken.\<close>

definition route :: "('s, 'd) conditional_edge list \<Rightarrow> node_name \<Rightarrow> 's \<Rightarrow> 'd graph_error + node_name" where
  "route es n s =
     (case find (\<lambda>e. ce_from e = n) es of
       None \<Rightarrow> Inl (ErrNoOutgoingEdge n)
     | Some e \<Rightarrow>
         (case ce_router e s of
           (_, Some err) \<Rightarrow> Inl (ErrRouter n err)
         | (ns, None) \<Rightarrow>
             (if ns = [] then Inl ErrInvalidRouterOutput
              else Inr (hd (apply_mapping (ce_mapping e) ns)))))"

section \<open>The loop body\<close>

text \<open>From the node lookup (line 210) to the end of the body.\<close>

definition exec_node :: "('s, 'd) codec \<Rightarrow> ('s, 'd) run \<Rightarrow> ('s, 'd) step_result" where
  "exec_node c r =
     (let n = r_node r; g = r_graph r in
      case g_nodes g n of
        None \<Rightarrow> Stop r (Fail (ErrNodeNotFound n))
      | Some nd \<Rightarrow>
          (let r1 = map_streamer (emit_event (node_event EventChainStart n (r_steps r))) r in
           case sn_function nd (r_state r) of
             (s', Some e) \<Rightarrow>
               (let r2 = r1\<lparr>r_state := s', r_calls := r_calls r @ [n]\<rparr> in
                if is_interrupt_error e then
                  (case pause c ErrInterrupt (get_interrupt_data e) s' r2 of
                    Inl (r3, x) \<Rightarrow> Stop r3 x
                  | Inr r3 \<Rightarrow> Continue r3)
                else Stop r2 (Fail (ErrNode n e)))
           | (s', None) \<Rightarrow>
               (let r2 = map_streamer (emit_update s' \<circ> emit_event (node_event EventChainEnd n (r_steps r)))
                           (r1\<lparr>r_state := s', r_calls := r_calls r @ [n]\<rparr>) in
                case route (g_edges g) n s' of
                  Inl e \<Rightarrow> Stop r2 (Fail e)
                | Inr n' \<Rightarrow> Continue (r2\<lparr>r_node := n', r_steps := r_steps r + 1\<rparr>))))"

text \<open>The whole body (lines 186--304): limit test, \<open>END\<close> test, breakpoint, node.\<close>

definition invoke_step :: "('s, 'd) codec \<Rightarrow> ('s, 'd) run \<Rightarrow> ('s, 'd) step_result" where
  "invoke_step c r =
     (let g = r_graph r in
      if g_recursion_limit g \<le> r_steps r then Stop r (Fail (ErrRecursionLimit (g_recursion_limit g)))
      else if r_node r = END then Stop r Break
      else if has_breakpoint (r_node r) (g_interrupt_manager g) then
        (case pause c ErrBreakpoint None (r_state r) r of
          Inl (r', x) \<Rightarrow> Stop r' x
        | Inr r' \<Rightarrow> exec_node c r')
      else exec_node c r)"

text \<open>The measure of the loop: controller actions left, then the distance to the limit.\<close>

definition run_measure :: "('s, 'd) run \<Rightarrow> nat \<times> nat" where
  "run_measure r = (length (r_ctl r), nat (g_recursion_limit (r_graph r) - r_steps r))"

text \<open>
  The budget of step-function calls a run has left to account for: the calls made so far,
  the controller actions left, and the distance to the recursion limit.
\<close>

definition call_budget :: "('s, 'd) run \<Rightarrow> nat" where
  "call_budget r = length (r_calls r) + length (r_ctl r) + nat (g_recursion_limit (r_graph r) - r_steps r)"

text \<open>The run an iteration leaves, whether the loop goes on or stops.\<close>

fun step_target :: "('s, 'd) step_result \<Rightarrow> ('s, 'd) run" where
  "step_target (Continue r) = r"
| "step_target (Stop r x) = r"

text \<open>The part of the graph a run never changes.\<close>

definition graph_shape ::
  "('s, 'd) state_graph \<Rightarrow> (node_name \<rightharpoonup> ('s, 'd) state_node) \<times> ('s, 'd) conditional_edge list \<times>
     node_name \<times> int \<times> node_name set \<times> stream_mode list" where
  "graph_shape g = (g_nodes g, g_edges g, g_entry_point g, g_recursion_limit g,
                    breakpoints (g_interrupt_manager g), modes (g_streamer g))"

section \<open>Lemmas\<close>

lemma await_resume_Some:
  "await_resume cs m = Some (cs', m', x) \<Longrightarrow>
     length cs' < length cs \<and> breakpoints m' = breakpoints m"
proof (induction cs m arbitrary: cs' m' x rule: await_resume.induct)
  case (1 m)
  then show ?case by simp
next
  case (2 cs m)
  then have "cs' = cs" and "wait_for_resume True m = Some (m', x)" by simp_all
  then show ?case by (simp add: wait_for_resume_frame)
next
  case (3 s cs m)
  obtain m1 r where res: "resume s m = (m1, r)" by fastforce
  then have bp: "breakpoints m1 = breakpoints m" by (rule resume_breakpoints)
  show ?case
  proof (cases r)
    case (Inl e)
    with "3.prems" res have "await_resume cs m1 = Some (cs', m', x)" by simp
    with "3.IH"(1)[OF res[symmetric] Inl] bp show ?thesis by simp
  next
    case (Inr u)
    with "3.prems" res have "cs' = cs" and "wait_for_resume False m1 = Some (m', x)" by simp_all
    with bp show ?thesis by (simp add: wait_for_resume_frame)
  qed
qed

lemma run_update_simps [simp]:
  "r_node (set_im m r) = r_node r" "r_steps (set_im m r) = r_steps r"
  "r_state (set_im m r) = r_state r" "r_ctl (set_im m r) = r_ctl r"
  "r_calls (set_im m r) = r_calls r"
  "r_graph (set_im m r) = (r_graph r)\<lparr>g_interrupt_manager := m\<rparr>"
  "r_node (map_streamer f r) = r_node r" "r_steps (map_streamer f r) = r_steps r"
  "r_state (map_streamer f r) = r_state r" "r_ctl (map_streamer f r) = r_ctl r"
  "r_calls (map_streamer f r) = r_calls r"
  "r_graph (map_streamer f r) = (r_graph r)\<lparr>g_streamer := f (g_streamer (r_graph r))\<rparr>"
  by (simp_all add: set_im_def map_streamer_def)

text \<open>The shape of a pause's outcome: only the manager, the controller actions and, when it
  goes on, the state change.\<close>

lemma pause_Inr:
  assumes "pause c w d s r = Inr r'"
  shows "\<exists>m cs s'. r' = (set_im m r)\<lparr>r_ctl := cs, r_state := s'\<rparr> \<and>
           length cs < length (r_ctl r) \<and> breakpoints m = breakpoints (g_interrupt_manager (r_graph r))"
proof -
  obtain m x where i: "interrupt (marshal_data c) (marshal_state c) (r_node r) d s
                         (g_interrupt_manager (r_graph r)) = (m, x)" by fastforce
  from assms i obtain u where x: "x = Inr u" by (cases x) (auto simp: pause_def)
  from assms i x obtain cs m' s' where a: "await_resume (r_ctl r) m = Some (cs, m', Inr s')"
    and r': "r' = (set_im m' r)\<lparr>r_ctl := cs, r_state := s'\<rparr>"
    by (auto simp: pause_def split: option.splits sum.splits)
  from await_resume_Some [OF a] interrupt_breakpoints [OF i] r' show ?thesis by auto
qed

lemma pause_Inl:
  assumes "pause c w d s r = Inl (r', x)"
  shows "\<exists>m cs. r' = (set_im m r)\<lparr>r_ctl := cs\<rparr> \<and> length cs \<le> length (r_ctl r) \<and>
           breakpoints m = breakpoints (g_interrupt_manager (r_graph r))"
proof -
  obtain m y where i: "interrupt (marshal_data c) (marshal_state c) (r_node r) d s
                         (g_interrupt_manager (r_graph r)) = (m, y)" by fastforce
  show ?thesis
  proof (cases y)
    case (Inl e)
    with assms i have "r' = (set_im m r)\<lparr>r_ctl := r_ctl r\<rparr>" by (auto simp: pause_def set_im_def)
    with interrupt_breakpoints [OF i] show ?thesis by blast
  next
    case (Inr u)
    show ?thesis
    proof (cases "await_resume (r_ctl r) m")
      case None
      with assms i Inr have "r' = (set_im m r)\<lparr>r_ctl := r_ctl r\<rparr>" by (auto simp: pause_def set_im_def)
      with interrupt_breakpoints [OF i] show ?thesis by blast
    next
      case (Some a)
      then obtain cs m' z where a: "await_resume (r_ctl r) m = Some (cs, m', z)" by (cases a) auto
      with assms i Inr have "r' = (set_im m' r)\<lparr>r_ctl := cs\<rparr>"
        by (auto simp: pause_def split: sum.splits)
      with interrupt_breakpoints [OF i] await_resume_Some [OF a] show ?thesis
        by (metis less_imp_le_nat)
    qed
  qed
qed

lemma exec_node_Continue:
  "exec_node c r = Continue r' \<Longrightarrow>
     graph_shape (r_graph r') = graph_shape (r_graph r) \<and>
     (length (r_ctl r') < length (r_ctl r) \<and> r_steps r' = r_steps r \<or>
      length (r_ctl r') = length (r_ctl r) \<and> r_steps r' = r_steps r + 1)"
  by (auto simp: exec_node_def Let_def graph_shape_def split: option.splits prod.splits if_splits sum.splits
           dest!: pause_Inr)


lemma exec_node_Stop:
  "exec_node c r = Stop r' x \<Longrightarrow> graph_shape (r_graph r') = graph_shape (r_graph r)"
  by (auto simp: exec_node_def Let_def graph_shape_def split: option.splits prod.splits if_splits sum.splits
           dest!: pause_Inl)

lemma graph_shape_limit:
  "graph_shape g' = graph_shape g \<Longrightarrow> g_recursion_limit g' = g_recursion_limit g"
  by (simp add: graph_shape_def)

lemma exec_node_measure:
  assumes "exec_node c r = Continue r'" and "r_steps r < g_recursion_limit (r_graph r)"
  shows "(run_measure r', run_measure r) \<in> less_than <*lex*> less_than"
  using exec_node_Continue [OF assms(1)] assms(2)
  by (auto simp: run_measure_def dest: graph_shape_limit)

lemma invoke_step_Continue:
  assumes "invoke_step c r = Continue r'"
  shows "graph_shape (r_graph r') = graph_shape (r_graph r) \<and>
         (run_measure r', run_measure r) \<in> less_than <*lex*> less_than"
proof -
  have lim: "r_steps r < g_recursion_limit (r_graph r)" and "r_node r \<noteq> END"
    using assms by (auto simp: invoke_step_def Let_def split: if_splits)
  show ?thesis
  proof (cases "has_breakpoint (r_node r) (g_interrupt_manager (r_graph r))")
    case False
    with assms lim \<open>r_node r \<noteq> END\<close> have "exec_node c r = Continue r'"
      by (simp add: invoke_step_def)
    with lim show ?thesis by (simp add: exec_node_Continue exec_node_measure)
  next
    case True
    with assms lim \<open>r_node r \<noteq> END\<close> obtain r1 where
      p: "pause c ErrBreakpoint None (r_state r) r = Inr r1" and e: "exec_node c r1 = Continue r'"
      by (auto simp: invoke_step_def split: sum.splits prod.splits)
    from pause_Inr [OF p] obtain m cs s' where
      r1: "r1 = (set_im m r)\<lparr>r_ctl := cs, r_state := s'\<rparr>" and
      len: "length cs < length (r_ctl r)" and
      bp: "breakpoints m = breakpoints (g_interrupt_manager (r_graph r))" by blast
    have sh1: "graph_shape (r_graph r1) = graph_shape (r_graph r)"
      using r1 bp by (simp add: graph_shape_def)
    have "length (r_ctl r') \<le> length (r_ctl r1)" "r_steps r1 = r_steps r"
      using exec_node_Continue [OF e] r1 by auto
    with len r1 have "length (r_ctl r') < length (r_ctl r)" by simp
    then have "(run_measure r', run_measure r) \<in> less_than <*lex*> less_than"
      by (simp add: run_measure_def)
    with exec_node_Continue [OF e] sh1 show ?thesis by simp
  qed
qed


lemma invoke_step_running:
  "\<not> g_recursion_limit (r_graph r) \<le> r_steps r \<Longrightarrow> r_node r \<noteq> END \<Longrightarrow>
   invoke_step c r =
     (if has_breakpoint (r_node r) (g_interrupt_manager (r_graph r))
      then (case pause c ErrBreakpoint None (r_state r) r of
             Inl (r', x) \<Rightarrow> Stop r' x
           | Inr r' \<Rightarrow> exec_node c r')
      else exec_node c r)"
  by (simp add: invoke_step_def)

lemma set_im_shape [simp]:
  "breakpoints m = breakpoints (g_interrupt_manager g) \<Longrightarrow>
   graph_shape (g\<lparr>g_interrupt_manager := m\<rparr>) = graph_shape g"
  by (simp add: graph_shape_def)

lemma pause_Inl_shape:
  assumes "pause c w d s r = Inl (r', x)"
  shows "graph_shape (r_graph r') = graph_shape (r_graph r)"
proof -
  from pause_Inl [OF assms] obtain m cs where
    "r' = (set_im m r)\<lparr>r_ctl := cs\<rparr>" "breakpoints m = breakpoints (g_interrupt_manager (r_graph r))"
    by blast
  then show ?thesis by simp
qed

lemma pause_Inr_shape:
  assumes "pause c w d s r = Inr r'"
  shows "graph_shape (r_graph r') = graph_shape (r_graph r)"
proof -
  from pause_Inr [OF assms] obtain m cs s' where
    "r' = (set_im m r)\<lparr>r_ctl := cs, r_state := s'\<rparr>"
    "breakpoints m = breakpoints (g_interrupt_manager (r_graph r))"
    by blast
  then show ?thesis by simp
qed

lemma invoke_step_Stop:
  assumes "invoke_step c r = Stop r' x"
  shows "graph_shape (r_graph r') = graph_shape (r_graph r)"
proof (cases "g_recursion_limit (r_graph r) \<le> r_steps r \<or> r_node r = END")
  case True
  with assms show ?thesis by (auto simp: invoke_step_def Let_def split: if_splits)
next
  case False
  then have run: "invoke_step c r =
     (if has_breakpoint (r_node r) (g_interrupt_manager (r_graph r))
      then (case pause c ErrBreakpoint None (r_state r) r of
             Inl (r', x) \<Rightarrow> Stop r' x
           | Inr r' \<Rightarrow> exec_node c r')
      else exec_node c r)"
    by (simp add: invoke_step_running)
  show ?thesis
  proof (cases "has_breakpoint (r_node r) (g_interrupt_manager (r_graph r))")
    case nb: False
    with assms run have "exec_node c r = Stop r' x" by simp
    then show ?thesis by (rule exec_node_Stop)
  next
    case bp: True
    show ?thesis
    proof (cases "pause c ErrBreakpoint None (r_state r) r")
      case (Inl a)
      obtain r1 x1 where a: "a = (r1, x1)" by fastforce
      with assms run bp Inl have "r1 = r'" by simp
      with Inl a show ?thesis by (simp add: pause_Inl_shape)
    next
      case (Inr r1)
      with assms run bp have "exec_node c r1 = Stop r' x" by simp
      with pause_Inr_shape [OF Inr] show ?thesis by (simp add: exec_node_Stop)
    qed
  qed
qed


lemma invoke_step_stops [step_simps]:
  "g_recursion_limit (r_graph r) \<le> r_steps r \<Longrightarrow>
   invoke_step c r = Stop r (Fail (ErrRecursionLimit (g_recursion_limit (r_graph r))))"
  "\<not> g_recursion_limit (r_graph r) \<le> r_steps r \<Longrightarrow> r_node r = END \<Longrightarrow>
   invoke_step c r = Stop r Break"
  by (simp_all add: invoke_step_def)

lemma pause_streamer:
  "pause c w d s r = Inr r' \<Longrightarrow> g_streamer (r_graph r') = g_streamer (r_graph r)"
  "pause c w d s r = Inl (r', x) \<Longrightarrow> g_streamer (r_graph r') = g_streamer (r_graph r)"
proof -
  assume "pause c w d s r = Inr r'"
  from pause_Inr [OF this] obtain m cs s' where "r' = (set_im m r)\<lparr>r_ctl := cs, r_state := s'\<rparr>"
    by blast
  then show "g_streamer (r_graph r') = g_streamer (r_graph r)" by simp
next
  assume "pause c w d s r = Inl (r', x)"
  from pause_Inl [OF this] obtain m cs where "r' = (set_im m r)\<lparr>r_ctl := cs\<rparr>"
    by blast
  then show "g_streamer (r_graph r') = g_streamer (r_graph r)" by simp
qed

lemma pause_target_streamer:
  "g_streamer (r_graph (step_target (case pause c w d s r of Inl (r', x) \<Rightarrow> Stop r' x | Inr r' \<Rightarrow> Continue r'))) =
   g_streamer (r_graph r)"
  by (cases "pause c w d s r") (auto simp: pause_streamer)

lemma exec_node_emits:
  "emits (g_streamer (r_graph r)) (g_streamer (r_graph (step_target (exec_node c r))))"
proof (cases "g_nodes (r_graph r) (r_node r)")
  case None
  then show ?thesis by (simp add: exec_node_def emits.emits_refl)
next
  case (Some nd)
  let ?s0 = "g_streamer (r_graph r)"
  let ?e1 = "node_event EventChainStart (r_node r) (r_steps r)"
  obtain s' err where fn: "sn_function nd (r_state r) = (s', err)" by fastforce
  show ?thesis
  proof (cases err)
    case (Some e)
    have "emits ?s0 (emit_event ?e1 ?s0)" by blast
    with Some \<open>g_nodes _ _ = Some nd\<close> fn show ?thesis
      by (simp add: exec_node_def Let_def pause_target_streamer)
  next
    case None
    let ?s2 = "emit_update s' (emit_event (node_event EventChainEnd (r_node r) (r_steps r)) (emit_event ?e1 ?s0))"
    have "emits ?s0 ?s2" by (auto intro: emits.intros simp del: emit_data_defs simp: emit_update_def)
    with None \<open>g_nodes _ _ = Some nd\<close> fn show ?thesis
      by (simp add: exec_node_def Let_def split: sum.split)
  qed
qed

lemma invoke_step_emits:
  "emits (g_streamer (r_graph r)) (g_streamer (r_graph (step_target (invoke_step c r))))"
proof (cases "g_recursion_limit (r_graph r) \<le> r_steps r \<or> r_node r = END")
  case True
  then show ?thesis by (cases "g_recursion_limit (r_graph r) \<le> r_steps r")
                        (simp_all add: invoke_step_stops emits.emits_refl)
next
  case False
  show ?thesis
  proof (cases "has_breakpoint (r_node r) (g_interrupt_manager (r_graph r))")
    case nb: False
    with False show ?thesis by (simp add: invoke_step_running exec_node_emits)
  next
    case bp: True
    show ?thesis
    proof (cases "pause c ErrBreakpoint None (r_state r) r")
      case (Inl a)
      then show ?thesis using False bp
        by (cases a) (simp add: invoke_step_running pause_streamer emits.emits_refl)
    next
      case (Inr r1)
      with False bp have "invoke_step c r = exec_node c r1" by (simp add: invoke_step_running)
      with exec_node_emits [of r1 c] pause_streamer(1) [OF Inr] show ?thesis by simp
    qed
  qed
qed


lemma pause_fields:
  "pause c w d s r = Inr r' \<Longrightarrow> r_steps r' = r_steps r \<and> r_node r' = r_node r \<and> r_calls r' = r_calls r"
  "pause c w d s r = Inl (r', x) \<Longrightarrow> r_steps r' = r_steps r \<and> r_node r' = r_node r \<and> r_calls r' = r_calls r"
proof -
  assume "pause c w d s r = Inr r'"
  from pause_Inr [OF this] obtain m cs s' where "r' = (set_im m r)\<lparr>r_ctl := cs, r_state := s'\<rparr>"
    by blast
  then show "r_steps r' = r_steps r \<and> r_node r' = r_node r \<and> r_calls r' = r_calls r" by simp
next
  assume "pause c w d s r = Inl (r', x)"
  from pause_Inl [OF this] obtain m cs where "r' = (set_im m r)\<lparr>r_ctl := cs\<rparr>"
    by blast
  then show "r_steps r' = r_steps r \<and> r_node r' = r_node r \<and> r_calls r' = r_calls r" by simp
qed

lemma exec_node_Stop_steps:
  "exec_node c r = Stop r' x \<Longrightarrow> r_steps r' = r_steps r"
  by (auto simp: exec_node_def Let_def split: option.splits prod.splits if_splits sum.splits
           dest: pause_fields)

lemma invoke_step_steps:
  "invoke_step c r = Continue r' \<Longrightarrow>
     r_steps r < g_recursion_limit (r_graph r) \<and> (r_steps r' = r_steps r \<or> r_steps r' = r_steps r + 1)"
  "invoke_step c r = Stop r' x \<Longrightarrow>
     r_steps r' = r_steps r \<and> (x = Break \<longrightarrow> r_steps r < g_recursion_limit (r_graph r))"
proof -
  assume a: "invoke_step c r = Continue r'"
  then have lim: "r_steps r < g_recursion_limit (r_graph r)" and nend: "r_node r \<noteq> END"
    by (auto simp: invoke_step_def Let_def split: if_splits)
  show "r_steps r < g_recursion_limit (r_graph r) \<and> (r_steps r' = r_steps r \<or> r_steps r' = r_steps r + 1)"
  proof (cases "has_breakpoint (r_node r) (g_interrupt_manager (r_graph r))")
    case False
    with a lim nend have "exec_node c r = Continue r'" by (simp add: invoke_step_running)
    with lim show ?thesis by (auto dest: exec_node_Continue)
  next
    case True
    with a lim nend obtain r1 where p: "pause c ErrBreakpoint None (r_state r) r = Inr r1"
      and e: "exec_node c r1 = Continue r'"
      by (auto simp: invoke_step_running split: sum.splits prod.splits)
    from pause_fields(1) [OF p] exec_node_Continue [OF e] lim show ?thesis by auto
  qed
next
  assume a: "invoke_step c r = Stop r' x"
  show "r_steps r' = r_steps r \<and> (x = Break \<longrightarrow> r_steps r < g_recursion_limit (r_graph r))"
  proof (cases "g_recursion_limit (r_graph r) \<le> r_steps r \<or> r_node r = END")
    case True
    with a show ?thesis
      by (cases "g_recursion_limit (r_graph r) \<le> r_steps r") (auto simp: invoke_step_stops)
  next
    case False
    then have run: "invoke_step c r = (if has_breakpoint (r_node r) (g_interrupt_manager (r_graph r))
      then (case pause c ErrBreakpoint None (r_state r) r of Inl (r', x) \<Rightarrow> Stop r' x | Inr r' \<Rightarrow> exec_node c r')
      else exec_node c r)" by (simp add: invoke_step_running)
    have "x \<noteq> Break"
    proof
      assume "x = Break"
      with a run show False
        by (auto simp: exec_node_def Let_def pause_def split: if_splits option.splits prod.splits sum.splits)
    qed
    moreover have "r_steps r' = r_steps r"
    proof (cases "has_breakpoint (r_node r) (g_interrupt_manager (r_graph r))")
      case False
      with a run show ?thesis by (simp add: exec_node_Stop_steps)
    next
      case True
      with a run show ?thesis
        by (auto split: sum.splits prod.splits dest!: pause_fields exec_node_Stop_steps)
    qed
    ultimately show ?thesis by simp
  qed
qed


text \<open>The call budget never grows along the loop, but for one call at the stop.\<close>

lemma exec_node_calls:
  "exec_node c r = Continue r' \<Longrightarrow> r_calls r' = r_calls r @ [r_node r]"
  "exec_node c r = Stop r' x \<Longrightarrow>
     (r_calls r' = r_calls r \<or> r_calls r' = r_calls r @ [r_node r]) \<and> length (r_ctl r') \<le> length (r_ctl r)"
  by (auto simp: exec_node_def Let_def split: option.splits prod.splits if_splits sum.splits
           dest: pause_fields pause_Inl)

lemma pause_budget:
  "pause c w d s r = Inr r' \<Longrightarrow> call_budget r' \<le> call_budget r \<and> r_steps r' = r_steps r \<and>
     g_recursion_limit (r_graph r') = g_recursion_limit (r_graph r)"
  "pause c w d s r = Inl (r', x) \<Longrightarrow> call_budget r' \<le> call_budget r"
  by (auto simp: call_budget_def dest!: pause_Inr pause_Inl)

lemma exec_node_budget:
  assumes "r_steps r < g_recursion_limit (r_graph r)"
  shows "exec_node c r = Continue r' \<Longrightarrow> call_budget r' \<le> call_budget r"
    and "exec_node c r = Stop r' x \<Longrightarrow> call_budget r' \<le> Suc (call_budget r)"
proof -
  assume a: "exec_node c r = Continue r'"
  have "g_recursion_limit (r_graph r') = g_recursion_limit (r_graph r)"
    using exec_node_Continue [OF a] graph_shape_limit by blast
  with exec_node_Continue [OF a] exec_node_calls(1) [OF a] assms
  show "call_budget r' \<le> call_budget r"
    by (auto simp: call_budget_def)
next
  assume a: "exec_node c r = Stop r' x"
  have "g_recursion_limit (r_graph r') = g_recursion_limit (r_graph r)"
    using exec_node_Stop [OF a] graph_shape_limit by blast
  with exec_node_calls(2) [OF a] exec_node_Stop_steps [OF a]
  show "call_budget r' \<le> Suc (call_budget r)"
    by (auto simp: call_budget_def)
qed

lemma invoke_step_budget:
  "invoke_step c r = Continue r' \<Longrightarrow> call_budget r' \<le> call_budget r"
  "invoke_step c r = Stop r' x \<Longrightarrow> call_budget r' \<le> Suc (call_budget r)"
proof -
  assume a: "invoke_step c r = Continue r'"
  then have lim: "r_steps r < g_recursion_limit (r_graph r)"
    using invoke_step_steps(1) by blast
  show "call_budget r' \<le> call_budget r"
  proof (cases "has_breakpoint (r_node r) (g_interrupt_manager (r_graph r))")
    case True
    with a lim obtain r1 where p: "pause c ErrBreakpoint None (r_state r) r = Inr r1"
      and e: "exec_node c r1 = Continue r'"
      by (auto simp: invoke_step_def Let_def split: if_splits sum.splits prod.splits)
    from pause_budget(1) [OF p] lim exec_node_budget(1) [OF _ e] show ?thesis by fastforce
  next
    case False
    with a lim have "exec_node c r = Continue r'" by (auto simp: invoke_step_def Let_def split: if_splits)
    from exec_node_budget(1) [OF lim this] show ?thesis .
  qed
next
  assume a: "invoke_step c r = Stop r' x"
  show "call_budget r' \<le> Suc (call_budget r)"
  proof (cases "g_recursion_limit (r_graph r) \<le> r_steps r \<or> r_node r = END")
    case True
    with a show ?thesis by (auto simp: invoke_step_def Let_def split: if_splits)
  next
    case False
    then have lim: "r_steps r < g_recursion_limit (r_graph r)" and ne: "r_node r \<noteq> END" by simp_all
    show ?thesis
    proof (cases "has_breakpoint (r_node r) (g_interrupt_manager (r_graph r))")
      case True
      show ?thesis
      proof (cases "pause c ErrBreakpoint None (r_state r) r")
        case (Inl p)
        with a False True pause_budget(2) [of c ErrBreakpoint None "r_state r" r "fst p" "snd p"]
        show ?thesis by (auto simp: invoke_step_def Let_def split: prod.splits)
      next
        case (Inr r1)
        with a False True have e: "exec_node c r1 = Stop r' x" by (simp add: invoke_step_def Let_def)
        from pause_budget(1) [OF Inr] lim exec_node_budget(2) [OF _ e] show ?thesis by fastforce
      qed
    next
      case False
      with a lim ne have "exec_node c r = Stop r' x" by (auto simp: invoke_step_def Let_def split: if_splits)
      from exec_node_budget(2) [OF lim this] show ?thesis by simp
    qed
  qed
qed

subsection \<open>A manager left interrupted\<close>

text \<open>\<open>Interrupt\<close> leaves the flag set whatever it returns, and a failed \<open>Resume\<close> changes
  nothing, so a pause that does not go on leaves the manager interrupted.\<close>

lemma await_resume_cancel:
  "await_resume cs m = Some (cs', m', Inl e) \<Longrightarrow> interrupted m \<Longrightarrow> interrupted m'"
  by (induction cs m rule: await_resume.induct)
     (auto simp: wait_for_resume_def resume_def split: list.splits if_splits)

lemma pause_Inl_interrupted:
  "pause c w d s r = Inl (r', x) \<Longrightarrow> interrupted (g_interrupt_manager (r_graph r'))"
  using interrupt_leaves_flag [of "marshal_data c" "marshal_state c" "r_node r" d s "g_interrupt_manager (r_graph r)"]
  by (auto simp: pause_def split: prod.splits sum.splits option.splits dest: await_resume_cancel)

lemma route_not_wait: "route es n s \<noteq> Inl (ErrWaitForResume e)"
  by (auto simp: route_def split: option.splits prod.splits)

lemma invoke_step_cancel:
  "invoke_step c r = Stop r' (Fail (ErrWaitForResume e)) \<Longrightarrow> interrupted (g_interrupt_manager (r_graph r'))"
  by (auto simp: invoke_step_def exec_node_def Let_def route_not_wait split: if_splits sum.splits prod.splits option.splits
           dest: pause_Inl_interrupted)

text \<open>On a manager already interrupted every pause fails at once and changes nothing.\<close>

lemma pause_interrupted:
  "interrupted (g_interrupt_manager (r_graph r)) \<Longrightarrow> pause c w d s r = Inl (r, Fail (w AlreadyInterrupted))"
  by (simp add: pause_def interrupt_def set_im_def)

lemma invoke_step_interrupted:
  assumes "interrupted (g_interrupt_manager (r_graph r))"
  shows "g_interrupt_manager (r_graph (step_target (invoke_step c r))) = g_interrupt_manager (r_graph r) \<and>
         r_ctl (step_target (invoke_step c r)) = r_ctl r \<and>
         (\<forall>r' x. invoke_step c r = Stop r' x \<longrightarrow> x \<noteq> Block \<and> (\<forall>e. x \<noteq> Fail (ErrWaitForResume e)))"
  using assms
  by (auto simp: invoke_step_def exec_node_def Let_def pause_interrupted route_not_wait
           split: if_splits sum.splits prod.splits option.splits)

text \<open>A stopping iteration leaves at most as many calls as the budget it started with: a
  call made at the stop happens below the limit, and that last step is still in the budget.\<close>

lemma invoke_step_stop_calls:
  assumes "invoke_step c r = Stop r' x"
  shows "length (r_calls r') \<le> call_budget r"
proof (cases "g_recursion_limit (r_graph r) \<le> r_steps r \<or> r_node r = END")
  case True
  with assms have "r' = r" by (auto simp: invoke_step_def Let_def split: if_splits)
  then show ?thesis by (simp add: call_budget_def)
next
  case False
  have "r_steps r' = r_steps r" using invoke_step_steps(2) [OF assms] by simp
  moreover have "g_recursion_limit (r_graph r') = g_recursion_limit (r_graph r)"
    using invoke_step_Stop [OF assms] by (rule graph_shape_limit)
  moreover have "0 < nat (g_recursion_limit (r_graph r) - r_steps r)" using False by simp
  ultimately show ?thesis
    using invoke_step_budget(2) [OF assms] by (simp add: call_budget_def)
qed

section \<open>Properties\<close>

text \<open>C5: A breakpoint pauses before the node runs: when the loop reaches a node with a breakpoint, one \<open>InterruptInfo\<close> for that node and the current state is sent, and after the controller's \<open>Resume(s)\<close> the node is executed on \<open>s\<close>, with the manager back to not interrupted.\<close>

theorem breakpoint_pauses_before_node:
  assumes "r_steps r < g_recursion_limit (r_graph r)" and "r_node r \<noteq> END"
    and "has_breakpoint (r_node r) (g_interrupt_manager (r_graph r))"
    and "\<not> interrupted (g_interrupt_manager (r_graph r))" and "resume_ch (g_interrupt_manager (r_graph r)) = []"
    and "marshal_data c None = Inr db" and "marshal_state c (r_state r) = Inr sb"
    and "r_ctl r = CtlResume s' # cs"
  shows "invoke_step c r =
           exec_node c (r\<lparr>r_graph := (r_graph r)\<lparr>g_interrupt_manager :=
                            (g_interrupt_manager (r_graph r))\<lparr>interrupt_ch :=
                               interrupt_ch (g_interrupt_manager (r_graph r)) @
                               [\<lparr>info_node = r_node r, info_data = db, info_state = sb\<rparr>]\<rparr>\<rparr>,
                          r_ctl := cs, r_state := s'\<rparr>)"
  using assms
  by (simp add: invoke_step_running pause_def interrupt_def resume_def wait_for_resume_def set_im_def)

text \<open>C6: An interrupt request retries the same node: when the step function returns an \<open>InterruptError\<close>, the engine sends one info, waits, and goes on at the same node with the resumed state and the same step count.\<close>

theorem interrupt_request_retries_node:
  assumes "r_steps r < g_recursion_limit (r_graph r)" and "r_node r \<noteq> END"
    and "\<not> has_breakpoint (r_node r) (g_interrupt_manager (r_graph r))"
    and "\<not> interrupted (g_interrupt_manager (r_graph r))" and "resume_ch (g_interrupt_manager (r_graph r)) = []"
    and "g_nodes (r_graph r) (r_node r) = Some nd"
    and "sn_function nd (r_state r) = (z, Some (InterruptError d))"
    and "marshal_data c (Some d) = Inr db" and "marshal_state c z = Inr sb"
    and "r_ctl r = CtlResume s' # cs"
  shows "\<exists>r'. invoke_step c r = Continue r' \<and> r_node r' = r_node r \<and> r_steps r' = r_steps r \<and>
              r_state r' = s' \<and> r_ctl r' = cs \<and> r_calls r' = r_calls r @ [r_node r] \<and>
              \<not> interrupted (g_interrupt_manager (r_graph r')) \<and>
              interrupt_ch (g_interrupt_manager (r_graph r')) =
                interrupt_ch (g_interrupt_manager (r_graph r)) @
                [\<lparr>info_node = r_node r, info_data = db, info_state = sb\<rparr>]"
  using assms
  by (simp add: invoke_step_running exec_node_def Let_def pause_def interrupt_def resume_def
                wait_for_resume_def set_im_def map_streamer_def)

text \<open>Routing uses the first edge leaving the node, in the order the edges were added, and the first candidate of its router after the mapping.\<close>

theorem route_first_edge:
  assumes "\<forall>e \<in> set es1. ce_from e \<noteq> n" and "ce_from e = n"
    and "ce_router e s = (x # xs, None)"
  shows "route (es1 @ e # es2) n s = Inr (hd (apply_mapping (ce_mapping e) (x # xs)))"
  using assms by (simp add: route_def)

text \<open>The edge mapping translates every candidate it has an entry for and passes the others through; a nil mapping and an empty one agree, and the number of candidates is kept.\<close>

theorem apply_mapping_translates:
  "apply_mapping None ns = ns \<and> apply_mapping (Some Map.empty) ns = ns \<and>
   apply_mapping (Some m) ns = map (\<lambda>n. case m n of Some y \<Rightarrow> y | None \<Rightarrow> n) ns \<and>
   length (apply_mapping mp ns) = length ns"
  by (cases mp) (simp_all add: apply_mapping_def)

end
