(* ===== verification/Invoke.thy ===== *)
theory Invoke
  imports Step
begin

text \<open>
  \<open>RunnableState.Invoke\<close> (\<open>src/unnamed/part_000\<close>, lines 171--317): the loop of
  \<open>Step\<close> iterated until it stops, with the emissions that bracket the run; and an
  abstract specification of what a run computes when nothing pauses it.
\<close>

section \<open>The loop and the run\<close>

text \<open>
  The loop needs no fuel: every iteration that goes on either consumes a controller
  action (it paused) or increments the step counter below the limit, so the pair
  (actions left, distance to the limit) decreases lexicographically.
\<close>

function invoke_loop :: "('s, 'd) codec \<Rightarrow> ('s, 'd) run \<Rightarrow> ('s, 'd) run \<times> 'd exit" where
  "invoke_loop c r =
     (case invoke_step c r of
       Stop r' x \<Rightarrow> (r', x)
     | Continue r' \<Rightarrow> invoke_loop c r')"
  by pat_completeness auto
termination
  by (relation "inv_image (less_than <*lex*> less_than) (\<lambda>(c, r). run_measure r)")
     (auto dest: invoke_step_Continue)

datatype ('s, 'd) outcome = Done 's | Failed "'d graph_error" | Blocked

definition initial_run :: "('s, 'd) state_graph \<Rightarrow> 's ctl list \<Rightarrow> 's \<Rightarrow> ('s, 'd) run" where
  "initial_run g cs s =
     \<lparr>r_graph = g\<lparr>g_streamer := emit_event (run_event EventChainStart) (emit_value s (g_streamer g))\<rparr>,
      r_node = g_entry_point g, r_steps = 0, r_state = s, r_ctl = cs, r_calls = []\<rparr>"

definition invoke ::
  "('s, 'd) codec \<Rightarrow> ('s, 'd) runnable_state \<Rightarrow> 's ctl list \<Rightarrow> 's \<Rightarrow> ('s, 'd) run \<times> ('s, 'd) outcome" where
  "invoke c rs cs s =
     (case invoke_loop c (initial_run (rs_graph rs) cs s) of
       (r, Break) \<Rightarrow>
         (map_streamer (emit_event (run_event EventChainEnd) \<circ> emit_value (r_state r)) r, Done (r_state r))
     | (r, Fail e) \<Rightarrow> (r, Failed e)
     | (r, Block) \<Rightarrow> (r, Blocked))"

section \<open>Abstract specification\<close>

text \<open>
  What a run computes when no breakpoint is set and no node asks to pause: follow the
  path the routers choose from the entry point, one node per step, stop at \<open>END\<close>,
  and fail at the first error or once the step budget is spent. The result is the list of
  nodes executed and the final state or the error.
\<close>

function spec_run ::
  "(node_name \<rightharpoonup> ('s, 'd) state_node) \<Rightarrow> ('s, 'd) conditional_edge list \<Rightarrow> int \<Rightarrow> int \<Rightarrow>
   node_name \<Rightarrow> 's \<Rightarrow> node_name list \<times> ('d graph_error + 's)" where
  "spec_run ns es lim k n s =
     (if lim \<le> k then ([], Inl (ErrRecursionLimit lim))
      else if n = END then ([], Inr s)
      else
        (case ns n of
          None \<Rightarrow> ([], Inl (ErrNodeNotFound n))
        | Some nd \<Rightarrow>
            (case sn_function nd s of
              (s', Some e) \<Rightarrow> ([n], Inl (ErrNode n e))
            | (s', None) \<Rightarrow>
                (case route es n s' of
                  Inl e \<Rightarrow> ([n], Inl e)
                | Inr n' \<Rightarrow> (case spec_run ns es lim (k + 1) n' s' of (vs, res) \<Rightarrow> (n # vs, res))))))"
  by pat_completeness auto
termination
  by (relation "measure (\<lambda>(ns, es, lim, k, n, s). nat (lim - k))") auto

definition spec_of :: "('s, 'd) run \<Rightarrow> node_name list \<times> ('d graph_error + 's)" where
  "spec_of r =
     spec_run (g_nodes (r_graph r)) (g_edges (r_graph r)) (g_recursion_limit (r_graph r))
       (r_steps r) (r_node r) (r_state r)"

text \<open>A graph nothing pauses: no breakpoint, and no node returns an interrupt request.\<close>

definition pause_free :: "('s, 'd) state_graph \<Rightarrow> bool" where
  "pause_free g \<longleftrightarrow>
     breakpoints (g_interrupt_manager g) = {} \<and>
     (\<forall>n nd s e. g_nodes g n = Some nd \<longrightarrow> snd (sn_function nd s) = Some e \<longrightarrow>
        \<not> is_interrupt_error e)"

fun abs_exit :: "'s \<Rightarrow> 'd exit \<Rightarrow> ('d graph_error + 's) option" where
  "abs_exit s Break = Some (Inr s)"
| "abs_exit s (Fail e) = Some (Inl e)"
| "abs_exit s Block = None"

fun abs_outcome :: "('s, 'd) outcome \<Rightarrow> ('d graph_error + 's) option" where
  "abs_outcome (Done s) = Some (Inr s)"
| "abs_outcome (Failed e) = Some (Inl e)"
| "abs_outcome Blocked = None"

text \<open>What a run keeps and what it only extends, relative to the run it started from.\<close>

definition run_frame :: "('s, 'd) run \<Rightarrow> ('s, 'd) run \<Rightarrow> bool" where
  "run_frame r0 r \<longleftrightarrow>
     graph_shape (r_graph r) = graph_shape (r_graph r0) \<and>
     emits (g_streamer (r_graph r0)) (g_streamer (r_graph r)) \<and>
     r_steps r0 \<le> r_steps r \<and> r_steps r \<le> max (r_steps r0) (g_recursion_limit (r_graph r0))"

section \<open>Lemmas\<close>

lemma invoke_loop_Stop [step_simps]:
  "invoke_step c r = Stop r' x \<Longrightarrow> invoke_loop c r = (r', x)"
  by simp

lemma invoke_loop_Continue [step_simps]:
  "invoke_step c r = Continue r' \<Longrightarrow> invoke_loop c r = invoke_loop c r'"
  by simp

declare invoke_loop.simps [simp del] spec_run.simps [simp del]


text \<open>The equations that evaluate a run of a concrete graph by \<open>simp\<close>, used with
  \<open>step_result.case_cong_weak\<close> so that the loop unfolds only once its iteration is known.\<close>

lemmas run_eval =
  invoke_def initial_run_def invoke_step_def exec_node_def route_def apply_mapping_def
  invoke_loop.simps END_def map_streamer_def set_im_def has_breakpoint_def
  new_interrupt_manager_def Let_def node_event_def run_event_def new_streamer_def pause_def
  interrupt_def resume_def wait_for_resume_def new_state_graph_def builder_defs
  default_stream_config_def interrupt_request_def add_breakpoint_def remove_breakpoint_def

subsection \<open>Loop invariants\<close>

lemma invoke_loop_inv:
  "invoke_loop c r = (r', x) \<Longrightarrow> P r \<Longrightarrow>
   (\<And>r r1. P r \<Longrightarrow> invoke_step c r = Continue r1 \<Longrightarrow> P r1) \<Longrightarrow>
   (\<And>r r1 y. P r \<Longrightarrow> invoke_step c r = Stop r1 y \<Longrightarrow> Q r1 y) \<Longrightarrow> Q r' x"
proof (induction c r rule: invoke_loop.induct)
  case (1 c r)
  show ?case
  proof (cases "invoke_step c r")
    case (Continue r1)
    have "P r1" using "1.prems"(2) Continue by (rule "1.prems"(3))
    moreover have "invoke_loop c r1 = (r', x)"
      using invoke_loop_Continue [OF Continue] "1.prems"(1) by simp
    ultimately show ?thesis using "1.IH" [OF Continue] "1.prems"(3,4) by blast
  next
    case (Stop r1 y)
    from invoke_loop_Stop [OF Stop] "1.prems"(1) have "r' = r1" "x = y" by simp_all
    with "1.prems"(2,4) Stop show ?thesis by blast
  qed
qed

lemma run_frame_refl: "run_frame r r"
  by (simp add: run_frame_def emits.emits_refl)

lemma run_frame_Continue:
  assumes "run_frame r0 r" and "invoke_step c r = Continue r1"
  shows "run_frame r0 r1"
proof -
  from invoke_step_Continue [OF assms(2)] have sh: "graph_shape (r_graph r1) = graph_shape (r_graph r)" by simp
  from invoke_step_emits [of r c] assms(2) have em: "emits (g_streamer (r_graph r)) (g_streamer (r_graph r1))" by simp
  from invoke_step_steps(1) [OF assms(2)] have st:
    "r_steps r < g_recursion_limit (r_graph r)" "r_steps r1 = r_steps r \<or> r_steps r1 = r_steps r + 1" by simp_all
  from assms(1) have lim: "g_recursion_limit (r_graph r) = g_recursion_limit (r_graph r0)"
    by (simp add: run_frame_def graph_shape_def)
  from assms(1) sh em st lim show ?thesis
    by (auto simp: run_frame_def intro: emits_trans)
qed

lemma run_frame_Stop:
  assumes "run_frame r0 r" and "invoke_step c r = Stop r1 y"
  shows "run_frame r0 r1 \<and> (y = Break \<longrightarrow> r_steps r1 < g_recursion_limit (r_graph r0))"
proof -
  from invoke_step_Stop [OF assms(2)] have sh: "graph_shape (r_graph r1) = graph_shape (r_graph r)" by simp
  from invoke_step_emits [of r c] assms(2) have em: "emits (g_streamer (r_graph r)) (g_streamer (r_graph r1))" by simp
  from invoke_step_steps(2) [OF assms(2)] have st:
    "r_steps r1 = r_steps r" "y = Break \<longrightarrow> r_steps r < g_recursion_limit (r_graph r)" by simp_all
  from assms(1) have lim: "g_recursion_limit (r_graph r) = g_recursion_limit (r_graph r0)"
    by (simp add: run_frame_def graph_shape_def)
  from assms(1) sh em st lim show ?thesis
    by (auto simp: run_frame_def intro: emits_trans)
qed

lemma invoke_loop_frame:
  assumes "invoke_loop c r = (r', x)"
  shows "run_frame r r' \<and> (x = Break \<longrightarrow> r_steps r' < g_recursion_limit (r_graph r))"
proof (rule invoke_loop_inv [OF assms, where P = "run_frame r"])
  show "run_frame r r" by (rule run_frame_refl)
next
  fix r1 r2
  assume "run_frame r r1" "invoke_step c r1 = Continue r2"
  then show "run_frame r r2" by (rule run_frame_Continue)
next
  fix r1 r2 y
  assume "run_frame r r1" "invoke_step c r1 = Stop r2 y"
  then show "run_frame r r2 \<and> (y = Break \<longrightarrow> r_steps r2 < g_recursion_limit (r_graph r))"
    by (rule run_frame_Stop)
qed

subsection \<open>Refinement of the abstract specification\<close>

lemma pause_free_no_breakpoint:
  "pause_free g \<Longrightarrow> \<not> has_breakpoint n (g_interrupt_manager g)"
  by (simp add: pause_free_def has_breakpoint_def)

lemma pause_free_not_interrupt:
  "pause_free g \<Longrightarrow> g_nodes g n = Some nd \<Longrightarrow> sn_function nd s = (s', Some e) \<Longrightarrow>
   \<not> is_interrupt_error e"
  unfolding pause_free_def by (metis snd_conv)

lemma spec_of_unfold:
  "spec_of r =
     (if g_recursion_limit (r_graph r) \<le> r_steps r then ([], Inl (ErrRecursionLimit (g_recursion_limit (r_graph r))))
      else if r_node r = END then ([], Inr (r_state r))
      else
        (case g_nodes (r_graph r) (r_node r) of
          None \<Rightarrow> ([], Inl (ErrNodeNotFound (r_node r)))
        | Some nd \<Rightarrow>
            (case sn_function nd (r_state r) of
              (s', Some e) \<Rightarrow> ([r_node r], Inl (ErrNode (r_node r) e))
            | (s', None) \<Rightarrow>
                (case route (g_edges (r_graph r)) (r_node r) s' of
                  Inl e \<Rightarrow> ([r_node r], Inl e)
                | Inr n' \<Rightarrow>
                    (case spec_run (g_nodes (r_graph r)) (g_edges (r_graph r)) (g_recursion_limit (r_graph r))
                            (r_steps r + 1) n' s' of
                      (vs, res) \<Rightarrow> (r_node r # vs, res))))))"
  unfolding spec_of_def by (subst spec_run.simps) (rule refl)

lemma exec_node_pause_free:
  assumes pf: "pause_free (r_graph r)"
    and lim: "\<not> g_recursion_limit (r_graph r) \<le> r_steps r" and nend: "r_node r \<noteq> END"
  shows "case exec_node c r of
           Stop r' x \<Rightarrow> r_calls r' = r_calls r @ fst (spec_of r) \<and> abs_exit (r_state r') x = Some (snd (spec_of r))
         | Continue r' \<Rightarrow> r_calls r' = r_calls r @ [r_node r] \<and>
             spec_of r = (r_node r # fst (spec_of r'), snd (spec_of r')) \<and>
             graph_shape (r_graph r') = graph_shape (r_graph r)"
proof (cases "g_nodes (r_graph r) (r_node r)")
  case None
  with lim nend show ?thesis by (simp add: exec_node_def spec_of_unfold)
next
  case (Some nd)
  obtain s' err where fn: "sn_function nd (r_state r) = (s', err)" by fastforce
  show ?thesis
  proof (cases err)
    case (Some e)
    with pause_free_not_interrupt [OF pf \<open>g_nodes _ _ = Some nd\<close>] fn
    have "\<not> is_interrupt_error e" by simp
    with Some \<open>g_nodes _ _ = Some nd\<close> fn lim nend show ?thesis
      by (simp add: exec_node_def spec_of_unfold Let_def)
  next
    case None
    show ?thesis
    proof (cases "route (g_edges (r_graph r)) (r_node r) s'")
      case (Inl e)
      with None \<open>g_nodes _ _ = Some nd\<close> fn lim nend show ?thesis
        by (simp add: exec_node_def spec_of_unfold Let_def)
    next
      case (Inr n')
      have "\<exists>r'. exec_node c r = Continue r' \<and> r_node r' = n' \<and> r_steps r' = r_steps r + 1 \<and>
              r_state r' = s' \<and> r_calls r' = r_calls r @ [r_node r] \<and>
              graph_shape (r_graph r') = graph_shape (r_graph r)"
        using Inr None \<open>g_nodes _ _ = Some nd\<close> fn
        by (simp add: exec_node_def Let_def graph_shape_def)
      then obtain r' where ex: "exec_node c r = Continue r'" and r': "r_node r' = n'"
        "r_steps r' = r_steps r + 1" "r_state r' = s'" "r_calls r' = r_calls r @ [r_node r]"
        and sh: "graph_shape (r_graph r') = graph_shape (r_graph r)" by blast
      from sh r' have "spec_of r' = spec_run (g_nodes (r_graph r)) (g_edges (r_graph r))
          (g_recursion_limit (r_graph r)) (r_steps r + 1) n' s'"
        by (simp add: spec_of_def graph_shape_def)
      moreover have "spec_of r = (case spec_run (g_nodes (r_graph r)) (g_edges (r_graph r))
          (g_recursion_limit (r_graph r)) (r_steps r + 1) n' s' of (vs, res) \<Rightarrow> (r_node r # vs, res))"
        using Inr None \<open>g_nodes _ _ = Some nd\<close> fn lim nend by (simp add: spec_of_unfold)
      ultimately show ?thesis using ex r' sh by (simp split: prod.split)
    qed
  qed
qed


lemma pause_free_shape:
  "graph_shape g' = graph_shape g \<Longrightarrow> pause_free g' = pause_free g"
  by (simp add: pause_free_def graph_shape_def)

lemma invoke_step_pause_free:
  assumes pf: "pause_free (r_graph r)"
  shows "case invoke_step c r of
           Stop r' x \<Rightarrow> r_calls r' = r_calls r @ fst (spec_of r) \<and> abs_exit (r_state r') x = Some (snd (spec_of r))
         | Continue r' \<Rightarrow> r_calls r' = r_calls r @ [r_node r] \<and>
             spec_of r = (r_node r # fst (spec_of r'), snd (spec_of r')) \<and>
             graph_shape (r_graph r') = graph_shape (r_graph r)"
proof (cases "g_recursion_limit (r_graph r) \<le> r_steps r \<or> r_node r = END")
  case True
  then show ?thesis
    by (cases "g_recursion_limit (r_graph r) \<le> r_steps r") (simp_all add: invoke_step_stops spec_of_unfold)
next
  case False
  then have "invoke_step c r = exec_node c r"
    by (simp add: invoke_step_running pause_free_no_breakpoint [OF pf])
  with False exec_node_pause_free [OF pf] show ?thesis by simp
qed

lemma invoke_loop_refines:
  "pause_free (r_graph r) \<Longrightarrow> invoke_loop c r = (r', x) \<Longrightarrow>
   r_calls r' = r_calls r @ fst (spec_of r) \<and> abs_exit (r_state r') x = Some (snd (spec_of r))"
proof (induction c r rule: invoke_loop.induct)
  case (1 c r)
  note step = invoke_step_pause_free [OF "1.prems"(1), of c]
  show ?case
  proof (cases "invoke_step c r")
    case (Stop r1 x1)
    from invoke_loop_Stop [OF Stop] "1.prems"(2) have "r' = r1" "x = x1" by simp_all
    with Stop step show ?thesis by simp
  next
    case (Continue r1)
    with step have r1: "r_calls r1 = r_calls r @ [r_node r]"
      "spec_of r = (r_node r # fst (spec_of r1), snd (spec_of r1))"
      and sh: "graph_shape (r_graph r1) = graph_shape (r_graph r)" by simp_all
    from pause_free_shape [OF sh] "1.prems"(1) have "pause_free (r_graph r1)" by simp
    moreover have "invoke_loop c r1 = (r', x)"
      using invoke_loop_Continue [OF Continue] "1.prems"(2) by simp
    ultimately have "r_calls r' = r_calls r1 @ fst (spec_of r1) \<and>
                     abs_exit (r_state r') x = Some (snd (spec_of r1))"
      using "1.IH" [OF Continue] by blast
    with r1 show ?thesis by simp
  qed
qed

lemma initial_run_fields [simp]:
  "r_node (initial_run g cs s) = g_entry_point g" "r_steps (initial_run g cs s) = 0"
  "r_state (initial_run g cs s) = s" "r_ctl (initial_run g cs s) = cs"
  "r_calls (initial_run g cs s) = []"
  "graph_shape (r_graph (initial_run g cs s)) = graph_shape g"
  by (simp_all add: initial_run_def graph_shape_def)

lemma spec_of_initial_run:
  "spec_of (initial_run g cs s) =
     spec_run (g_nodes g) (g_edges g) (g_recursion_limit g) 0 (g_entry_point g) s"
  by (simp add: spec_of_def initial_run_def)

text \<open>C1: Refinement: for a graph nothing pauses, a run visits exactly the nodes of the abstract path interpreter, starting at the entry point and following the first (mapped) candidate of the first matching edge, and returns its final state or error.\<close>

theorem invoke_refines_spec:
  assumes "pause_free (rs_graph rs)"
  shows "r_calls (fst (invoke c rs cs s)) =
           fst (spec_run (g_nodes (rs_graph rs)) (g_edges (rs_graph rs)) (g_recursion_limit (rs_graph rs))
                  0 (g_entry_point (rs_graph rs)) s) \<and>
         abs_outcome (snd (invoke c rs cs s)) =
           Some (snd (spec_run (g_nodes (rs_graph rs)) (g_edges (rs_graph rs))
                  (g_recursion_limit (rs_graph rs)) 0 (g_entry_point (rs_graph rs)) s))"
proof -
  let ?r0 = "initial_run (rs_graph rs) cs s"
  obtain r x where loop: "invoke_loop c ?r0 = (r, x)" by fastforce
  have "pause_free (r_graph ?r0)"
    using assms pause_free_shape [OF initial_run_fields(6) [of "rs_graph rs" cs s]] by simp
  from invoke_loop_refines [OF this loop]
  have "r_calls r = fst (spec_of ?r0)" "abs_exit (r_state r) x = Some (snd (spec_of ?r0))" by simp_all
  then show ?thesis using loop
    by (cases x) (simp_all add: invoke_def spec_of_initial_run map_streamer_def)
qed


subsection \<open>Properties of a run\<close>

lemma initial_run_emits:
  "emits (g_streamer g) (g_streamer (r_graph (initial_run g cs s)))"
  by (simp add: initial_run_def) (intro emits.intros)

lemma invoke_cases:
  assumes "invoke_loop c (initial_run (rs_graph rs) cs s) = (r, x)"
  shows "invoke c rs cs s =
           (case x of
             Break \<Rightarrow> (map_streamer (emit_event (run_event EventChainEnd) \<circ> emit_value (r_state r)) r,
                       Done (r_state r))
           | Fail e \<Rightarrow> (r, Failed e)
           | Block \<Rightarrow> (r, Blocked))"
  using assms by (cases x) (simp_all add: invoke_def)

lemma invoke_shape_emits:
  "graph_shape (r_graph (fst (invoke c rs cs s))) = graph_shape (rs_graph rs) \<and>
   emits (g_streamer (rs_graph rs)) (g_streamer (r_graph (fst (invoke c rs cs s))))"
proof -
  let ?g = "rs_graph rs"
  let ?r0 = "initial_run ?g cs s"
  obtain r x where loop: "invoke_loop c ?r0 = (r, x)" by fastforce
  from invoke_loop_frame [OF loop] have "run_frame ?r0 r" by simp
  then have sh: "graph_shape (r_graph r) = graph_shape ?g"
    and em: "emits (g_streamer ?g) (g_streamer (r_graph r))"
    using initial_run_emits [of ?g cs s] by (auto simp: run_frame_def intro: emits_trans)
  show ?thesis
  proof (cases x)
    case Break
    have "emits (g_streamer (r_graph r))
            (emit_event (run_event EventChainEnd) (emit_value (r_state r) (g_streamer (r_graph r))))"
      by (simp, intro emits.intros)
    with em sh Break loop show ?thesis
      by (auto simp: invoke_cases graph_shape_def intro: emits_trans)
  qed (use em sh loop in \<open>simp_all add: invoke_cases\<close>)
qed

text \<open>In the abstract semantics a run that reaches \<open>END\<close> has executed fewer nodes than the
  budget left when it started.\<close>

lemma spec_run_success_bound:
  "snd (spec_run ns es lim k n s) = Inr s' \<Longrightarrow> k + int (length (fst (spec_run ns es lim k n s))) < lim"
proof (induction ns es lim k n s rule: spec_run.induct)
  case (1 ns es lim k n s)
  show ?case
  proof (cases "lim \<le> k \<or> n = END")
    case True
    with "1.prems" show ?thesis by (subst spec_run.simps) (auto simp: spec_run.simps [of ns es lim k n s])
  next
    case False
    show ?thesis
    proof (cases "ns n")
      case None
      with False "1.prems" show ?thesis by (simp add: spec_run.simps [of ns es lim k n s])
    next
      case (Some nd)
      obtain s1 err where fn: "sn_function nd s = (s1, err)" by fastforce
      show ?thesis
      proof (cases "err = None \<and> (\<exists>n'. route es n s1 = Inr n')")
        case True
        then obtain n' where err: "err = None" and rt: "route es n s1 = Inr n'" by blast
        obtain vs res where rec: "spec_run ns es lim (k + 1) n' s1 = (vs, res)" by fastforce
        from False Some fn err rt rec have eq: "spec_run ns es lim k n s = (n # vs, res)"
          by (simp add: spec_run.simps [of ns es lim k n s])
        with "1.prems" have "res = Inr s'" by simp
        with "1.IH" [OF _ _ Some fn [symmetric] err rt] False rec
        have "k + 1 + int (length vs) < lim" by auto
        with eq show ?thesis by simp
      next
        case False': False
        with False Some fn "1.prems" show ?thesis
          by (auto simp: spec_run.simps [of ns es lim k n s] split: option.splits sum.splits)
      qed
    qed
  qed
qed

text \<open>A path the interpreter completes with a larger budget, after exactly \<open>lim\<close> nodes in
  all, fails with budget \<open>lim\<close>: the same nodes run, then the limit test comes first.\<close>

lemma spec_run_exact_limit:
  "spec_run ns es L k n s = (vs, Inr s') \<Longrightarrow> k + int (length vs) = lim \<Longrightarrow>
   spec_run ns es lim k n s = (vs, Inl (ErrRecursionLimit lim))"
proof (induction ns es L k n s arbitrary: vs rule: spec_run.induct)
  case (1 ns es L k n s)
  show ?case
  proof (cases "L \<le> k \<or> n = END")
    case True
    with "1.prems" show ?thesis
      by (auto simp: spec_run.simps [of ns es L k n s] spec_run.simps [of ns es lim k n s] split: if_splits)
  next
    case False
    show ?thesis
    proof (cases "ns n")
      case None
      with False "1.prems"(1) show ?thesis by (simp add: spec_run.simps [of ns es L k n s])
    next
      case (Some nd)
      obtain s1 err where fn: "sn_function nd s = (s1, err)" by fastforce
      show ?thesis
      proof (cases "err = None \<and> (\<exists>n'. route es n s1 = Inr n')")
        case True
        then obtain n' where err: "err = None" and rt: "route es n s1 = Inr n'" by blast
        obtain ws res where rec: "spec_run ns es L (k + 1) n' s1 = (ws, res)" by fastforce
        from False Some fn err rt rec "1.prems"(1) have vs: "vs = n # ws" and res: "res = Inr s'"
          by (simp_all add: spec_run.simps [of ns es L k n s])
        with "1.prems"(2) have "k + 1 + int (length ws) = lim" by simp
        with "1.IH" [OF _ _ Some fn [symmetric] err rt] False rec res
        have "spec_run ns es lim (k + 1) n' s1 = (ws, Inl (ErrRecursionLimit lim))" by auto
        moreover have "\<not> lim \<le> k" using \<open>k + 1 + int (length ws) = lim\<close> by simp
        ultimately show ?thesis using False Some fn err rt vs
          by (simp add: spec_run.simps [of ns es lim k n s])
      next
        case False': False
        with False Some fn "1.prems"(1) show ?thesis
          by (auto simp: spec_run.simps [of ns es L k n s] split: option.splits sum.splits)
      qed
    qed
  qed
qed

text \<open>A run that fails waiting for a resume leaves the manager interrupted; a run on an
  interrupted manager leaves it and the controller's actions alone and never waits.\<close>

lemma invoke_loop_cancel:
  assumes "invoke_loop c r = (r', x)"
  shows "x = Fail (ErrWaitForResume e) \<longrightarrow> interrupted (g_interrupt_manager (r_graph r'))"
  by (rule invoke_loop_inv [OF assms, where P = "\<lambda>_. True"]) (auto dest: invoke_step_cancel)

lemma invoke_loop_interrupted:
  assumes "invoke_loop c r = (r', x)" and "interrupted (g_interrupt_manager (r_graph r))"
  shows "g_interrupt_manager (r_graph r') = g_interrupt_manager (r_graph r) \<and> r_ctl r' = r_ctl r \<and>
         x \<noteq> Block \<and> (\<forall>e. x \<noteq> Fail (ErrWaitForResume e))"
proof (rule invoke_loop_inv [OF assms(1), where
         P = "\<lambda>r1. g_interrupt_manager (r_graph r1) = g_interrupt_manager (r_graph r) \<and> r_ctl r1 = r_ctl r"])
  fix r1 r2
  assume p: "g_interrupt_manager (r_graph r1) = g_interrupt_manager (r_graph r) \<and> r_ctl r1 = r_ctl r"
    and st: "invoke_step c r1 = Continue r2"
  from p assms(2) invoke_step_interrupted [of r1 c] st
  show "g_interrupt_manager (r_graph r2) = g_interrupt_manager (r_graph r) \<and> r_ctl r2 = r_ctl r" by simp
next
  fix r1 r2 y
  assume p: "g_interrupt_manager (r_graph r1) = g_interrupt_manager (r_graph r) \<and> r_ctl r1 = r_ctl r"
    and st: "invoke_step c r1 = Stop r2 y"
  from p assms(2) invoke_step_interrupted [of r1 c] st
  show "g_interrupt_manager (r_graph r2) = g_interrupt_manager (r_graph r) \<and> r_ctl r2 = r_ctl r \<and>
        y \<noteq> Block \<and> (\<forall>e. y \<noteq> Fail (ErrWaitForResume e))" by simp
qed simp

text \<open>C8: A run changes neither the nodes, edges, entry point, limit, breakpoints nor stream modes of the graph, keeps the streamer invariant, and only appends to the event and data channels.\<close>

theorem invoke_frame:
  "graph_shape (r_graph (fst (invoke c rs cs s))) = graph_shape (rs_graph rs) \<and>
   (streamer_wf (g_streamer (rs_graph rs)) \<longrightarrow> streamer_wf (g_streamer (r_graph (fst (invoke c rs cs s))))) \<and>
   prefix (event_ch (g_streamer (rs_graph rs))) (event_ch (g_streamer (r_graph (fst (invoke c rs cs s))))) \<and>
   prefix (stream_ch (g_streamer (rs_graph rs))) (stream_ch (g_streamer (r_graph (fst (invoke c rs cs s)))))"
  using invoke_shape_emits [of c rs cs s] emits_preserves by blast

text \<open>C2: Every run that returns a final state has made fewer steps than the recursion limit (and at least none): reaching \<open>END\<close> needs budget left.\<close>

theorem invoke_done_below_limit:
  assumes "invoke c rs cs s = (r, Done s')"
  shows "0 \<le> r_steps r \<and> r_steps r < g_recursion_limit (rs_graph rs)"
proof -
  let ?r0 = "initial_run (rs_graph rs) cs s"
  obtain r1 x where loop: "invoke_loop c ?r0 = (r1, x)" by fastforce
  with assms have x: "x = Break" and r: "r = map_streamer (emit_event (run_event EventChainEnd) \<circ> emit_value (r_state r1)) r1"
    by (cases x; simp add: invoke_cases)+
  from invoke_loop_frame [OF loop] x have "run_frame ?r0 r1" "r_steps r1 < g_recursion_limit (r_graph ?r0)"
    by simp_all
  with r show ?thesis by (simp add: run_frame_def initial_run_def)
qed

text \<open>C3: A successful run of a graph nothing pauses has called fewer step functions than the
  recursion limit: a path that needs exactly \<open>limit\<close> nodes to reach \<open>END\<close> cannot succeed.\<close>

theorem pause_free_done_below_limit:
  assumes "pause_free (rs_graph rs)" and "snd (invoke c rs cs s) = Done s'"
  shows "int (length (r_calls (fst (invoke c rs cs s)))) < g_recursion_limit (rs_graph rs)"
proof -
  let ?g = "rs_graph rs"
  let ?r0 = "initial_run ?g cs s"
  obtain r x where loop: "invoke_loop c ?r0 = (r, x)" by fastforce
  have "pause_free (r_graph ?r0)"
    using assms(1) pause_free_shape [OF initial_run_fields(6) [of ?g cs s]] by simp
  from invoke_loop_refines [OF this loop]
  have calls: "r_calls r = fst (spec_of ?r0)" and ex: "abs_exit (r_state r) x = Some (snd (spec_of ?r0))"
    by simp_all
  from assms(2) loop have x: "x = Break" by (cases x) (simp_all add: invoke_cases)
  with ex have "snd (spec_of ?r0) = Inr (r_state r)" by simp
  from spec_run_success_bound [OF this [unfolded spec_of_initial_run]] calls
  have "int (length (r_calls r)) < g_recursion_limit ?g" by (simp add: spec_of_initial_run)
  with loop x show ?thesis by (simp add: invoke_cases map_streamer_def)
qed

text \<open>C4: The recursion limit is tested before \<open>END\<close>: for a graph nothing pauses, a path the path interpreter completes (with any larger budget) after exactly \<open>limit\<close> nodes makes \<open>Invoke\<close> run those same nodes and then fail with the recursion-limit error instead of returning.\<close>

theorem exact_limit_run_fails:
  assumes "pause_free (rs_graph rs)"
    and "spec_run (g_nodes (rs_graph rs)) (g_edges (rs_graph rs)) L 0 (g_entry_point (rs_graph rs)) s = (vs, Inr s')"
    and "int (length vs) = g_recursion_limit (rs_graph rs)"
  shows "snd (invoke c rs cs s) = Failed (ErrRecursionLimit (g_recursion_limit (rs_graph rs))) \<and>
         r_calls (fst (invoke c rs cs s)) = vs"
proof -
  let ?g = "rs_graph rs"
  let ?r0 = "initial_run ?g cs s"
  obtain r x where loop: "invoke_loop c ?r0 = (r, x)" by fastforce
  have "pause_free (r_graph ?r0)"
    using assms(1) pause_free_shape [OF initial_run_fields(6) [of ?g cs s]] by simp
  from invoke_loop_refines [OF this loop]
  have "r_calls r = fst (spec_of ?r0)" and "abs_exit (r_state r) x = Some (snd (spec_of ?r0))" by simp_all
  moreover have "spec_of ?r0 = (vs, Inl (ErrRecursionLimit (g_recursion_limit ?g)))"
    using spec_run_exact_limit [OF assms(2)] assms(3) by (simp add: spec_of_initial_run)
  ultimately have "r_calls r = vs" and "x = Fail (ErrRecursionLimit (g_recursion_limit ?g))"
    by (cases x; simp)+
  with loop show ?thesis by (simp add: invoke_cases)
qed

text \<open>C7: A pause ended by cancelling the context leaves the graph's interrupt manager flagged for good: the run that fails waiting for the resume leaves the manager interrupted, and every later run of the same graph leaves the manager exactly as it found it (no info is sent), consumes none of its controller's actions and never blocks or waits; if its entry node has a breakpoint it fails at once with \<open>AlreadyInterrupted\<close>.\<close>

theorem cancelled_pause_blocks_later_breakpoints:
  assumes "snd (invoke c rs cs s) = Failed (ErrWaitForResume e)"
    and "r_graph (fst (invoke c rs cs s)) = g"
  shows "interrupted (g_interrupt_manager g) \<and>
         g_interrupt_manager (r_graph (fst (invoke c' \<lparr>rs_graph = g\<rparr> cs' s'))) = g_interrupt_manager g \<and>
         r_ctl (fst (invoke c' \<lparr>rs_graph = g\<rparr> cs' s')) = cs' \<and>
         snd (invoke c' \<lparr>rs_graph = g\<rparr> cs' s') \<noteq> Blocked \<and>
         (\<forall>e'. snd (invoke c' \<lparr>rs_graph = g\<rparr> cs' s') \<noteq> Failed (ErrWaitForResume e')) \<and>
         (has_breakpoint (g_entry_point g) (g_interrupt_manager g) \<and> 0 < g_recursion_limit g \<and>
          g_entry_point g \<noteq> END \<longrightarrow>
          snd (invoke c' \<lparr>rs_graph = g\<rparr> cs' s') = Failed (ErrBreakpoint AlreadyInterrupted))"
proof -
  obtain r x where loop: "invoke_loop c (initial_run (rs_graph rs) cs s) = (r, x)" by fastforce
  with assms have x: "x = Fail (ErrWaitForResume e)" and g: "g = r_graph r"
    by (cases x; simp add: invoke_cases)+
  from invoke_loop_cancel [OF loop] x g have int: "interrupted (g_interrupt_manager g)" by simp
  let ?r0 = "initial_run g cs' s'"
  obtain r' x' where loop': "invoke_loop c' ?r0 = (r', x')" by fastforce
  have im0: "g_interrupt_manager (r_graph ?r0) = g_interrupt_manager g" by (simp add: initial_run_def)
  from invoke_loop_interrupted [OF loop'] int im0
  have inv: "g_interrupt_manager (r_graph r') = g_interrupt_manager g" "r_ctl r' = cs'"
    "x' \<noteq> Block" "\<forall>e. x' \<noteq> Fail (ErrWaitForResume e)" by simp_all
  have bp: "snd (invoke c' \<lparr>rs_graph = g\<rparr> cs' s') = Failed (ErrBreakpoint AlreadyInterrupted)"
    if "has_breakpoint (g_entry_point g) (g_interrupt_manager g)" "0 < g_recursion_limit g" "g_entry_point g \<noteq> END"
  proof -
    have "invoke_step c' ?r0 = Stop ?r0 (Fail (ErrBreakpoint AlreadyInterrupted))"
      using that int im0 pause_interrupted [of ?r0 c' ErrBreakpoint None s']
      by (simp add: invoke_step_def Let_def initial_run_def)
    then show ?thesis by (simp add: invoke_def invoke_loop_Stop)
  qed
  have eq: "invoke c' \<lparr>rs_graph = g\<rparr> cs' s' =
             (case x' of
               Break \<Rightarrow> (map_streamer (emit_event (run_event EventChainEnd) \<circ> emit_value (r_state r')) r',
                         Done (r_state r'))
             | Fail e \<Rightarrow> (r', Failed e)
             | Block \<Rightarrow> (r', Blocked))"
    using invoke_cases [of c' "\<lparr>rs_graph = g\<rparr>" cs' s' r' x'] loop' by simp
  have "g_interrupt_manager (r_graph (fst (invoke c' \<lparr>rs_graph = g\<rparr> cs' s'))) = g_interrupt_manager g \<and>
        r_ctl (fst (invoke c' \<lparr>rs_graph = g\<rparr> cs' s')) = cs' \<and>
        snd (invoke c' \<lparr>rs_graph = g\<rparr> cs' s') \<noteq> Blocked \<and>
        (\<forall>e'. snd (invoke c' \<lparr>rs_graph = g\<rparr> cs' s') \<noteq> Failed (ErrWaitForResume e'))"
    using inv by (cases x') (simp_all add: eq)
  with int show ?thesis by (simp add: bp)
qed

text \<open>C15: With the default stream configuration (values mode only) and fresh channels, a run sends no event, and the data channel carries only values-mode snapshots: first the input state, and, when the run returns a state, that state last.\<close>

theorem default_config_streams_values:
  assumes "modes (g_streamer (rs_graph rs)) = sc_modes default_stream_config"
    and "event_ch (g_streamer (rs_graph rs)) = []" and "stream_ch (g_streamer (rs_graph rs)) = []"
  shows "event_ch (g_streamer (r_graph (fst (invoke c rs cs s)))) = [] \<and>
         (\<exists>ds. stream_ch (g_streamer (r_graph (fst (invoke c rs cs s)))) =
                 \<lparr>se_mode = StreamValues, se_data = s\<rparr> # ds \<and>
               list_all (\<lambda>d. se_mode d = StreamValues) ds \<and>
               (snd (invoke c rs cs s) = Done s' \<longrightarrow> ds \<noteq> [] \<and> last ds = \<lparr>se_mode = StreamValues, se_data = s'\<rparr>))"
proof -
  let ?g = "rs_graph rs"
  let ?r0 = "initial_run ?g cs s"
  let ?fin = "g_streamer (r_graph (fst (invoke c rs cs s)))"
  obtain r x where loop: "invoke_loop c ?r0 = (r, x)" by fastforce
  have ms: "modes (g_streamer ?g) = [StreamValues]" using assms(1) by (simp add: default_stream_config_def)
  have wf0: "streamer_wf (g_streamer ?g)" using assms(2,3) by (simp add: streamer_wf_def)
  have ch0: "stream_ch (g_streamer (r_graph ?r0)) = [\<lparr>se_mode = StreamValues, se_data = s\<rparr>]"
    using ms assms(3) by (simp add: initial_run_def emit_event_def)
  from invoke_loop_frame [OF loop] have em: "emits (g_streamer (r_graph ?r0)) (g_streamer (r_graph r))"
    by (simp add: run_frame_def)
  have mr: "modes (g_streamer (r_graph r)) = [StreamValues]"
    using emits_preserves [OF em] ms by (simp add: initial_run_def emit_event_def)
  have fin: "emits (g_streamer (r_graph r)) ?fin"
  proof (cases x)
    case Break
    with loop show ?thesis by (simp add: invoke_cases) (intro emits.intros)
  qed (use loop in \<open>simp_all add: invoke_cases emits.emits_refl\<close>)
  have fin_ch: "stream_ch ?fin = stream_ch (g_streamer (r_graph r)) @ [\<lparr>se_mode = StreamValues, se_data = r_state r\<rparr>]"
    if "x = Break"
    using that loop mr by (simp add: invoke_cases emit_event_def)
  have "prefix [\<lparr>se_mode = StreamValues, se_data = s\<rparr>] (stream_ch ?fin)"
    using emits_preserves [OF emits_trans [OF fin em]] ch0 by simp
  then obtain ds where ds: "stream_ch ?fin = \<lparr>se_mode = StreamValues, se_data = s\<rparr> # ds"
    by (auto simp: prefix_def)
  have "emits (g_streamer ?g) ?fin" by (rule conjunct2 [OF invoke_shape_emits])
  from emits_preserves [OF this] wf0 ms have wf: "streamer_wf ?fin" "modes ?fin = [StreamValues]" by simp_all
  have dn: "ds \<noteq> [] \<and> last ds = \<lparr>se_mode = StreamValues, se_data = s'\<rparr>" if "snd (invoke c rs cs s) = Done s'"
  proof -
    from that loop have "x = Break" and "s' = r_state r" by (cases x; simp add: invoke_cases)+
    moreover obtain zs where "stream_ch (g_streamer (r_graph r)) = \<lparr>se_mode = StreamValues, se_data = s\<rparr> # zs"
      using emits_preserves [OF em] ch0 by (auto simp: prefix_def)
    ultimately show ?thesis using fin_ch ds by simp
  qed
  from wf ds dn show ?thesis by (auto simp: streamer_wf_def list_all_iff)
qed

text \<open>C17: Every run terminates after at most as many step-function calls as the controller actions it was given plus the recursion limit: retries and pauses consume controller actions, every other continuing call consumes one step below the limit, and a call at the stop happens below the limit.\<close>

theorem invoke_calls_bounded:
  "length (r_calls (fst (invoke c rs cs s))) \<le> length cs + nat (g_recursion_limit (rs_graph rs))"
proof -
  let ?r0 = "initial_run (rs_graph rs) cs s"
  let ?B = "length cs + nat (g_recursion_limit (rs_graph rs))"
  obtain r x where loop: "invoke_loop c ?r0 = (r, x)" by fastforce
  have b0: "call_budget ?r0 \<le> ?B" by (simp add: call_budget_def initial_run_def)
  have "length (r_calls r) \<le> ?B"
    using loop b0
  proof (rule invoke_loop_inv [where P = "\<lambda>r. call_budget r \<le> ?B"])
    show "call_budget r1 \<le> ?B" if "call_budget r \<le> ?B" "invoke_step c r = Continue r1" for r r1
      using invoke_step_budget(1) [OF that(2)] that(1) by simp
    show "length (r_calls r1) \<le> ?B" if "call_budget r \<le> ?B" "invoke_step c r = Stop r1 y" for r r1 y
      using invoke_step_stop_calls [OF that(2)] that(1) by simp
  qed
  with loop show ?thesis by (cases x) (simp_all add: invoke_cases map_streamer_def)
qed

text \<open>A run's sends on the streamer, taken in the order \<open>Invoke\<close> makes them across both channels, are exactly what each channel receives: the events are the event sends of that sequence and the stream values its data sends, each in order. This sequence is what \<open>Stream\<close> forwards (theory \<open>Fanout\<close>).\<close>

lemma invoke_sends:
  "\<exists>xs. sent (g_streamer (r_graph (fst (invoke c rs cs s)))) = sent (g_streamer (rs_graph rs)) @ xs \<and>
        event_ch (g_streamer (r_graph (fst (invoke c rs cs s)))) = event_ch (g_streamer (rs_graph rs)) @ ev_of xs \<and>
        stream_ch (g_streamer (r_graph (fst (invoke c rs cs s)))) = stream_ch (g_streamer (rs_graph rs)) @ st_of xs"
  using invoke_shape_emits [of c rs cs s] by (blast intro: emits_sent)

end
