(* ===== verification/Tool.thy ===== *)
theory Tool
  imports Prelude Complex_Main "HOL-Library.Finite_Map"
begin

text \<open>
  The tool layer of \<open>src/pkg/core/tool.go\<close> (\<open>BaseTool\<close>, \<open>validateType\<close>,
  \<open>Validate\<close>) and the calculator tool of \<open>src/unnamed/part_002\<close> (\<open>NewCalculator\<close>,
  \<open>Execute\<close>, \<open>getNumber\<close>). A Go \<open>interface{}\<close> value is a \<open>dyn\<close>, one
  constructor per dynamic type the code asserts on; a nested \<open>map[string]interface{}\<close>
  is a finite map, so that HOL equality on \<open>dyn\<close> is \<open>reflect.DeepEqual\<close> on
  these types. A \<open>float64\<close> is modelled by a real number (rounding is not modelled),
  and \<open>strconv.ParseFloat\<close>, a library the code only calls, is a parameter.
  Go's map iteration order is unspecified: the argument map of \<open>Validate\<close> is an
  association list in its iteration order, and the iteration of the \<open>required\<close> set
  follows an order given as a parameter. A runtime panic is an outcome of its own.
\<close>

section \<open>Data model\<close>

datatype dyn =
    DNil
  | DString string
  | DFloat64 real
  | DFloat32 real
  | DInt int
  | DBool bool
  | DObject "(string, dyn) fmap"
  | DStrings "string list"
  | DSlice "dyn list"

text \<open>A Go map from strings to dynamic values, in its iteration order (keys distinct).\<close>

type_synonym go_map = "(string \<times> dyn) list"

text \<open>Indexing a Go map yields the zero value \<open>nil\<close> for a missing key.\<close>

definition go_lookup :: "go_map \<Rightarrow> string \<Rightarrow> dyn" where
  "go_lookup m k = (case map_of m k of Some v \<Rightarrow> v | None \<Rightarrow> DNil)"

definition fm_index :: "(string, dyn) fmap \<Rightarrow> string \<Rightarrow> dyn" where
  "fm_index m k = (case fmlookup m k of Some v \<Rightarrow> v | None \<Rightarrow> DNil)"

text \<open>The comma-ok type assertions \<open>v, ok := x.(T)\<close> the code makes.\<close>

fun as_map :: "dyn \<Rightarrow> (string, dyn) fmap option" where
  "as_map (DObject m) = Some m"
| "as_map _ = None"

fun as_string :: "dyn \<Rightarrow> string option" where
  "as_string (DString s) = Some s"
| "as_string _ = None"

fun as_strings :: "dyn \<Rightarrow> string list option" where
  "as_strings (DStrings xs) = Some xs"
| "as_strings _ = None"

fun as_slice :: "dyn \<Rightarrow> dyn list option" where
  "as_slice (DSlice xs) = Some xs"
| "as_slice _ = None"

text \<open>The \<open>reflect.Kind\<close> of a dynamic value; \<open>reflect.TypeOf(nil)\<close> is a nil type.\<close>

datatype kind = KString | KFloat64 | KFloat32 | KInt | KBool | KMap | KSlice

fun dyn_kind :: "dyn \<Rightarrow> kind option" where
  "dyn_kind DNil = None"
| "dyn_kind (DString _) = Some KString"
| "dyn_kind (DFloat64 _) = Some KFloat64"
| "dyn_kind (DFloat32 _) = Some KFloat32"
| "dyn_kind (DInt _) = Some KInt"
| "dyn_kind (DBool _) = Some KBool"
| "dyn_kind (DObject _) = Some KMap"
| "dyn_kind (DStrings _) = Some KSlice"
| "dyn_kind (DSlice _) = Some KSlice"

text \<open>The name \<open>%T\<close> prints for the values \<open>getNumber\<close> rejects.\<close>

fun type_name :: "dyn \<Rightarrow> string" where
  "type_name DNil = ''<nil>''"
| "type_name (DString _) = ''string''"
| "type_name (DFloat64 _) = ''float64''"
| "type_name (DFloat32 _) = ''float32''"
| "type_name (DInt _) = ''int''"
| "type_name (DBool _) = ''bool''"
| "type_name (DObject _) = ''map[string]interface {}''"
| "type_name (DStrings _) = ''[]string''"
| "type_name (DSlice _) = ''[]interface {}''"

datatype number_error = ErrParseFloat string | ErrUnsupportedNumberType string

datatype tool_error =
    ErrInvalidSchema
  | ErrMissingField string
  | ErrUnknownField string
  | ErrInvalidType string string
  | ErrInvalidValue string "dyn list"
  | ErrOperationNotString
  | ErrInvalidFirstNumber number_error
  | ErrInvalidSecondNumber number_error
  | ErrDivisionByZero
  | ErrUnknownOperation string

text \<open>A call returns a value or panics.\<close>

datatype 'a go_call = Returns 'a | Panics string

record base_tool =
  t_name :: string
  t_description :: string
  t_schema :: "(string, dyn) fmap"

definition new_base_tool :: "string \<Rightarrow> string \<Rightarrow> (string, dyn) fmap \<Rightarrow> base_tool" where
  "new_base_tool n d s = \<lparr>t_name = n, t_description = d, t_schema = s\<rparr>"

section \<open>Validation\<close>

text \<open>
  \<open>validateType\<close>: a type assertion per JSON type name; for \<open>"array"\<close> the code
  calls \<open>Kind()\<close> on \<open>reflect.TypeOf(value)\<close>, which panics when the value is \<open>nil\<close>.
\<close>

definition validate_type :: "dyn \<Rightarrow> string \<Rightarrow> bool go_call" where
  "validate_type v ty =
     (if ty = ''string'' then Returns (dyn_kind v = Some KString)
      else if ty = ''number'' then Returns (dyn_kind v = Some KFloat64)
      else if ty = ''integer'' then Returns (dyn_kind v = Some KInt)
      else if ty = ''boolean'' then Returns (dyn_kind v = Some KBool)
      else if ty = ''object'' then Returns (dyn_kind v = Some KMap)
      else if ty = ''array'' then
        (case dyn_kind v of None \<Rightarrow> Panics ''nil pointer dereference'' | Some k \<Rightarrow> Returns (k = KSlice))
      else Returns True)"

text \<open>
  The enumeration of the keys of a Go map built from \<open>xs\<close> in an iteration order
  \<open>ord\<close>: the keys in the order they occur in \<open>ord\<close>, then any \<open>ord\<close> does not name.
  Every enumeration of the keys is obtained for some \<open>ord\<close> (lemma \<open>map_range_perm\<close>).
\<close>

definition map_range :: "'a list \<Rightarrow> 'a list \<Rightarrow> 'a list" where
  "map_range ord xs =
     remdups (filter (\<lambda>x. x \<in> set xs) ord) @ remdups (filter (\<lambda>x. x \<notin> set ord) xs)"

text \<open>\<open>t.schema["required"].([]string)\<close>: an absent or differently typed entry is no requirement.\<close>

definition required_fields :: "base_tool \<Rightarrow> string list" where
  "required_fields t = (case as_strings (fm_index (t_schema t) ''required'') of Some req \<Rightarrow> req | None \<Rightarrow> [])"

fun check_required :: "string list \<Rightarrow> go_map \<Rightarrow> tool_error option" where
  "check_required [] args = None"
| "check_required (f # fs) args =
     (if map_of args f = None then Some (ErrMissingField f) else check_required fs args)"

text \<open>The loop over the arguments: unknown field, type, then enum.\<close>

fun check_fields :: "(string, dyn) fmap \<Rightarrow> go_map \<Rightarrow> tool_error option go_call" where
  "check_fields props [] = Returns None"
| "check_fields props ((n, v) # rest) =
     (case as_map (fm_index props n) of
        None \<Rightarrow> Returns (Some (ErrUnknownField n))
      | Some prop \<Rightarrow>
          (case as_string (fm_index prop ''type'') of
             None \<Rightarrow> check_fields props rest
           | Some ty \<Rightarrow>
               (case validate_type v ty of
                  Panics p \<Rightarrow> Panics p
                | Returns False \<Rightarrow> Returns (Some (ErrInvalidType n ty))
                | Returns True \<Rightarrow>
                    (case as_slice (fm_index prop ''enum'') of
                       Some en \<Rightarrow>
                         (if v \<in> set en then check_fields props rest
                          else Returns (Some (ErrInvalidValue n en)))
                     | None \<Rightarrow> check_fields props rest))))"

definition validate :: "string list \<Rightarrow> base_tool \<Rightarrow> go_map \<Rightarrow> tool_error option go_call" where
  "validate ord t args =
     (case as_map (fm_index (t_schema t) ''properties'') of
        None \<Rightarrow> Returns (Some ErrInvalidSchema)
      | Some props \<Rightarrow>
          (case check_required (map_range ord (required_fields t)) args of
             Some e \<Rightarrow> Returns (Some e)
           | None \<Rightarrow> check_fields props args))"

section \<open>The calculator tool\<close>

definition calculator_schema :: "(string, dyn) fmap" where
  "calculator_schema = fmap_of_list
     [(''type'', DString ''object''),
      (''properties'', DObject (fmap_of_list
         [(''operation'', DObject (fmap_of_list
             [(''type'', DString ''string''),
              (''enum'', DStrings [''add'', ''subtract'', ''multiply'', ''divide'', ''square'']),
              (''description'', DString ''The mathematical operation to perform'')])),
          (''a'', DObject (fmap_of_list
             [(''type'', DString ''number''), (''description'', DString ''The first number'')])),
          (''b'', DObject (fmap_of_list
             [(''type'', DString ''number''),
              (''description'', DString ''The second number (not used for square operation)'')]))])),
      (''required'', DStrings [''operation'', ''a''])]"

definition new_calculator :: base_tool where
  "new_calculator = new_base_tool ''calculator''
     ''A tool for performing basic math operations (add, subtract, multiply, divide, square)''
     calculator_schema"

text \<open>\<open>getNumber\<close>, with \<open>strconv.ParseFloat\<close> as the parameter \<open>parse\<close>.\<close>

fun get_number :: "(string \<Rightarrow> real option) \<Rightarrow> dyn \<Rightarrow> number_error + real" where
  "get_number parse (DFloat64 x) = Inr x"
| "get_number parse (DFloat32 x) = Inr x"
| "get_number parse (DInt i) = Inr (of_int i)"
| "get_number parse (DString s) = (case parse s of Some x \<Rightarrow> Inr x | None \<Rightarrow> Inl (ErrParseFloat s))"
| "get_number parse v = Inl (ErrUnsupportedNumberType (type_name v))"

definition calc_execute :: "(string \<Rightarrow> real option) \<Rightarrow> go_map \<Rightarrow> tool_error + real" where
  "calc_execute parse args =
     (case as_string (go_lookup args ''operation'') of
        Some op \<Rightarrow>
          (case get_number parse (go_lookup args ''a'') of
             Inl e \<Rightarrow> Inl (ErrInvalidFirstNumber e)
           | Inr a \<Rightarrow>
               (if op = ''square'' then Inr (a * a)
                else (case get_number parse (go_lookup args ''b'') of
                   Inl e \<Rightarrow> Inl (ErrInvalidSecondNumber e)
                 | Inr b \<Rightarrow>
                     (if op = ''add'' then Inr (a + b)
                      else if op = ''subtract'' then Inr (a - b)
                      else if op = ''multiply'' then Inr (a * b)
                      else if op = ''divide'' then (if b = 0 then Inl ErrDivisionByZero else Inr (a / b))
                      else Inl (ErrUnknownOperation op)))))
      | None \<Rightarrow> Inl ErrOperationNotString)"

section \<open>Specification of an accepted argument\<close>

text \<open>
  An argument \<open>(n, v)\<close> passes the loop of \<open>Validate\<close> when its property is declared
  as an object and, where the property names a type, the value has that type and lies in
  the enum the property lists as a \<open>[]interface{}\<close>.
\<close>

definition field_ok :: "(string, dyn) fmap \<Rightarrow> string \<times> dyn \<Rightarrow> bool" where
  "field_ok props nv =
     (case as_map (fm_index props (fst nv)) of
        None \<Rightarrow> False
      | Some q \<Rightarrow>
          (case as_string (fm_index q ''type'') of
             None \<Rightarrow> True
           | Some ty \<Rightarrow>
               validate_type (snd nv) ty = Returns True \<and>
               (case as_slice (fm_index q ''enum'') of Some en \<Rightarrow> snd nv \<in> set en | None \<Rightarrow> True)))"

text \<open>
  The typing of a decoded argument by the JSON type name its property declares, read as
  the Go dynamic type \<open>validateType\<close> expects: a string, a \<open>float64\<close> number, an
  \<open>int\<close>, a \<open>bool\<close>, a nested map, a slice; a type name outside these six types
  every value.
\<close>

inductive json_typed :: "dyn \<Rightarrow> string \<Rightarrow> bool" where
  typed_string: "json_typed (DString s) ''string''"
| typed_number: "json_typed (DFloat64 x) ''number''"
| typed_integer: "json_typed (DInt i) ''integer''"
| typed_boolean: "json_typed (DBool b) ''boolean''"
| typed_object: "json_typed (DObject m) ''object''"
| typed_strings: "json_typed (DStrings xs) ''array''"
| typed_slice: "json_typed (DSlice ys) ''array''"
| typed_other: "ty \<notin> {''string'', ''number'', ''integer'', ''boolean'', ''object'', ''array''} \<Longrightarrow> json_typed v ty"

code_pred json_typed .

inductive_simps json_typed_simps: "json_typed v ty"

section \<open>Lemmas\<close>

text \<open>The enumeration of a map's keys: every key once, and every order is reachable.\<close>

lemma set_map_range [simp]: "set (map_range ord xs) = set xs"
  by (auto simp: map_range_def)

lemma distinct_map_range: "distinct (map_range ord xs)"
  by (auto simp: map_range_def)

lemma map_range_perm:
  assumes "distinct p" and "set p = set xs"
  shows "map_range p xs = p"
  using assms by (simp add: map_range_def distinct_remdups_id filter_id_conv)

lemma check_required_None_iff:
  "check_required fs args = None \<longleftrightarrow> set fs \<subseteq> fst ` set args"
  by (induction fs) (auto simp: map_of_eq_None_iff)

lemma check_required_SomeD:
  "check_required fs args = Some e \<Longrightarrow> \<not> set fs \<subseteq> fst ` set args"
  by (induction fs) (auto simp: map_of_eq_None_iff split: if_splits)

lemma check_fields_None_iff:
  "check_fields props args = Returns None \<longleftrightarrow> list_all (field_ok props) args"
proof (induction props args rule: check_fields.induct)
  case (2 props n v rest)
  then show ?case
    by (simp add: field_ok_def split: option.split go_call.split bool.split)
qed simp

lemma validate_accepts_iff:
  "validate ord t args = Returns None \<longleftrightarrow>
     (\<exists>props. as_map (fm_index (t_schema t) ''properties'') = Some props \<and>
        set (required_fields t) \<subseteq> fst ` set args \<and> list_all (field_ok props) args)"
proof (cases "check_required (map_range ord (required_fields t)) args")
  case None
  then have "set (required_fields t) \<subseteq> fst ` set args"
    using check_required_None_iff by fastforce
  with None show ?thesis
    by (auto simp: validate_def check_fields_None_iff split: option.split)
next
  case (Some e)
  then have "\<not> set (required_fields t) \<subseteq> fst ` set args"
    using check_required_SomeD by fastforce
  with Some show ?thesis by (auto simp: validate_def split: option.split)
qed

text \<open>\<open>validateType\<close> decides the typing, except that it panics on \<open>nil\<close> for \<open>"array"\<close>.\<close>

lemma validate_type_typed:
  "validate_type v ty =
     (if ty = ''array'' \<and> v = DNil then Panics ''nil pointer dereference'' else Returns (json_typed v ty))"
  by (cases v) (auto simp: validate_type_def json_typed_simps)

lemma field_ok_typed:
  "field_ok props (n, v) \<longleftrightarrow>
     (\<exists>q. as_map (fm_index props n) = Some q \<and>
        (\<forall>ty. as_string (fm_index q ''type'') = Some ty \<longrightarrow>
           json_typed v ty \<and> (\<forall>en. as_slice (fm_index q ''enum'') = Some en \<longrightarrow> v \<in> set en)))"
  by (auto simp: field_ok_def validate_type_typed json_typed_simps split: option.split)

text \<open>Facts about the calculator's schema.\<close>

lemma dyn_kind_Some_iff [simp]:
  "dyn_kind v = Some KString \<longleftrightarrow> (\<exists>s. v = DString s)"
  "dyn_kind v = Some KFloat64 \<longleftrightarrow> (\<exists>x. v = DFloat64 x)"
  by (cases v; simp)+

lemmas calculator_eval = new_calculator_def new_base_tool_def calculator_schema_def
  fm_index_def fmlookup_of_list required_fields_def

lemma calculator_field_ok:
  "as_map (fm_index (t_schema new_calculator) ''properties'') = Some props \<Longrightarrow>
   field_ok props (k, v) \<longleftrightarrow>
     (k = ''operation'' \<and> (\<exists>s. v = DString s)) \<or> (k = ''a'' \<and> (\<exists>x. v = DFloat64 x)) \<or>
     (k = ''b'' \<and> (\<exists>x. v = DFloat64 x))"
  by (auto simp: calculator_eval field_ok_def validate_type_def split: if_splits)

lemma calculator_required: "required_fields new_calculator = [''operation'', ''a'']"
  by (simp add: calculator_eval)

lemma go_lookup_field:
  assumes "list_all P args" and "k \<in> fst ` set args"
  shows "P (k, go_lookup args k)"
proof -
  from assms(2) obtain v where "map_of args k = Some v"
    by (metis map_of_eq_None_iff not_None_eq)
  with assms(1) show ?thesis
    by (auto simp: go_lookup_def list_all_iff dest: map_of_SomeD)
qed

lemma go_lookup_absent: "k \<notin> fst ` set args \<Longrightarrow> go_lookup args k = DNil"
  unfolding go_lookup_def by (subst map_of_eq_None_iff [THEN iffD2]) simp_all

lemma calculator_validate_iff:
  "validate ord new_calculator args = Returns None \<longleftrightarrow>
     {''operation'', ''a''} \<subseteq> fst ` set args \<and>
     list_all (\<lambda>(k, v). (k = ''operation'' \<and> (\<exists>s. v = DString s)) \<or> (k = ''a'' \<and> (\<exists>x. v = DFloat64 x)) \<or>
                        (k = ''b'' \<and> (\<exists>x. v = DFloat64 x))) args"
proof -
  obtain props where pr: "as_map (fm_index (t_schema new_calculator) ''properties'') = Some props"
    by (simp add: calculator_eval)
  have "field_ok props = (\<lambda>(k, v). (k = ''operation'' \<and> (\<exists>s. v = DString s)) \<or>
          (k = ''a'' \<and> (\<exists>x. v = DFloat64 x)) \<or> (k = ''b'' \<and> (\<exists>x. v = DFloat64 x)))"
    by (auto simp: calculator_field_ok [OF pr])
  then show ?thesis
    by (simp add: validate_accepts_iff pr calculator_required)
qed

section \<open>Properties\<close>

text \<open>C18: Whether \<open>Validate\<close> accepts an argument map does not depend on Go's map iteration order: neither the order of the required set nor that of the arguments changes acceptance (only which error is reported).\<close>

theorem validate_order_independent:
  assumes "set args' = set args"
  shows "validate ord' t args' = Returns None \<longleftrightarrow> validate ord t args = Returns None"
  using assms by (simp add: validate_accepts_iff list_all_iff)

text \<open>C19: Arguments the calculator's \<open>Validate\<close> accepts make \<open>Execute\<close> fail only by division by zero, a missing second operand, or an unknown operation: never a non-string operation or a bad first operand.\<close>

theorem calculator_validation_sound:
  assumes "validate ord new_calculator args = Returns None"
    and "calc_execute parse args = Inl e"
  shows "e = ErrDivisionByZero \<or> e = ErrInvalidSecondNumber (ErrUnsupportedNumberType ''<nil>'') \<or>
         (\<exists>op. e = ErrUnknownOperation op)"
proof -
  from assms(1) obtain props where
    pr: "as_map (fm_index (t_schema new_calculator) ''properties'') = Some props" and
    req: "{''operation'', ''a''} \<subseteq> fst ` set args" and all: "list_all (field_ok props) args"
    by (auto simp: validate_accepts_iff calculator_required)
  have ok: "k \<in> fst ` set args \<Longrightarrow> field_ok props (k, go_lookup args k)" for k
    using go_lookup_field [OF all] by blast
  obtain op where op: "go_lookup args ''operation'' = DString op"
    using ok [of "''operation''"] req calculator_field_ok [OF pr] by auto
  obtain a where a: "go_lookup args ''a'' = DFloat64 a"
    using ok [of "''a''"] req calculator_field_ok [OF pr] by auto
  have b: "go_lookup args ''b'' = DNil \<or> (\<exists>x. go_lookup args ''b'' = DFloat64 x)"
    using ok [of "''b''"] go_lookup_absent [of "''b''"] calculator_field_ok [OF pr] by auto
  from assms(2) op a b show ?thesis
    by (auto simp: calc_execute_def split: if_splits)
qed

text \<open>C20: The calculator's operation enum is declared as a \<open>[]string\<close>, which \<open>Validate\<close> asserts as \<open>[]interface{}\<close>: the enum is never checked, any string operation is accepted, and \<open>Execute\<close> then rejects an unknown one.\<close>

theorem calculator_enum_not_enforced:
  "validate ord new_calculator [(''operation'', DString op), (''a'', DFloat64 x)] = Returns None \<and>
   (op \<notin> {''add'', ''subtract'', ''multiply'', ''divide'', ''square''} \<longrightarrow>
    calc_execute parse [(''operation'', DString op), (''a'', DFloat64 x), (''b'', DFloat64 y)] =
      Inl (ErrUnknownOperation op))"
  by (simp add: calculator_validate_iff calc_execute_def go_lookup_def)

text \<open>C21: The schema does not require \<open>b\<close>: an operation other than square with only \<open>a\<close> passes \<open>Validate\<close> and then fails in \<open>Execute\<close> on the missing second number.\<close>

theorem calculator_b_not_required:
  "validate ord new_calculator [(''operation'', DString op), (''a'', DFloat64 x)] = Returns None \<and>
   (op \<noteq> ''square'' \<longrightarrow>
    calc_execute parse [(''operation'', DString op), (''a'', DFloat64 x)] =
      Inl (ErrInvalidSecondNumber (ErrUnsupportedNumberType ''<nil>'')))"
  by (simp add: calculator_validate_iff calc_execute_def go_lookup_def)

text \<open>C22: \<open>Validate\<close> panics, rather than returning an error, on a \<open>nil\<close> argument (JSON \<open>null\<close>) for a property of type \<open>"array"\<close>, when that argument is the first one iterated and the required fields are present.\<close>

theorem validate_nil_array_panics:
  assumes "as_map (fm_index (t_schema t) ''properties'') = Some props"
    and "as_map (fm_index props n) = Some q" and "as_string (fm_index q ''type'') = Some ''array''"
    and "set (required_fields t) \<subseteq> insert n (fst ` set rest)"
  shows "validate ord t ((n, DNil) # rest) = Panics ''nil pointer dereference''"
proof -
  have "check_required (map_range ord (required_fields t)) ((n, DNil) # rest) = None"
    using assms(4) by (simp add: check_required_None_iff)
  with assms(1-3) show ?thesis by (simp add: validate_def validate_type_def)
qed

text \<open>C11: Type soundness and completeness of \<open>Validate\<close>: for a tool whose schema has a properties map, \<open>Validate\<close> accepts an argument map exactly when the required fields are present and every argument is a declared property whose value has the declared JSON type (as a Go dynamic type) and lies in its enum, if one is given as a \<open>[]interface{}\<close>.\<close>

theorem validate_well_typed:
  assumes "as_map (fm_index (t_schema t) ''properties'') = Some props"
  shows "validate ord t args = Returns None \<longleftrightarrow>
           set (required_fields t) \<subseteq> fst ` set args \<and>
           (\<forall>(n, v) \<in> set args. \<exists>q. as_map (fm_index props n) = Some q \<and>
              (\<forall>ty. as_string (fm_index q ''type'') = Some ty \<longrightarrow>
                 json_typed v ty \<and> (\<forall>en. as_slice (fm_index q ''enum'') = Some en \<longrightarrow> v \<in> set en)))"
proof -
  have "list_all (field_ok props) args \<longleftrightarrow> (\<forall>(n, v) \<in> set args. field_ok props (n, v))"
    by (auto simp: list_all_iff)
  then show ?thesis
    using assms by (simp add: validate_accepts_iff field_ok_typed)
qed

end
