(* ===== verification/Agent.thy ===== *)
theory Agent
  imports Tool
begin

text \<open>
  The agent layer: the \<open>Agent\<close> interface (\<open>src/pkg/agent/agent.go\<close>) and
  \<open>OpenAIAgent\<close> (\<open>src/pkg/agent/openai_agent.go\<close>) with \<open>Configure\<close>, \<open>AddTool\<close>
  and \<open>ProcessMessage\<close>. The chat-completion service is the parameter \<open>llm\<close>: a function
  from the request the agent builds (model, history, tool parameters) to the streamed
  response, given as the sequence of finished tool calls and contents the accumulator
  reports, the stream's error, and the contents of the accumulated choices. JSON decoding
  of tool arguments is the parameter \<open>dec\<close>. A tool is its name, schema and \<open>Execute\<close>,
  whose result is the string \<open>%v\<close> prints, or an error message. \<open>core.Message\<close> and
  its roles are not under \<open>src/\<close>: they are modelled from their uses.
\<close>

section \<open>Data model\<close>

datatype role = RoleUser | RoleAssistant

record message =
  msg_role :: role
  msg_content :: string

text \<open>The message kinds of the chat-completion request (\<open>ChatCompletionMessageParamUnion\<close>).\<close>

datatype chat_msg = SystemMsg string | UserMsg string | AssistantMsg string | ToolMsg string

record agent_tool =
  at_name :: string
  at_description :: string
  at_schema :: "(string, dyn) fmap"
  at_execute :: "go_map \<Rightarrow> string + string"

record tool_param =
  tp_name :: string
  tp_description :: string
  tp_parameters :: "(string, dyn) fmap"

record chat_request =
  req_model :: string
  req_messages :: "chat_msg list"
  req_tools :: "tool_param list"

datatype llm_chunk = ToolCallDone string string | ContentDone string

record llm_response =
  llm_chunks :: "llm_chunk list"
  llm_err :: "string option"
  llm_choices :: "string list"

record openai_agent =
  ag_id :: string
  ag_config :: "(string, dyn) fmap"
  ag_tools :: "agent_tool list"
  ag_history :: "chat_msg list"

datatype agent_error =
    ErrModelNotString
  | ErrUnmarshalToolArgs string
  | ErrExecuteTool string
  | ErrStream string

section \<open>Operations\<close>

definition new_openai_agent :: "string \<Rightarrow> openai_agent" where
  "new_openai_agent i = \<lparr>ag_id = i, ag_config = fmempty, ag_tools = [], ag_history = []\<rparr>"

text \<open>\<open>Configure\<close> keeps the \<open>model\<close> entry only, and fails if it is not a string.\<close>

definition configure :: "go_map \<Rightarrow> openai_agent \<Rightarrow> openai_agent \<times> agent_error option" where
  "configure cfg a =
     (case as_string (go_lookup cfg ''model'') of
        None \<Rightarrow> (a, Some ErrModelNotString)
      | Some m \<Rightarrow> (a\<lparr>ag_config := fmupd ''model'' (DString m) (ag_config a)\<rparr>, None))"

definition add_tool :: "agent_tool \<Rightarrow> openai_agent \<Rightarrow> openai_agent" where
  "add_tool t a = a\<lparr>ag_tools := ag_tools a @ [t]\<rparr>"

text \<open>
  The conversion of a tool to its request parameter. The code marshals the schema to JSON
  and unmarshals it into \<open>FunctionParameters\<close>; for a schema of \<open>dyn\<close> values (no NaN
  or infinite floats) both succeed, so their error branches are not reachable here.
\<close>

definition tool_param_of :: "agent_tool \<Rightarrow> tool_param" where
  "tool_param_of t = \<lparr>tp_name = at_name t, tp_description = at_description t, tp_parameters = at_schema t\<rparr>"

text \<open>A finished tool call runs every tool of that name, decoding the arguments each time.\<close>

fun exec_matching ::
  "(string \<Rightarrow> go_map option) \<Rightarrow> agent_tool list \<Rightarrow> string \<Rightarrow> string \<Rightarrow> string list \<Rightarrow>
   agent_error + string list" where
  "exec_matching dec [] n args acc = Inr acc"
| "exec_matching dec (t # ts) n args acc =
     (if at_name t = n then
        (case dec args of
           None \<Rightarrow> Inl (ErrUnmarshalToolArgs args)
         | Some m \<Rightarrow>
             (case at_execute t m of
                Inl e \<Rightarrow> Inl (ErrExecuteTool e)
              | Inr r \<Rightarrow> exec_matching dec ts n args (acc @ [r])))
      else exec_matching dec ts n args acc)"

fun run_tool_calls ::
  "(string \<Rightarrow> go_map option) \<Rightarrow> agent_tool list \<Rightarrow> llm_chunk list \<Rightarrow> string list \<Rightarrow>
   agent_error + string list" where
  "run_tool_calls dec ts [] acc = Inr acc"
| "run_tool_calls dec ts (ContentDone _ # cs) acc = run_tool_calls dec ts cs acc"
| "run_tool_calls dec ts (ToolCallDone n args # cs) acc =
     (case exec_matching dec ts n args acc of
        Inl e \<Rightarrow> Inl e
      | Inr acc' \<Rightarrow> run_tool_calls dec ts cs acc')"

text \<open>
  \<open>ProcessMessage\<close>: the user message is appended to the history first (and stays there
  on every error path); \<open>a.config["model"].(string)\<close> is a single-valued assertion,
  which panics when no model is configured; \<open>acc.Choices[0]\<close> panics when the stream
  produced no choice. The agent is returned with the call's result.
\<close>

definition process_message ::
  "(string \<Rightarrow> go_map option) \<Rightarrow> (chat_request \<Rightarrow> llm_response) \<Rightarrow> message \<Rightarrow> openai_agent \<Rightarrow>
   (openai_agent \<times> (agent_error + message list)) go_call" where
  "process_message dec llm msg a =
     (let a1 = a\<lparr>ag_history := ag_history a @ [UserMsg (msg_content msg)]\<rparr>;
          params = map tool_param_of (ag_tools a1) in
      case as_string (fm_index (ag_config a1) ''model'') of
        None \<Rightarrow> Panics ''interface conversion: interface {} is nil, not string''
      | Some model \<Rightarrow>
          (let resp = llm \<lparr>req_model = model, req_messages = ag_history a1, req_tools = params\<rparr> in
           case run_tool_calls dec (ag_tools a1) (llm_chunks resp) [] of
             Inl e \<Rightarrow> Returns (a1, Inl e)
           | Inr _ \<Rightarrow>
               (case llm_err resp of
                  Some e \<Rightarrow> Returns (a1, Inl (ErrStream e))
                | None \<Rightarrow>
                    (case llm_choices resp of
                       [] \<Rightarrow> Panics ''index out of range [0] with length 0''
                     | c # _ \<Rightarrow> Returns (a1, Inr [\<lparr>msg_role = RoleAssistant, msg_content = c\<rparr>])))))"

text \<open>A sequence of \<open>ProcessMessage\<close> calls on one agent, stopping at a panic.\<close>

fun process_all ::
  "(string \<Rightarrow> go_map option) \<Rightarrow> (chat_request \<Rightarrow> llm_response) \<Rightarrow> message list \<Rightarrow> openai_agent \<Rightarrow>
   openai_agent option" where
  "process_all dec llm [] a = Some a"
| "process_all dec llm (m # ms) a =
     (case process_message dec llm m a of
        Panics _ \<Rightarrow> None
      | Returns (a', _) \<Rightarrow> process_all dec llm ms a')"

section \<open>Tools as the agent sees them\<close>

text \<open>
  The error texts of the tool layer (\<open>src/pkg/core/tool.go\<close> and the calculator of
  \<open>src/unnamed/part_002\<close>), which \<open>ProcessMessage\<close> wraps with \<open>%w\<close>. \<open>%v\<close> of an
  enum slice is the parameter \<open>fmtl\<close>; the text of a \<open>strconv.ParseFloat\<close> error is
  the one for invalid syntax (the parser itself is a parameter).
\<close>

fun number_error_msg :: "number_error \<Rightarrow> string" where
  "number_error_msg (ErrParseFloat s) = ''strconv.ParseFloat: parsing \"'' @ s @ ''\": invalid syntax''"
| "number_error_msg (ErrUnsupportedNumberType t) = ''unsupported number type: '' @ t"

fun tool_error_msg :: "(dyn list \<Rightarrow> string) \<Rightarrow> tool_error \<Rightarrow> string" where
  "tool_error_msg fmtl ErrInvalidSchema = ''invalid schema: missing or invalid properties''"
| "tool_error_msg fmtl (ErrMissingField f) = ''missing required field: '' @ f"
| "tool_error_msg fmtl (ErrUnknownField n) = ''unknown field: '' @ n"
| "tool_error_msg fmtl (ErrInvalidType n ty) = ''invalid type for field '' @ n @ '': expected '' @ ty"
| "tool_error_msg fmtl (ErrInvalidValue n en) = ''invalid value for field '' @ n @ '': must be one of '' @ fmtl en"
| "tool_error_msg fmtl ErrOperationNotString = ''operation must be a string''"
| "tool_error_msg fmtl (ErrInvalidFirstNumber e) = ''invalid first number: '' @ number_error_msg e"
| "tool_error_msg fmtl (ErrInvalidSecondNumber e) = ''invalid second number: '' @ number_error_msg e"
| "tool_error_msg fmtl ErrDivisionByZero = ''division by zero''"
| "tool_error_msg fmtl (ErrUnknownOperation op) = ''unknown operation: '' @ op"

text \<open>
  The calculator as a \<open>core.Tool\<close>: \<open>Name\<close>, \<open>Description\<close> and \<open>JSONSchema\<close> of its
  \<open>BaseTool\<close>, and \<open>Execute\<close>, whose result the agent prints with \<open>%v\<close> (\<open>fmtv\<close>).
\<close>

definition calculator_tool ::
  "(real \<Rightarrow> string) \<Rightarrow> (dyn list \<Rightarrow> string) \<Rightarrow> (string \<Rightarrow> real option) \<Rightarrow> agent_tool" where
  "calculator_tool fmtv fmtl parse =
     \<lparr>at_name = t_name new_calculator, at_description = t_description new_calculator,
      at_schema = t_schema new_calculator,
      at_execute = (\<lambda>args. case calc_execute parse args of
                               Inl e \<Rightarrow> Inl (tool_error_msg fmtl e)
                             | Inr x \<Rightarrow> Inr (fmtv x))\<rparr>"

section \<open>The \<open>Agent\<close> interface\<close>

text \<open>
  The four methods of \<open>Agent\<close> as operations, and their dispatch to \<open>OpenAIAgent\<close>
  through its pointer receiver: the agent after the call and what the method returns.
\<close>

datatype agent_op = OpID | OpConfigure go_map | OpAddTool agent_tool | OpProcessMessage message

datatype agent_ret = RetID string | RetConfigure "agent_error option" | RetAddTool
  | RetProcessMessage "agent_error + message list"

definition agent_id :: "openai_agent \<Rightarrow> string" where
  "agent_id a = ag_id a"

definition agent_call ::
  "(string \<Rightarrow> go_map option) \<Rightarrow> (chat_request \<Rightarrow> llm_response) \<Rightarrow> agent_op \<Rightarrow> openai_agent \<Rightarrow>
   (openai_agent \<times> agent_ret) go_call" where
  "agent_call dec llm op a =
     (case op of
        OpID \<Rightarrow> Returns (a, RetID (agent_id a))
      | OpConfigure cfg \<Rightarrow> (case configure cfg a of (a', e) \<Rightarrow> Returns (a', RetConfigure e))
      | OpAddTool t \<Rightarrow> Returns (add_tool t a, RetAddTool)
      | OpProcessMessage m \<Rightarrow>
          (case process_message dec llm m a of
             Returns (a', r) \<Rightarrow> Returns (a', RetProcessMessage r)
           | Panics p \<Rightarrow> Panics p))"

text \<open>A sequence of calls on one agent, stopping at a panic.\<close>

fun agent_calls ::
  "(string \<Rightarrow> go_map option) \<Rightarrow> (chat_request \<Rightarrow> llm_response) \<Rightarrow> agent_op list \<Rightarrow> openai_agent \<Rightarrow>
   (openai_agent \<times> agent_ret list) go_call" where
  "agent_calls dec llm [] a = Returns (a, [])"
| "agent_calls dec llm (op # ops) a =
     (case agent_call dec llm op a of
        Panics p \<Rightarrow> Panics p
      | Returns (a1, r) \<Rightarrow>
          (case agent_calls dec llm ops a1 of
             Panics p \<Rightarrow> Panics p
           | Returns (a2, rs) \<Rightarrow> Returns (a2, r # rs)))"

section \<open>Lemmas\<close>

text \<open>Whatever a call returns, its only effect on the agent is the user message it appends.\<close>

lemma process_message_history:
  "process_message dec llm msg a = Returns (a', r) \<Longrightarrow>
     a' = a\<lparr>ag_history := ag_history a @ [UserMsg (msg_content msg)]\<rparr>"
  by (auto simp: process_message_def Let_def split: option.splits sum.splits list.splits)

text \<open>Through the interface, a sequence of \<open>ProcessMessage\<close> calls is \<open>process_all\<close>.\<close>

lemma agent_calls_process_all:
  "process_all dec llm ms a =
     (case agent_calls dec llm (map OpProcessMessage ms) a of Returns (a', _) \<Rightarrow> Some a' | Panics _ \<Rightarrow> None)"
  by (induction ms arbitrary: a)
     (auto simp: agent_call_def split: go_call.split prod.split)

text \<open>An agent without a string model keeps none through calls that configure none, and its
  next \<open>ProcessMessage\<close> panics.\<close>

lemma unconfigured_calls_panic:
  "as_string (fm_index (ag_config a) ''model'') = None \<Longrightarrow>
   \<forall>cfg. OpConfigure cfg \<in> set ops \<longrightarrow> as_string (go_lookup cfg ''model'') = None \<Longrightarrow>
   \<exists>p. agent_calls dec llm (ops @ [OpProcessMessage msg]) a = Panics p"
proof (induction ops arbitrary: a)
  case Nil
  then show ?case by (simp add: agent_call_def process_message_def Let_def)
next
  case (Cons op ops)
  show ?case
  proof (cases "agent_call dec llm op a")
    case (Returns x)
    obtain a1 r where x: "x = (a1, r)" by fastforce
    have "ag_config a1 = ag_config a"
      using Returns x Cons.prems(2)
      by (cases op) (auto simp: agent_call_def configure_def add_tool_def
                          dest: process_message_history split: go_call.splits)
    then have "as_string (fm_index (ag_config a1) ''model'') = None" using Cons.prems(1) by simp
    from Cons.IH [OF this] Cons.prems(2) obtain p where "agent_calls dec llm (ops @ [OpProcessMessage msg]) a1 = Panics p"
      by auto
    with Returns x show ?thesis by simp
  qed simp
qed

section \<open>Properties\<close>

text \<open>C31: After any sequence of \<open>ProcessMessage\<close> calls that do not panic, the agent's history is the earlier history followed by the user messages, one per call: the assistant replies (and any system message) are never added, so the chat service never sees its own earlier answers.\<close>

theorem history_only_user_messages:
  "process_all dec llm ms a = Some a' \<Longrightarrow>
     ag_history a' = ag_history a @ map (\<lambda>m. UserMsg (msg_content m)) ms \<and>
     ag_config a' = ag_config a \<and> ag_tools a' = ag_tools a"
proof (induction ms arbitrary: a)
  case Nil
  then show ?case by simp
next
  case (Cons m ms)
  then obtain a1 r where p: "process_message dec llm m a = Returns (a1, r)" and rest: "process_all dec llm ms a1 = Some a'"
    by (auto split: go_call.splits)
  from process_message_history [OF p] Cons.IH [OF rest] show ?case by simp
qed

text \<open>C32: \<open>ProcessMessage\<close> asserts \<open>a.config["model"].(string)\<close> without the comma-ok form, and only a successful \<open>Configure\<close> stores a model: on a fresh agent, after any sequence of interface calls in which no \<open>Configure\<close> is given a string model, the first \<open>ProcessMessage\<close> panics.\<close>

theorem unconfigured_agent_panics:
  assumes "\<forall>cfg. OpConfigure cfg \<in> set ops \<longrightarrow> as_string (go_lookup cfg ''model'') = None"
  shows "\<exists>p. agent_calls dec llm (ops @ [OpProcessMessage msg]) (new_openai_agent i) = Panics p"
  using assms unconfigured_calls_panic [of "new_openai_agent i"]
  by (simp add: new_openai_agent_def fm_index_def)

text \<open>C33: \<open>Configure\<close> stores only the \<open>model\<close> key: any other entry of the configuration map, such as the \<open>system_message\<close> the examples pass, is dropped.\<close>

theorem configure_drops_other_keys:
  "k \<noteq> ''model'' \<Longrightarrow> fmlookup (ag_config (fst (configure cfg a))) k = fmlookup (ag_config a) k"
  by (simp add: configure_def split: option.split)

text \<open>C34: A successful \<open>ProcessMessage\<close> returns exactly one assistant message, the first choice of the service's answer to the request built from the configured model, the history with the new user message, and the tools; the results of the tool calls it executed appear in neither.\<close>

theorem reply_is_first_choice:
  assumes "process_message dec llm msg a = Returns (a', Inr r)"
  shows "\<exists>model c cs. fm_index (ag_config a) ''model'' = DString model \<and>
           llm_choices (llm \<lparr>req_model = model, req_messages = ag_history a @ [UserMsg (msg_content msg)],
                             req_tools = map tool_param_of (ag_tools a)\<rparr>) = c # cs \<and>
           r = [\<lparr>msg_role = RoleAssistant, msg_content = c\<rparr>]"
proof -
  obtain model where "as_string (fm_index (ag_config a) ''model'') = Some model"
    using assms by (auto simp: process_message_def Let_def split: option.splits)
  then have m: "fm_index (ag_config a) ''model'' = DString model"
    by (cases "fm_index (ag_config a) ''model''") simp_all
  with assms show ?thesis
    by (auto simp: process_message_def Let_def split: sum.splits option.splits list.splits)
qed

end
