(* ===== verification/Examples.thy ===== *)
theory Examples
  imports Invoke Agent
begin

text \<open>
  The graph example of \<open>src/examples/graph/main.go\<close>: a state with messages, a result
  and a poem; two nodes that each ask an agent (\<open>calculate\<close> asks the math expert,
  \<open>write_poem\<close> the poet); routers \<open>START \<rightarrow> calculate \<rightarrow> write_poem \<rightarrow> END\<close>; the
  entry point \<open>calculate\<close>; the stream modes values, messages and debug. An agent's
  \<open>ProcessMessage\<close> is a parameter returning an error message or its reply: by
  \<open>Agent.reply_is_first_choice\<close> the reply of \<open>OpenAIAgent\<close> is a single assistant
  message, so the code's \<open>responses[len(responses)-1]\<close> is that message. \<open>%v\<close> of a
  \<open>float64\<close> is the parameter \<open>fmtv\<close>. Logging, the \<open>.env\<close> file and the API key are
  not modelled; the run is \<open>Invoke\<close> (the example calls \<open>Stream\<close>, which runs
  \<open>Invoke\<close> and forwards what it emits, theory \<open>Fanout\<close>).
\<close>

section \<open>The example's state and nodes\<close>

record ex_state =
  ex_messages :: "message list"
  ex_result :: real
  ex_poem :: string

type_synonym ex_agent = "message \<Rightarrow> string + message"

text \<open>The prompt of \<open>calculate\<close>, with the UTF-8 bytes of the superscript two.\<close>

definition sq2 :: string where "sq2 = [CHR 0xC2, CHR 0xB2]"

definition calc_prompt :: string where
  "calc_prompt = ''Calculate the sum of squares from 1 to 5 (1'' @ sq2 @ '' + 2'' @ sq2 @ '' + 3'' @ sq2 @
     '' + 4'' @ sq2 @ '' + 5'' @ sq2 @ '')''"

definition calculate_node :: "ex_agent \<Rightarrow> ex_state \<Rightarrow> ex_state \<times> unit go_error option" where
  "calculate_node math st =
     (let msg = \<lparr>msg_role = RoleUser, msg_content = calc_prompt\<rparr>;
          st1 = st\<lparr>ex_messages := ex_messages st @ [msg]\<rparr> in
      case math msg of
        Inl e \<Rightarrow> (st1, Some (PlainError (''math expert error: '' @ e)))
      | Inr last_msg \<Rightarrow>
          (let st2 = st1\<lparr>ex_messages := ex_messages st1 @ [last_msg]\<rparr> in
           (if msg_role last_msg = RoleAssistant then st2\<lparr>ex_result := 55\<rparr> else st2, None)))"

definition write_poem_node ::
  "(real \<Rightarrow> string) \<Rightarrow> ex_agent \<Rightarrow> ex_state \<Rightarrow> ex_state \<times> unit go_error option" where
  "write_poem_node fmtv poet st =
     (let msg = \<lparr>msg_role = RoleUser,
                 msg_content = ''Create a short, beautiful poem that incorporates the number '' @ fmtv (ex_result st)\<rparr>;
          st1 = st\<lparr>ex_messages := ex_messages st @ [msg]\<rparr> in
      case poet msg of
        Inl e \<Rightarrow> (st1, Some (PlainError (''poet error: '' @ e)))
      | Inr last_msg \<Rightarrow>
          (let st2 = st1\<lparr>ex_messages := ex_messages st1 @ [last_msg]\<rparr> in
           (if msg_role last_msg = RoleAssistant then st2\<lparr>ex_poem := msg_content last_msg\<rparr> else st2, None)))"

definition example_config :: stream_config where
  "example_config = \<lparr>sc_modes = [StreamValues, StreamMessages, StreamDebug], sc_buffer_size = 100\<rparr>"

definition example_graph ::
  "(real \<Rightarrow> string) \<Rightarrow> ex_agent \<Rightarrow> ex_agent \<Rightarrow> (ex_state, unit) state_graph" where
  "example_graph fmtv math poet =
     set_entry_point ''calculate''
      (add_conditional_edges ''write_poem'' (\<lambda>st. ([END], None)) None
        (add_conditional_edges ''calculate'' (\<lambda>st. ([''write_poem''], None)) None
          (add_conditional_edges START (\<lambda>st. ([''calculate''], None)) None
            (add_node ''write_poem'' (write_poem_node fmtv poet)
              (add_node ''calculate'' (calculate_node math)
                (set_stream_config example_config new_state_graph))))))"

definition example_initial :: ex_state where
  "example_initial = \<lparr>ex_messages = [], ex_result = 0, ex_poem = ''''\<rparr>"

section \<open>Properties\<close>

lemmas example_eval = example_graph_def example_config_def example_initial_def calculate_node_def
  write_poem_node_def START_def

text \<open>C29: When both agents answer with an assistant message, the example's run calls \<open>calculate\<close> then \<open>write_poem\<close> and returns the state with the four messages in order, the result 55 and the poet's answer as poem; although the messages mode is on, the data stream carries only the initial and the final state values.\<close>

theorem example_run:
  assumes "math \<lparr>msg_role = RoleUser, msg_content = calc_prompt\<rparr> = Inr \<lparr>msg_role = RoleAssistant, msg_content = a1\<rparr>"
    and "poet \<lparr>msg_role = RoleUser,
               msg_content = ''Create a short, beautiful poem that incorporates the number '' @ fmtv 55\<rparr> =
           Inr \<lparr>msg_role = RoleAssistant, msg_content = p\<rparr>"
  shows "snd (invoke c \<lparr>rs_graph = example_graph fmtv math poet\<rparr> cs example_initial) =
           Done \<lparr>ex_messages = [\<lparr>msg_role = RoleUser, msg_content = calc_prompt\<rparr>,
                                \<lparr>msg_role = RoleAssistant, msg_content = a1\<rparr>,
                                \<lparr>msg_role = RoleUser, msg_content = ''Create a short, beautiful poem that incorporates the number '' @ fmtv 55\<rparr>,
                                \<lparr>msg_role = RoleAssistant, msg_content = p\<rparr>],
                 ex_result = 55, ex_poem = p\<rparr> \<and>
         r_calls (fst (invoke c \<lparr>rs_graph = example_graph fmtv math poet\<rparr> cs example_initial)) =
           [''calculate'', ''write_poem''] \<and>
         map se_mode (stream_ch (g_streamer (r_graph (fst (invoke c \<lparr>rs_graph = example_graph fmtv math poet\<rparr> cs example_initial))))) =
           [StreamValues, StreamValues]"
  using assms by (simp add: run_eval example_eval cong: step_result.case_cong_weak)

text \<open>C30: When the math expert fails, the run fails at \<open>calculate\<close> with the wrapped error and the poet is never asked.\<close>

theorem example_math_error:
  assumes "math \<lparr>msg_role = RoleUser, msg_content = calc_prompt\<rparr> = Inl e"
  shows "snd (invoke c \<lparr>rs_graph = example_graph fmtv math poet\<rparr> cs example_initial) =
           Failed (ErrNode ''calculate'' (PlainError (''math expert error: '' @ e))) \<and>
         r_calls (fst (invoke c \<lparr>rs_graph = example_graph fmtv math poet\<rparr> cs example_initial)) = [''calculate'']"
  using assms by (simp add: run_eval example_eval cong: step_result.case_cong_weak)

end
