(* ===== verification/Fanout.thy ===== *)
theory Fanout
  imports Stream
begin

text \<open>
  The streaming fan-out of \<open>RunnableState.Stream\<close> (\<open>src/unnamed/part_000\<close>, lines
  319--382) as an interleaving of its goroutines. The engine (\<open>Invoke\<close>) performs a
  sequence of blocking sends on the streamer's two unbuffered channels and then returns,
  possibly with an error; the forwarder goroutine moves each value it receives into one of
  the two buffered output channels, or gives up when the derived context is done; the
  outer goroutine reports the error, then runs its deferred \<open>cancel()\<close>,
  \<open>close(eventCh)\<close> and \<open>close(streamCh)\<close>, in that order; the caller consumes the
  output channels and may cancel the parent context. The sends of the engine are the
  parameter of the model: any sequence of events and stream values, in the order
  \<open>Invoke\<close> makes them (for a run of \<open>Invoke\<close>, the log \<open>sent\<close> of its streamer,
  theorem \<open>Invoke.invoke_sends\<close>). Go's \<open>select\<close> chooses among ready cases at random, so each
  choice is a separate rule of the step relation. A panic (a send on a closed channel)
  ends the process: no step leaves a panicked state.
\<close>

section \<open>State\<close>

text \<open>Where the outer goroutine is: running \<open>Invoke\<close>, reporting its error, or in its defers.\<close>

datatype outer_pc = ORun | OErr | OCancel | OCloseEv | OCloseSt | ODone

text \<open>The forwarder: at its \<open>select\<close>, holding a received value, or returned.\<close>

datatype 's fwd = FLoop | FHoldEv event | FHoldSt "'s stream_event" | FExit

record 's fanout =
  f_src :: "'s emission list"
  f_eng :: "'s emission list"
  f_err :: "string option"
  f_pc :: outer_pc
  f_fwd :: "'s fwd"
  f_ctx :: bool
  f_cap :: nat
  f_evq :: "event list"
  f_stq :: "'s stream_event list"
  f_ev_closed :: bool
  f_st_closed :: bool
  f_got_ev :: "event list"
  f_got_st :: "'s stream_event list"
  f_panic :: bool

text \<open>
  \<open>f_src\<close> records every send \<open>Invoke\<close> makes and \<open>f_eng\<close> those still to come;
  \<open>f_got_ev\<close> and \<open>f_got_st\<close> what the caller has received. \<open>Stream\<close> allocates the two
  output channels with capacity \<open>BufferSize\<close>; \<open>make\<close> panics on a negative size.
\<close>

definition stream_start ::
  "stream_config \<Rightarrow> 's emission list \<Rightarrow> string option \<Rightarrow> 's fanout option" where
  "stream_start cfg src err =
     (if sc_buffer_size cfg < 0 then None
      else Some \<lparr>f_src = src, f_eng = src, f_err = err, f_pc = ORun, f_fwd = FLoop, f_ctx = False,
                 f_cap = nat (sc_buffer_size cfg), f_evq = [], f_stq = [], f_ev_closed = False,
                 f_st_closed = False, f_got_ev = [], f_got_st = [], f_panic = False\<rparr>)"

text \<open>The event the outer goroutine sends when \<open>Invoke\<close> fails (lines 367--375).\<close>

definition error_event :: "string \<Rightarrow> event" where
  "error_event msg =
     \<lparr>ev_type = EventChainEnd, ev_name = ''LangGraph'', ev_metadata = [(''error'', MetaString msg)]\<rparr>"

section \<open>Steps\<close>

inductive fo_step :: "'s fanout \<Rightarrow> 's fanout \<Rightarrow> bool" where
  fwd_recv_event:
    "f_pc s = ORun \<Longrightarrow> f_eng s = EmEvent e # rest \<Longrightarrow> f_fwd s = FLoop \<Longrightarrow>
     fo_step s (s\<lparr>f_eng := rest, f_fwd := FHoldEv e\<rparr>)"
| fwd_recv_data:
    "f_pc s = ORun \<Longrightarrow> f_eng s = EmData d # rest \<Longrightarrow> f_fwd s = FLoop \<Longrightarrow>
     fo_step s (s\<lparr>f_eng := rest, f_fwd := FHoldSt d\<rparr>)"
| fwd_done:
    "f_fwd s \<noteq> FExit \<Longrightarrow> f_ctx s \<Longrightarrow> fo_step s (s\<lparr>f_fwd := FExit\<rparr>)"
| fwd_send_event:
    "f_fwd s = FHoldEv e \<Longrightarrow> \<not> f_ev_closed s \<Longrightarrow> length (f_evq s) < f_cap s \<Longrightarrow>
     fo_step s (s\<lparr>f_evq := f_evq s @ [e], f_fwd := FLoop\<rparr>)"
| fwd_send_event_closed:
    "f_fwd s = FHoldEv e \<Longrightarrow> f_ev_closed s \<Longrightarrow> fo_step s (s\<lparr>f_panic := True\<rparr>)"
| fwd_send_data:
    "f_fwd s = FHoldSt d \<Longrightarrow> \<not> f_st_closed s \<Longrightarrow> length (f_stq s) < f_cap s \<Longrightarrow>
     fo_step s (s\<lparr>f_stq := f_stq s @ [d], f_fwd := FLoop\<rparr>)"
| fwd_send_data_closed:
    "f_fwd s = FHoldSt d \<Longrightarrow> f_st_closed s \<Longrightarrow> fo_step s (s\<lparr>f_panic := True\<rparr>)"
| invoke_returns:
    "f_pc s = ORun \<Longrightarrow> f_eng s = [] \<Longrightarrow>
     fo_step s (s\<lparr>f_pc := (case f_err s of None \<Rightarrow> OCancel | Some _ \<Rightarrow> OErr)\<rparr>)"
| report_error:
    "f_pc s = OErr \<Longrightarrow> f_err s = Some msg \<Longrightarrow> length (f_evq s) < f_cap s \<Longrightarrow>
     fo_step s (s\<lparr>f_evq := f_evq s @ [error_event msg], f_pc := OCancel\<rparr>)"
| report_error_done:
    "f_pc s = OErr \<Longrightarrow> f_ctx s \<Longrightarrow> fo_step s (s\<lparr>f_pc := OCancel\<rparr>)"
| defer_cancel:
    "f_pc s = OCancel \<Longrightarrow> fo_step s (s\<lparr>f_ctx := True, f_pc := OCloseEv\<rparr>)"
| defer_close_events:
    "f_pc s = OCloseEv \<Longrightarrow> fo_step s (s\<lparr>f_ev_closed := True, f_pc := OCloseSt\<rparr>)"
| defer_close_stream:
    "f_pc s = OCloseSt \<Longrightarrow> fo_step s (s\<lparr>f_st_closed := True, f_pc := ODone\<rparr>)"
| parent_cancel:
    "fo_step s (s\<lparr>f_ctx := True\<rparr>)"
| consume_event:
    "f_evq s = e # q \<Longrightarrow> fo_step s (s\<lparr>f_evq := q, f_got_ev := f_got_ev s @ [e]\<rparr>)"
| consume_data:
    "f_stq s = d # q \<Longrightarrow> fo_step s (s\<lparr>f_stq := q, f_got_st := f_got_st s @ [d]\<rparr>)"

text \<open>A panic ends the process.\<close>

definition fo_next :: "'s fanout \<Rightarrow> 's fanout \<Rightarrow> bool" where
  "fo_next s s' \<longleftrightarrow> \<not> f_panic s \<and> fo_step s s'"

section \<open>Views of a state\<close>

fun held_ev :: "'s fwd \<Rightarrow> event list" where
  "held_ev (FHoldEv e) = [e]"
| "held_ev _ = []"

fun held_st :: "'s fwd \<Rightarrow> 's stream_event list" where
  "held_st (FHoldSt d) = [d]"
| "held_st _ = []"

text \<open>
  The data values in flight, in order: received by the caller, buffered, held by the
  forwarder, not yet sent by the engine.
\<close>

definition data_pipeline :: "'s fanout \<Rightarrow> 's stream_event list" where
  "data_pipeline s = f_got_st s @ f_stq s @ held_st (f_fwd s) @ st_of (f_eng s)"

definition event_pipeline :: "'s fanout \<Rightarrow> event list" where
  "event_pipeline s = f_got_ev s @ f_evq s @ held_ev (f_fwd s) @ ev_of (f_eng s)"

text \<open>The error event the outer goroutine adds, if \<open>Invoke\<close> failed.\<close>

definition err_part :: "string option \<Rightarrow> event list" where
  "err_part err = (case err of None \<Rightarrow> [] | Some m \<Rightarrow> [error_event m])"

text \<open>
  A quiet state: the outer goroutine runs \<open>Invoke\<close>, the forwarder waits at its
  \<open>select\<close>, both output buffers are empty, nothing is closed and nothing panicked.
\<close>

definition quiet :: "'s fanout \<Rightarrow> bool" where
  "quiet s \<longleftrightarrow> f_pc s = ORun \<and> f_fwd s = FLoop \<and> f_evq s = [] \<and> f_stq s = [] \<and> \<not> f_panic s \<and>
     \<not> f_ev_closed s \<and> \<not> f_st_closed s"

text \<open>
  A hung state: the forwarder has returned while \<open>Invoke\<close> still has sends to make;
  nothing will ever receive them.
\<close>

definition hung :: "'s fanout \<Rightarrow> bool" where
  "hung s \<longleftrightarrow> f_pc s = ORun \<and> f_fwd s = FExit \<and> f_eng s \<noteq> [] \<and> \<not> f_ev_closed s \<and> \<not> f_st_closed s"

section \<open>Lemmas\<close>

text \<open>The pipelines only lose values, never reorder or invent them.\<close>

lemma fo_step_fixed:
  "fo_step s s' \<Longrightarrow> f_src s' = f_src s \<and> f_err s' = f_err s \<and> f_cap s' = f_cap s"
  by (induction rule: fo_step.induct) simp_all

lemma subseq_drop_middle: "subseq (xs @ zs) (xs @ y @ zs)"
  by (intro list_emb_append_mono subseq_order.order_refl list_emb_append2)

lemma subseq_append_right: "subseq xs (xs @ ys)"
  using subseq_drop_middle [where zs = "[]"] by simp

lemma data_pipeline_step:
  "fo_step s s' \<Longrightarrow> subseq (data_pipeline s') (data_pipeline s)"
proof (induction rule: fo_step.induct)
  case (fwd_done s)
  then show ?case
    using subseq_drop_middle [where xs = "f_got_st s @ f_stq s" and y = "held_st (f_fwd s)" and zs = "st_of (f_eng s)"]
    by (simp add: data_pipeline_def)
qed (simp_all add: data_pipeline_def)

lemma event_pipeline_step:
  "fo_step s s' \<Longrightarrow> f_err s = None \<Longrightarrow> subseq (event_pipeline s') (event_pipeline s)"
proof (induction rule: fo_step.induct)
  case (fwd_done s)
  then show ?case
    using subseq_drop_middle [where xs = "f_got_ev s @ f_evq s" and y = "held_ev (f_fwd s)" and zs = "ev_of (f_eng s)"]
    by (simp add: event_pipeline_def)
qed (simp_all add: event_pipeline_def)

lemma fo_next_step: "fo_next s s' \<Longrightarrow> fo_step s s'"
  by (simp add: fo_next_def)

lemma reach_fixed:
  "fo_next\<^sup>*\<^sup>* s0 s \<Longrightarrow> f_src s = f_src s0 \<and> f_err s = f_err s0 \<and> f_cap s = f_cap s0"
  by (induction rule: rtranclp_induct) (auto dest!: fo_next_step fo_step_fixed)

lemma reach_data_subseq:
  "fo_next\<^sup>*\<^sup>* s0 s \<Longrightarrow> subseq (data_pipeline s) (data_pipeline s0)"
  by (induction rule: rtranclp_induct) (auto dest!: fo_next_step data_pipeline_step intro: subseq_order.trans)

lemma reach_event_subseq:
  "fo_next\<^sup>*\<^sup>* s0 s \<Longrightarrow> f_err s0 = None \<Longrightarrow> subseq (event_pipeline s) (event_pipeline s0)"
proof (induction rule: rtranclp_induct)
  case (step y z)
  then have "f_err y = None" using reach_fixed by metis
  with step show ?case by (auto dest!: fo_next_step event_pipeline_step intro: subseq_order.trans)
qed simp

lemma fo_step_reach: "fo_step s s' \<Longrightarrow> \<not> f_panic s \<Longrightarrow> fo_next\<^sup>*\<^sup>* s s'"
  by (simp add: fo_next_def r_into_rtranclp)

lemma fo_reach_trans [trans]:
  "fo_next\<^sup>*\<^sup>* s t \<Longrightarrow> fo_next\<^sup>*\<^sup>* t u \<Longrightarrow> fo_next\<^sup>*\<^sup>* s u"
  by (rule rtranclp_trans)

text \<open>A schedule that forwards every send at once, and the end of the outer goroutine.\<close>

lemma forward_prefix:
  assumes "quiet s" and "0 < f_cap s" and "f_eng s = xs @ ys"
  shows "\<exists>t. fo_next\<^sup>*\<^sup>* s t \<and> quiet t \<and> f_eng t = ys \<and>
           f_got_ev t = f_got_ev s @ ev_of xs \<and> f_got_st t = f_got_st s @ st_of xs \<and>
           f_ctx t = f_ctx s \<and> f_cap t = f_cap s \<and> f_err t = f_err s"
  using assms
proof (induction xs arbitrary: s)
  case Nil
  then show ?case by (intro exI [of _ s]) simp
next
  case (Cons x xs)
  show ?case
  proof (cases x)
    case (EmEvent e)
    let ?s1 = "s\<lparr>f_eng := xs @ ys, f_fwd := FHoldEv e\<rparr>"
    let ?s2 = "?s1\<lparr>f_evq := f_evq ?s1 @ [e], f_fwd := FLoop\<rparr>"
    let ?s3 = "?s2\<lparr>f_evq := [], f_got_ev := f_got_ev ?s2 @ [e]\<rparr>"
    have "fo_next\<^sup>*\<^sup>* s ?s1"
      using Cons.prems EmEvent by (intro fo_step_reach fo_step.fwd_recv_event) (simp_all add: quiet_def)
    also have "fo_next\<^sup>*\<^sup>* ?s1 ?s2"
      using Cons.prems by (intro fo_step_reach fo_step.fwd_send_event) (simp_all add: quiet_def)
    also have "fo_next\<^sup>*\<^sup>* ?s2 ?s3"
      using Cons.prems by (intro fo_step_reach fo_step.consume_event) (simp_all add: quiet_def)
    finally have r: "fo_next\<^sup>*\<^sup>* s ?s3" .
    have "quiet ?s3" using Cons.prems by (simp add: quiet_def)
    from Cons.IH [of ?s3] this Cons.prems(2) obtain t where t: "fo_next\<^sup>*\<^sup>* ?s3 t" "quiet t" "f_eng t = ys"
      "f_got_ev t = f_got_ev ?s3 @ ev_of xs" "f_got_st t = f_got_st ?s3 @ st_of xs"
      "f_ctx t = f_ctx s" "f_cap t = f_cap s" "f_err t = f_err s" by auto
    have "fo_next\<^sup>*\<^sup>* s t" using r t(1) by (rule rtranclp_trans)
    with t(2-8) EmEvent show ?thesis by (intro exI [of _ t]) simp
  next
    case (EmData d)
    let ?s1 = "s\<lparr>f_eng := xs @ ys, f_fwd := FHoldSt d\<rparr>"
    let ?s2 = "?s1\<lparr>f_stq := f_stq ?s1 @ [d], f_fwd := FLoop\<rparr>"
    let ?s3 = "?s2\<lparr>f_stq := [], f_got_st := f_got_st ?s2 @ [d]\<rparr>"
    have "fo_next\<^sup>*\<^sup>* s ?s1"
      using Cons.prems EmData by (intro fo_step_reach fo_step.fwd_recv_data) (simp_all add: quiet_def)
    also have "fo_next\<^sup>*\<^sup>* ?s1 ?s2"
      using Cons.prems by (intro fo_step_reach fo_step.fwd_send_data) (simp_all add: quiet_def)
    also have "fo_next\<^sup>*\<^sup>* ?s2 ?s3"
      using Cons.prems by (intro fo_step_reach fo_step.consume_data) (simp_all add: quiet_def)
    finally have r: "fo_next\<^sup>*\<^sup>* s ?s3" .
    have "quiet ?s3" using Cons.prems by (simp add: quiet_def)
    from Cons.IH [of ?s3] this Cons.prems(2) obtain t where t: "fo_next\<^sup>*\<^sup>* ?s3 t" "quiet t" "f_eng t = ys"
      "f_got_ev t = f_got_ev ?s3 @ ev_of xs" "f_got_st t = f_got_st ?s3 @ st_of xs"
      "f_ctx t = f_ctx s" "f_cap t = f_cap s" "f_err t = f_err s" by auto
    have "fo_next\<^sup>*\<^sup>* s t" using r t(1) by (rule rtranclp_trans)
    with t(2-8) EmData show ?thesis by (intro exI [of _ t]) simp
  qed
qed

lemma wind_down:
  assumes "f_pc s = ORun" "f_eng s = []" "f_evq s = []" "\<not> f_panic s" "0 < f_cap s"
    "\<not> f_ev_closed s" "\<not> f_st_closed s"
  shows "\<exists>t. fo_next\<^sup>*\<^sup>* s t \<and> f_pc t = OCloseSt \<and> f_ev_closed t \<and> \<not> f_st_closed t \<and> f_ctx t \<and>
           f_fwd t = f_fwd s \<and> \<not> f_panic t \<and> f_evq t = err_part (f_err s) \<and> f_stq t = f_stq s \<and>
           f_got_ev t = f_got_ev s \<and> f_got_st t = f_got_st s"
proof -
  obtain u where u: "fo_next\<^sup>*\<^sup>* s u" "f_pc u = OCancel" "f_evq u = err_part (f_err s)"
    "\<not> f_panic u" "\<not> f_ev_closed u" "\<not> f_st_closed u" "f_fwd u = f_fwd s" "f_stq u = f_stq s"
    "f_got_ev u = f_got_ev s" "f_got_st u = f_got_st s"
  proof (cases "f_err s")
    case None
    let ?u = "s\<lparr>f_pc := (case f_err s of None \<Rightarrow> OCancel | Some _ \<Rightarrow> OErr)\<rparr>"
    have "fo_next\<^sup>*\<^sup>* s ?u" using assms by (intro fo_step_reach fo_step.invoke_returns) simp_all
    with None assms show ?thesis by (intro that [of ?u]) (simp_all add: err_part_def)
  next
    case (Some m)
    let ?u1 = "s\<lparr>f_pc := (case f_err s of None \<Rightarrow> OCancel | Some _ \<Rightarrow> OErr)\<rparr>"
    let ?u = "?u1\<lparr>f_evq := f_evq ?u1 @ [error_event m], f_pc := OCancel\<rparr>"
    have "fo_next\<^sup>*\<^sup>* s ?u1" using assms by (intro fo_step_reach fo_step.invoke_returns) simp_all
    also have "fo_next\<^sup>*\<^sup>* ?u1 ?u" using assms Some by (intro fo_step_reach fo_step.report_error) simp_all
    finally show ?thesis using Some assms by (intro that [of ?u]) (simp_all add: err_part_def)
  qed
  let ?t1 = "u\<lparr>f_ctx := True, f_pc := OCloseEv\<rparr>"
  let ?t = "?t1\<lparr>f_ev_closed := True, f_pc := OCloseSt\<rparr>"
  note u(1)
  also have "fo_next\<^sup>*\<^sup>* u ?t1" using u by (intro fo_step_reach fo_step.defer_cancel) simp_all
  also have "fo_next\<^sup>*\<^sup>* ?t1 ?t" using u by (intro fo_step_reach fo_step.defer_close_events) simp_all
  finally show ?thesis using u by (intro exI [of _ ?t]) simp
qed

lemma consume_events:
  assumes "\<not> f_panic s"
  shows "\<exists>t. fo_next\<^sup>*\<^sup>* s t \<and> f_evq t = [] \<and> f_got_ev t = f_got_ev s @ f_evq s \<and> f_pc t = f_pc s \<and>
           \<not> f_panic t \<and> f_got_st t = f_got_st s \<and> f_st_closed t = f_st_closed s"
  using assms
proof (induction "f_evq s" arbitrary: s)
  case Nil
  then show ?case by (intro exI [of _ s]) simp
next
  case (Cons e q)
  let ?s1 = "s\<lparr>f_evq := q, f_got_ev := f_got_ev s @ [e]\<rparr>"
  have r: "fo_next\<^sup>*\<^sup>* s ?s1" using Cons by (intro fo_step_reach fo_step.consume_event) simp_all
  from Cons.hyps(1) [of ?s1] Cons.prems obtain t where t: "fo_next\<^sup>*\<^sup>* ?s1 t" "f_evq t = []"
    "f_got_ev t = f_got_ev ?s1 @ q" "f_pc t = f_pc s" "\<not> f_panic t" "f_got_st t = f_got_st s"
    "f_st_closed t = f_st_closed s" by auto
  have "fo_next\<^sup>*\<^sup>* s t" using r t(1) by (rule rtranclp_trans)
  with t(2-7) Cons.hyps(2) [symmetric] show ?case by (intro exI [of _ t]) simp
qed

lemma stream_start_quiet:
  "stream_start cfg src err = Some s0 \<Longrightarrow>
     quiet s0 \<and> f_eng s0 = src \<and> f_src s0 = src \<and> f_err s0 = err \<and> f_got_ev s0 = [] \<and> f_got_st s0 = [] \<and>
     \<not> f_ctx s0 \<and> f_cap s0 = nat (sc_buffer_size cfg)"
  by (auto simp: stream_start_def quiet_def split: if_splits)

text \<open>Holding the last event of the engine at the moment the outer goroutine has closed \<open>eventCh\<close>.\<close>

lemma hold_last_event_closed:
  assumes "stream_start cfg (xs @ [EmEvent e]) err = Some s0" and "0 < sc_buffer_size cfg"
  shows "\<exists>t. fo_next\<^sup>*\<^sup>* s0 t \<and> f_fwd t = FHoldEv e \<and> f_ev_closed t \<and> f_ctx t \<and> f_pc t = OCloseSt \<and>
           \<not> f_panic t \<and> f_got_ev t = ev_of xs \<and> f_evq t = err_part err \<and> \<not> f_st_closed t"
proof -
  from stream_start_quiet [OF assms(1)] assms(2)
  have q: "quiet s0" "0 < f_cap s0" "f_eng s0 = xs @ [EmEvent e]" and f: "f_err s0 = err" "f_got_ev s0 = []"
    by simp_all
  from forward_prefix [OF q] obtain t where t: "fo_next\<^sup>*\<^sup>* s0 t" "quiet t" "f_eng t = [EmEvent e]"
    "f_got_ev t = ev_of xs" "f_cap t = f_cap s0" "f_err t = err"
    using f by auto
  let ?t1 = "t\<lparr>f_eng := [], f_fwd := FHoldEv e\<rparr>"
  have r: "fo_next\<^sup>*\<^sup>* t ?t1" using t by (intro fo_step_reach fo_step.fwd_recv_event) (simp_all add: quiet_def)
  from wind_down [of ?t1] t q(2) obtain u where u: "fo_next\<^sup>*\<^sup>* ?t1 u" "f_pc u = OCloseSt" "f_ev_closed u"
    "\<not> f_st_closed u" "f_ctx u" "f_fwd u = FHoldEv e" "\<not> f_panic u" "f_evq u = err_part err"
    "f_got_ev u = ev_of xs"
    by (auto simp: quiet_def)
  with t(1) r show ?thesis by (intro exI [of _ u]) (auto intro: rtranclp_trans)
qed

lemma hung_step: "fo_step s s' \<Longrightarrow> hung s \<Longrightarrow> hung s'"
  by (induction rule: fo_step.induct) (auto simp: hung_def)

lemma hung_reach: "fo_next\<^sup>*\<^sup>* s s' \<Longrightarrow> hung s \<Longrightarrow> hung s'"
  by (induction rule: rtranclp_induct) (auto dest: fo_next_step hung_step)

section \<open>Properties\<close>

text \<open>C23: With a positive buffer size there is a schedule in which \<open>Stream\<close> delivers every value and event \<open>Invoke\<close> sends, in order and followed by the error event if \<open>Invoke\<close> failed, and closes both channels without a panic.\<close>

theorem stream_delivers_all:
  assumes "stream_start cfg src err = Some s0" and "0 < sc_buffer_size cfg"
  shows "\<exists>s. fo_next\<^sup>*\<^sup>* s0 s \<and> f_pc s = ODone \<and> \<not> f_panic s \<and>
           f_got_st s = st_of src \<and> f_got_ev s = ev_of src @ err_part err"
proof -
  from stream_start_quiet [OF assms(1)] assms(2)
  have q: "quiet s0" "0 < f_cap s0" "f_eng s0 = src @ []" and f: "f_err s0 = err" "f_got_ev s0 = []" "f_got_st s0 = []"
    by simp_all
  from forward_prefix [OF q] obtain t where t: "fo_next\<^sup>*\<^sup>* s0 t" "quiet t" "f_eng t = []"
    "f_got_ev t = ev_of src" "f_got_st t = st_of src" "f_cap t = f_cap s0" "f_err t = err"
    using f by auto
  from wind_down [of t] t q(2) obtain u where u: "fo_next\<^sup>*\<^sup>* t u" "f_pc u = OCloseSt" "\<not> f_panic u"
    "f_evq u = err_part err" "f_got_ev u = ev_of src" "f_got_st u = st_of src" "\<not> f_st_closed u"
    by (auto simp: quiet_def)
  from consume_events [OF u(3)] obtain v where v: "fo_next\<^sup>*\<^sup>* u v" "f_pc v = OCloseSt" "\<not> f_panic v"
    "f_got_ev v = ev_of src @ err_part err" "f_got_st v = st_of src"
    using u by auto
  let ?w = "v\<lparr>f_st_closed := True, f_pc := ODone\<rparr>"
  have "fo_next\<^sup>*\<^sup>* v ?w" using v by (intro fo_step_reach fo_step.defer_close_stream) simp_all
  with t(1) u(1) v show ?thesis by (intro exI [of _ ?w]) (auto intro: rtranclp_trans)
qed

text \<open>C24: In every execution of \<open>Stream\<close> the values the caller receives or finds buffered are the engine's values in the order sent, possibly with some left out; the same holds of events when \<open>Invoke\<close> succeeds.\<close>

theorem stream_data_in_order:
  assumes "stream_start cfg src err = Some s0" and "fo_next\<^sup>*\<^sup>* s0 s"
  shows "subseq (f_got_st s @ f_stq s) (st_of src) \<and> (err = None \<longrightarrow> subseq (f_got_ev s @ f_evq s) (ev_of src))"
proof -
  from stream_start_quiet [OF assms(1)]
  have d0: "data_pipeline s0 = st_of src" and e0: "event_pipeline s0 = ev_of src" and er: "f_err s0 = err"
    by (simp_all add: data_pipeline_def event_pipeline_def quiet_def)
  have "subseq (f_got_st s @ f_stq s) (data_pipeline s)"
    unfolding data_pipeline_def by (metis append.assoc subseq_append_right)
  with reach_data_subseq [OF assms(2)] d0 have "subseq (f_got_st s @ f_stq s) (st_of src)"
    by (metis subseq_order.trans)
  moreover have "subseq (f_got_ev s @ f_evq s) (ev_of src)" if "err = None"
  proof -
    have "subseq (f_got_ev s @ f_evq s) (event_pipeline s)"
      unfolding event_pipeline_def by (metis append.assoc subseq_append_right)
    with reach_event_subseq [OF assms(2)] e0 er that show ?thesis by (metis subseq_order.trans)
  qed
  ultimately show ?thesis by blast
qed

text \<open>C25: When the last send of \<open>Invoke\<close> is an event, \<open>Stream\<close> can panic with a send on a closed channel: the deferred \<open>cancel()\<close> and \<open>close(eventCh)\<close> run while the forwarder still holds that event, and its \<open>select\<close> may pick the send.\<close>

theorem stream_send_on_closed_panics:
  assumes "stream_start cfg (xs @ [EmEvent e]) err = Some s0" and "0 < sc_buffer_size cfg"
  shows "\<exists>s. fo_next\<^sup>*\<^sup>* s0 s \<and> f_panic s"
proof -
  from hold_last_event_closed [OF assms] obtain t where t: "fo_next\<^sup>*\<^sup>* s0 t" "f_fwd t = FHoldEv e"
    "f_ev_closed t" "\<not> f_panic t" by blast
  have "fo_next\<^sup>*\<^sup>* t (t\<lparr>f_panic := True\<rparr>)" using t by (intro fo_step_reach fo_step.fwd_send_event_closed) simp_all
  with t(1) show ?thesis by (intro exI [of _ "t\<lparr>f_panic := True\<rparr>"]) (auto intro: rtranclp_trans)
qed

text \<open>C26: In the same race the forwarder may pick \<open>ctx.Done()\<close> instead: \<open>Stream\<close> then completes without a panic but the caller never receives the last event (for a successful run, the final \<open>on_chain_end\<close> event of \<open>Invoke\<close>).\<close>

theorem stream_drops_last_event:
  assumes "stream_start cfg (xs @ [EmEvent e]) err = Some s0" and "0 < sc_buffer_size cfg"
  shows "\<exists>s. fo_next\<^sup>*\<^sup>* s0 s \<and> f_pc s = ODone \<and> f_fwd s = FExit \<and> \<not> f_panic s \<and>
           f_got_ev s @ f_evq s = ev_of xs @ err_part err"
proof -
  from hold_last_event_closed [OF assms] obtain t where t: "fo_next\<^sup>*\<^sup>* s0 t" "f_fwd t = FHoldEv e"
    "f_ctx t" "f_pc t = OCloseSt" "\<not> f_panic t" "f_got_ev t = ev_of xs" "f_evq t = err_part err" by blast
  let ?t1 = "t\<lparr>f_fwd := FExit\<rparr>"
  let ?t2 = "?t1\<lparr>f_st_closed := True, f_pc := ODone\<rparr>"
  note t(1)
  also have "fo_next\<^sup>*\<^sup>* t ?t1" using t by (intro fo_step_reach fo_step.fwd_done) simp_all
  also have "fo_next\<^sup>*\<^sup>* ?t1 ?t2" using t by (intro fo_step_reach fo_step.defer_close_stream) simp_all
  finally show ?thesis using t by (intro exI [of _ ?t2]) simp
qed

text \<open>C27: When \<open>Invoke\<close> fails, the synthetic error event can reach the caller before the last event \<open>Invoke\<close> sent, so it is not necessarily the terminal event of the stream.\<close>

theorem stream_error_event_overtakes:
  assumes "stream_start cfg (xs @ [EmEvent e]) (Some m) = Some s0" and "1 < sc_buffer_size cfg"
  shows "\<exists>s. fo_next\<^sup>*\<^sup>* s0 s \<and> f_got_ev s = ev_of xs \<and> f_evq s = [error_event m, e]"
proof -
  from stream_start_quiet [OF assms(1)] assms(2)
  have q: "quiet s0" "0 < f_cap s0" "f_eng s0 = xs @ [EmEvent e]" and f: "f_err s0 = Some m" "f_got_ev s0 = []"
    "1 < f_cap s0"
    by simp_all
  from forward_prefix [OF q] obtain t where t: "fo_next\<^sup>*\<^sup>* s0 t" "quiet t" "f_eng t = [EmEvent e]"
    "f_got_ev t = ev_of xs" "f_cap t = f_cap s0" "f_err t = Some m"
    using f by auto
  let ?t1 = "t\<lparr>f_eng := [], f_fwd := FHoldEv e\<rparr>"
  let ?t2 = "?t1\<lparr>f_pc := (case f_err ?t1 of None \<Rightarrow> OCancel | Some _ \<Rightarrow> OErr)\<rparr>"
  let ?t3 = "?t2\<lparr>f_evq := f_evq ?t2 @ [error_event m], f_pc := OCancel\<rparr>"
  let ?t4 = "?t3\<lparr>f_evq := f_evq ?t3 @ [e], f_fwd := FLoop\<rparr>"
  note t(1)
  also have "fo_next\<^sup>*\<^sup>* t ?t1" using t by (intro fo_step_reach fo_step.fwd_recv_event) (simp_all add: quiet_def)
  also have "fo_next\<^sup>*\<^sup>* ?t1 ?t2" using t by (intro fo_step_reach fo_step.invoke_returns) (simp_all add: quiet_def)
  also have "fo_next\<^sup>*\<^sup>* ?t2 ?t3" using t f by (intro fo_step_reach fo_step.report_error) (simp_all add: quiet_def)
  also have "fo_next\<^sup>*\<^sup>* ?t3 ?t4" using t f by (intro fo_step_reach fo_step.fwd_send_event) (simp_all add: quiet_def)
  finally show ?thesis using t by (intro exI [of _ ?t4]) (simp add: quiet_def)
qed

text \<open>C28: If the caller cancels the context while \<open>Invoke\<close> still has sends to make, the forwarder returns and \<open>Invoke\<close> blocks forever on its next send: the outer goroutine never finishes and neither output channel is ever closed.\<close>

theorem stream_cancel_hangs:
  assumes "stream_start cfg (x # xs) err = Some s0"
  shows "\<exists>s. fo_next\<^sup>*\<^sup>* s0 s \<and>
           (\<forall>s'. fo_next\<^sup>*\<^sup>* s s' \<longrightarrow> f_pc s' = ORun \<and> \<not> f_ev_closed s' \<and> \<not> f_st_closed s')"
proof -
  from stream_start_quiet [OF assms] have q: "quiet s0" "f_eng s0 = x # xs" by simp_all
  let ?s1 = "s0\<lparr>f_ctx := True\<rparr>"
  let ?s2 = "?s1\<lparr>f_fwd := FExit\<rparr>"
  have "fo_next\<^sup>*\<^sup>* s0 ?s1" using q by (intro fo_step_reach fo_step.parent_cancel) (simp add: quiet_def)
  also have "fo_next\<^sup>*\<^sup>* ?s1 ?s2" using q by (intro fo_step_reach fo_step.fwd_done) (simp_all add: quiet_def)
  finally have r: "fo_next\<^sup>*\<^sup>* s0 ?s2" .
  have "hung ?s2" using q by (simp add: hung_def quiet_def)
  with r show ?thesis by (intro exI [of _ ?s2]) (auto dest: hung_reach simp: hung_def)
qed

end
