(* ===== verification/ExampleMain.thy ===== *)
theory ExampleMain
  imports Examples Fanout
begin

text \<open>
  The \<open>main\<close> functions of the examples around the graph and its nodes. Of
  \<open>src/examples/graph/main.go\<close>: the two agents it builds (lines 44--64), the call of
  \<open>Stream\<close> (lines 154--161), and the goroutine that consumes the two output channels
  until the run's final \<open>on_chain_end\<close> event or a closed channel, while \<open>main\<close> waits for
  it (lines 163--217). Of \<open>src/examples/basic/main.go\<close>: the agents it builds (lines
  39--59; the rest of that \<open>main\<close> is commented out). Loading \<open>.env\<close> and building the
  logger are not modelled; \<open>logger.Fatal\<close> ends the program, the result \<open>None\<close>. A log
  line is the value of type \<open>ex_log\<close> it shows.
\<close>

section \<open>The agents\<close>

definition math_system_message :: string where
  "math_system_message =
     ''You are a math expert. Use the calculator tool to perform calculations. '' @
     ''Always explain your reasoning and show your work.''"

definition poet_system_message :: string where
  "poet_system_message =
     ''You are a creative poet. When given a number, create a beautiful and '' @
     ''meaningful poem that incorporates that number in a creative way.''"

text \<open>The graph example's math expert and poet; \<open>Configure\<close>'s error is ignored.\<close>

definition example_agents ::
  "(real \<Rightarrow> string) \<Rightarrow> (dyn list \<Rightarrow> string) \<Rightarrow> (string \<Rightarrow> real option) \<Rightarrow> string \<Rightarrow>
   (openai_agent \<times> openai_agent) option" where
  "example_agents fmtv fmtl parse api_key =
     (if api_key = '''' then None
      else
        (let math = fst (configure [(''model'', DString ''gpt-4o-mini''),
                                    (''system_message'', DString math_system_message)]
                       (add_tool (calculator_tool fmtv fmtl parse) (new_openai_agent ''math_expert'')));
             poet = fst (configure [(''model'', DString ''gpt-4o-mini''),
                                    (''system_message'', DString poet_system_message)]
                       (new_openai_agent ''poet''))
         in Some (math, poet)))"

text \<open>The basic example's math expert and assistant.\<close>

definition basic_agents ::
  "(real \<Rightarrow> string) \<Rightarrow> (dyn list \<Rightarrow> string) \<Rightarrow> (string \<Rightarrow> real option) \<Rightarrow> string \<Rightarrow>
   (openai_agent \<times> openai_agent) option" where
  "basic_agents fmtv fmtl parse api_key =
     (if api_key = '''' then None
      else
        (let math = fst (configure [(''model'', DString ''gpt-4o-mini'')]
                       (add_tool (calculator_tool fmtv fmtl parse) (new_openai_agent ''math_expert'')));
             assistant = fst (configure [(''model'', DString ''gpt-3.5-turbo'')] (new_openai_agent ''assistant''))
         in Some (math, assistant)))"

section \<open>The consumer of the stream\<close>

datatype ex_log = LogEvent event_type string metadata | LogResult real | LogPoem string

text \<open>
  What the consumer logs for a stream value: the result and the poem of a state in
  values mode, when set. In messages mode the code asserts the data to
  \<open>core.Message\<close>; the engine sends states only (the data is of the state type here),
  so that assertion fails and nothing is logged.
\<close>

definition ex_log_data :: "ex_state stream_event \<Rightarrow> ex_log list" where
  "ex_log_data d =
     (case se_mode d of
        StreamValues \<Rightarrow>
          (if ex_result (se_data d) \<noteq> 0 then [LogResult (ex_result (se_data d))] else []) @
          (if ex_poem (se_data d) \<noteq> '''' then [LogPoem (ex_poem (se_data d))] else [])
      | _ \<Rightarrow> [])"

definition ex_log_event :: "event \<Rightarrow> ex_log" where
  "ex_log_event e = LogEvent (ev_type e) (ev_name e) (ev_metadata e)"

definition ex_stop_event :: "event \<Rightarrow> bool" where
  "ex_stop_event e \<longleftrightarrow> ev_type e = EventChainEnd \<and> ev_name e = ''LangGraph''"

text \<open>
  The program: the fan-out of \<open>Stream\<close>, whether the consumer goroutine is still in its
  loop (once it returns it closes \<open>done\<close>, and \<open>main\<close> returns, ending the program), and
  the log.
\<close>

record ex_main =
  em_fan :: "ex_state fanout"
  em_loop :: bool
  em_log :: "ex_log list"

definition example_stream :: "ex_state emission list \<Rightarrow> string option \<Rightarrow> ex_main option" where
  "example_stream src err =
     map_option (\<lambda>s. \<lparr>em_fan = s, em_loop = True, em_log = []\<rparr>) (stream_start example_config src err)"

text \<open>
  A step of the program while the consumer runs: a step of \<open>Stream\<close>'s goroutines that
  is not a receive by the caller, or one case of the consumer's \<open>select\<close>. The context
  is \<open>context.Background()\<close>, which is never done: the context \<open>Stream\<close> derives from it
  is done only once its deferred \<open>cancel()\<close> has run (the fan-out moves on to closing the
  event channel), never by a cancellation of the caller.
\<close>

inductive ex_step :: "ex_main \<Rightarrow> ex_main \<Rightarrow> bool" where
  ex_fanout:
    "em_loop m \<Longrightarrow> fo_next (em_fan m) s' \<Longrightarrow> f_got_ev s' = f_got_ev (em_fan m) \<Longrightarrow>
     f_got_st s' = f_got_st (em_fan m) \<Longrightarrow> f_ctx s' = f_ctx (em_fan m) \<or> f_pc s' = OCloseEv \<Longrightarrow>
     ex_step m (m\<lparr>em_fan := s'\<rparr>)"
| ex_recv_event:
    "em_loop m \<Longrightarrow> \<not> f_panic (em_fan m) \<Longrightarrow> f_evq (em_fan m) = e # q \<Longrightarrow>
     ex_step m \<lparr>em_fan = (em_fan m)\<lparr>f_evq := q, f_got_ev := f_got_ev (em_fan m) @ [e]\<rparr>,
                em_loop = \<not> ex_stop_event e, em_log = em_log m @ [ex_log_event e]\<rparr>"
| ex_recv_event_closed:
    "em_loop m \<Longrightarrow> \<not> f_panic (em_fan m) \<Longrightarrow> f_evq (em_fan m) = [] \<Longrightarrow> f_ev_closed (em_fan m) \<Longrightarrow>
     ex_step m (m\<lparr>em_loop := False\<rparr>)"
| ex_recv_data:
    "em_loop m \<Longrightarrow> \<not> f_panic (em_fan m) \<Longrightarrow> f_stq (em_fan m) = d # q \<Longrightarrow>
     ex_step m (m\<lparr>em_fan := (em_fan m)\<lparr>f_stq := q, f_got_st := f_got_st (em_fan m) @ [d]\<rparr>,
                  em_log := em_log m @ ex_log_data d\<rparr>)"
| ex_recv_data_closed:
    "em_loop m \<Longrightarrow> \<not> f_panic (em_fan m) \<Longrightarrow> f_stq (em_fan m) = [] \<Longrightarrow> f_st_closed (em_fan m) \<Longrightarrow>
     ex_step m (m\<lparr>em_loop := False\<rparr>)"

text \<open>The final state of the example's run when both agents answer (theorem \<open>Examples.example_run\<close>).\<close>

definition example_final :: "(real \<Rightarrow> string) \<Rightarrow> string \<Rightarrow> string \<Rightarrow> ex_state" where
  "example_final fmtv a1 p =
     \<lparr>ex_messages = [\<lparr>msg_role = RoleUser, msg_content = calc_prompt\<rparr>,
                     \<lparr>msg_role = RoleAssistant, msg_content = a1\<rparr>,
                     \<lparr>msg_role = RoleUser, msg_content = ''Create a short, beautiful poem that incorporates the number '' @ fmtv 55\<rparr>,
                     \<lparr>msg_role = RoleAssistant, msg_content = p\<rparr>],
      ex_result = 55, ex_poem = p\<rparr>"

text \<open>What the consumer logs for a send of the engine that it receives.\<close>

fun ex_log_em :: "ex_state emission \<Rightarrow> ex_log list" where
  "ex_log_em (EmEvent e) = [ex_log_event e]"
| "ex_log_em (EmData d) = ex_log_data d"

section \<open>Lemmas\<close>

lemma example_stream_start:
  "example_stream src err = Some m0 \<Longrightarrow>
     quiet (em_fan m0) \<and> f_eng (em_fan m0) = src \<and> f_cap (em_fan m0) = 100 \<and> em_loop m0 \<and> em_log m0 = []"
  using stream_start_quiet [of example_config src err]
  by (auto simp: example_stream_def example_config_def)

lemma ex_fanout_reach:
  "em_loop m \<Longrightarrow> fo_step (em_fan m) s' \<Longrightarrow> \<not> f_panic (em_fan m) \<Longrightarrow> f_got_ev s' = f_got_ev (em_fan m) \<Longrightarrow>
   f_got_st s' = f_got_st (em_fan m) \<Longrightarrow> f_ctx s' = f_ctx (em_fan m) \<Longrightarrow> ex_step\<^sup>*\<^sup>* m (m\<lparr>em_fan := s'\<rparr>)"
  by (rule r_into_rtranclp, rule ex_step.ex_fanout) (simp_all add: fo_next_def)

lemma ex_forward_one:
  assumes "quiet (em_fan m)" and "0 < f_cap (em_fan m)" and "f_eng (em_fan m) = x # ys" and "em_loop m"
    and "\<not> list_ex ex_stop_event (ev_of [x])"
  shows "\<exists>m'. ex_step\<^sup>*\<^sup>* m m' \<and> quiet (em_fan m') \<and> em_loop m' \<and> f_eng (em_fan m') = ys \<and>
           f_cap (em_fan m') = f_cap (em_fan m) \<and> em_log m' = em_log m @ ex_log_em x"
proof (cases x)
  case (EmEvent e)
  define s1 where "s1 = (em_fan m)\<lparr>f_eng := ys, f_fwd := FHoldEv e\<rparr>"
  define s2 where "s2 = s1\<lparr>f_evq := [e], f_fwd := FLoop\<rparr>"
  define m3 where "m3 = \<lparr>em_fan = s2\<lparr>f_evq := [], f_got_ev := f_got_ev s2 @ [e]\<rparr>,
                         em_loop = \<not> ex_stop_event e, em_log = em_log (m\<lparr>em_fan := s2\<rparr>) @ [ex_log_event e]\<rparr>"
  have "ex_step\<^sup>*\<^sup>* m (m\<lparr>em_fan := s1\<rparr>)"
    using assms EmEvent unfolding s1_def by (intro ex_fanout_reach fo_step.fwd_recv_event) (simp_all add: quiet_def)
  also have "fo_step s1 s2"
    using fo_step.fwd_send_event [of s1 e] assms unfolding s1_def s2_def by (simp add: quiet_def)
  then have "ex_step\<^sup>*\<^sup>* (m\<lparr>em_fan := s1\<rparr>) (m\<lparr>em_fan := s2\<rparr>)"
    using assms ex_fanout_reach [of "m\<lparr>em_fan := s1\<rparr>" s2] unfolding s1_def s2_def by (simp add: quiet_def)
  also have "ex_step\<^sup>*\<^sup>* (m\<lparr>em_fan := s2\<rparr>) m3"
  proof -
    have "ex_step (m\<lparr>em_fan := s2\<rparr>) \<lparr>em_fan = s2\<lparr>f_evq := [], f_got_ev := f_got_ev s2 @ [e]\<rparr>,
            em_loop = \<not> ex_stop_event e, em_log = em_log (m\<lparr>em_fan := s2\<rparr>) @ [ex_log_event e]\<rparr>"
      using ex_step.ex_recv_event [of "m\<lparr>em_fan := s2\<rparr>" e "[]"] assms by (simp add: s1_def s2_def quiet_def)
    then show ?thesis unfolding m3_def by simp
  qed
  finally show ?thesis using assms EmEvent
    by (intro exI [of _ m3]) (simp add: m3_def s1_def s2_def quiet_def)
next
  case (EmData d)
  define s1 where "s1 = (em_fan m)\<lparr>f_eng := ys, f_fwd := FHoldSt d\<rparr>"
  define s2 where "s2 = s1\<lparr>f_stq := [d], f_fwd := FLoop\<rparr>"
  define m3 where "m3 = \<lparr>em_fan = s2\<lparr>f_stq := [], f_got_st := f_got_st s2 @ [d]\<rparr>,
                         em_loop = True, em_log = em_log m @ ex_log_data d\<rparr>"
  have "ex_step\<^sup>*\<^sup>* m (m\<lparr>em_fan := s1\<rparr>)"
    using assms EmData unfolding s1_def by (intro ex_fanout_reach fo_step.fwd_recv_data) (simp_all add: quiet_def)
  also have "fo_step s1 s2"
    using fo_step.fwd_send_data [of s1 d] assms unfolding s1_def s2_def by (simp add: quiet_def)
  then have "ex_step\<^sup>*\<^sup>* (m\<lparr>em_fan := s1\<rparr>) (m\<lparr>em_fan := s2\<rparr>)"
    using assms ex_fanout_reach [of "m\<lparr>em_fan := s1\<rparr>" s2] unfolding s1_def s2_def by (simp add: quiet_def)
  also have "ex_step\<^sup>*\<^sup>* (m\<lparr>em_fan := s2\<rparr>) m3"
  proof -
    have "ex_step (m\<lparr>em_fan := s2\<rparr>) ((m\<lparr>em_fan := s2\<rparr>)\<lparr>em_fan := s2\<lparr>f_stq := [], f_got_st := f_got_st s2 @ [d]\<rparr>,
            em_log := em_log m @ ex_log_data d\<rparr>)"
      using ex_step.ex_recv_data [of "m\<lparr>em_fan := s2\<rparr>" d "[]"] assms by (simp add: s1_def s2_def quiet_def)
    moreover have "(m\<lparr>em_fan := s2\<rparr>)\<lparr>em_fan := s2\<lparr>f_stq := [], f_got_st := f_got_st s2 @ [d]\<rparr>,
            em_log := em_log m @ ex_log_data d\<rparr> = m3"
      using assms(4) unfolding m3_def by (cases m) simp
    ultimately show ?thesis by simp
  qed
  finally show ?thesis using assms EmData
    by (intro exI [of _ m3]) (simp add: m3_def s1_def s2_def quiet_def)
qed

lemma ex_forward_prefix:
  assumes "quiet (em_fan m)" and "0 < f_cap (em_fan m)" and "f_eng (em_fan m) = xs @ ys" and "em_loop m"
    and "\<not> list_ex ex_stop_event (ev_of xs)"
  shows "\<exists>m'. ex_step\<^sup>*\<^sup>* m m' \<and> quiet (em_fan m') \<and> em_loop m' \<and> f_eng (em_fan m') = ys \<and>
           f_cap (em_fan m') = f_cap (em_fan m) \<and> em_log m' = em_log m @ concat (map ex_log_em xs)"
  using assms
proof (induction xs arbitrary: m)
  case Nil
  then show ?case by (intro exI [of _ m]) simp
next
  case (Cons x xs)
  have "\<not> list_ex ex_stop_event (ev_of [x])" "\<not> list_ex ex_stop_event (ev_of xs)"
    using Cons.prems(5) by (cases x; simp)+
  with Cons.prems obtain m1 where m1: "ex_step\<^sup>*\<^sup>* m m1" "quiet (em_fan m1)" "em_loop m1"
    "f_eng (em_fan m1) = xs @ ys" "f_cap (em_fan m1) = f_cap (em_fan m)" "em_log m1 = em_log m @ ex_log_em x"
    using ex_forward_one [of m x "xs @ ys"] by auto
  with Cons.IH [of m1] Cons.prems(2) \<open>\<not> list_ex ex_stop_event (ev_of xs)\<close> obtain m' where
    "ex_step\<^sup>*\<^sup>* m1 m'" "quiet (em_fan m')" "em_loop m'" "f_eng (em_fan m') = ys"
    "f_cap (em_fan m') = f_cap (em_fan m)" "em_log m' = em_log m1 @ concat (map ex_log_em xs)"
    by auto
  with m1 show ?case by (intro exI [of _ m']) (auto intro: rtranclp_trans)
qed

lemma ex_enqueue:
  assumes "f_pc (em_fan m) = ORun" and "f_fwd (em_fan m) = FLoop" and "f_eng (em_fan m) = x # ys"
    and "\<not> f_panic (em_fan m)" and "\<not> f_ev_closed (em_fan m)" and "\<not> f_st_closed (em_fan m)"
    and "length (f_evq (em_fan m)) < f_cap (em_fan m)" and "length (f_stq (em_fan m)) < f_cap (em_fan m)"
    and "em_loop m"
  shows "ex_step\<^sup>*\<^sup>* m (m\<lparr>em_fan := (em_fan m)\<lparr>f_eng := ys, f_fwd := FLoop, f_evq := f_evq (em_fan m) @ ev_of [x],
                                                f_stq := f_stq (em_fan m) @ st_of [x]\<rparr>\<rparr>)"
proof (cases x)
  case (EmEvent e)
  define s1 where "s1 = (em_fan m)\<lparr>f_eng := ys, f_fwd := FHoldEv e\<rparr>"
  have "ex_step\<^sup>*\<^sup>* m (m\<lparr>em_fan := s1\<rparr>)"
    using assms EmEvent unfolding s1_def by (intro ex_fanout_reach fo_step.fwd_recv_event) simp_all
  also have "fo_step s1 (s1\<lparr>f_evq := f_evq s1 @ [e], f_fwd := FLoop\<rparr>)"
    using assms unfolding s1_def by (intro fo_step.fwd_send_event) simp_all
  then have "ex_step\<^sup>*\<^sup>* (m\<lparr>em_fan := s1\<rparr>) (m\<lparr>em_fan := s1\<lparr>f_evq := f_evq s1 @ [e], f_fwd := FLoop\<rparr>\<rparr>)"
    using assms ex_fanout_reach [of "m\<lparr>em_fan := s1\<rparr>"] unfolding s1_def by simp
  finally have r: "ex_step\<^sup>*\<^sup>* m (m\<lparr>em_fan := s1\<lparr>f_evq := f_evq s1 @ [e], f_fwd := FLoop\<rparr>\<rparr>)" .
  have "s1\<lparr>f_evq := f_evq s1 @ [e], f_fwd := FLoop\<rparr> =
        (em_fan m)\<lparr>f_eng := ys, f_fwd := FLoop, f_evq := f_evq (em_fan m) @ ev_of [x],
                   f_stq := f_stq (em_fan m) @ st_of [x]\<rparr>"
    unfolding s1_def using EmEvent by (cases "em_fan m") simp
  with r show ?thesis by simp
next
  case (EmData d)
  define s1 where "s1 = (em_fan m)\<lparr>f_eng := ys, f_fwd := FHoldSt d\<rparr>"
  have "ex_step\<^sup>*\<^sup>* m (m\<lparr>em_fan := s1\<rparr>)"
    using assms EmData unfolding s1_def by (intro ex_fanout_reach fo_step.fwd_recv_data) simp_all
  also have "fo_step s1 (s1\<lparr>f_stq := f_stq s1 @ [d], f_fwd := FLoop\<rparr>)"
    using assms unfolding s1_def by (intro fo_step.fwd_send_data) simp_all
  then have "ex_step\<^sup>*\<^sup>* (m\<lparr>em_fan := s1\<rparr>) (m\<lparr>em_fan := s1\<lparr>f_stq := f_stq s1 @ [d], f_fwd := FLoop\<rparr>\<rparr>)"
    using assms ex_fanout_reach [of "m\<lparr>em_fan := s1\<rparr>"] unfolding s1_def by simp
  finally have r: "ex_step\<^sup>*\<^sup>* m (m\<lparr>em_fan := s1\<lparr>f_stq := f_stq s1 @ [d], f_fwd := FLoop\<rparr>\<rparr>)" .
  have "s1\<lparr>f_stq := f_stq s1 @ [d], f_fwd := FLoop\<rparr> =
        (em_fan m)\<lparr>f_eng := ys, f_fwd := FLoop, f_evq := f_evq (em_fan m) @ ev_of [x],
                   f_stq := f_stq (em_fan m) @ st_of [x]\<rparr>"
    unfolding s1_def using EmData by (cases "em_fan m") simp
  with r show ?thesis by simp
qed

text \<open>The same, field by field.\<close>

lemma ex_enqueue_fields:
  assumes "f_pc (em_fan m) = ORun" and "f_fwd (em_fan m) = FLoop" and "f_eng (em_fan m) = x # ys"
    and "\<not> f_panic (em_fan m)" and "\<not> f_ev_closed (em_fan m)" and "\<not> f_st_closed (em_fan m)"
    and "length (f_evq (em_fan m)) < f_cap (em_fan m)" and "length (f_stq (em_fan m)) < f_cap (em_fan m)"
    and "em_loop m"
  shows "\<exists>m'. ex_step\<^sup>*\<^sup>* m m' \<and> f_pc (em_fan m') = ORun \<and> f_fwd (em_fan m') = FLoop \<and> f_eng (em_fan m') = ys \<and>
           \<not> f_panic (em_fan m') \<and> \<not> f_ev_closed (em_fan m') \<and> \<not> f_st_closed (em_fan m') \<and>
           f_evq (em_fan m') = f_evq (em_fan m) @ ev_of [x] \<and> f_stq (em_fan m') = f_stq (em_fan m) @ st_of [x] \<and>
           f_cap (em_fan m') = f_cap (em_fan m) \<and> f_got_ev (em_fan m') = f_got_ev (em_fan m) \<and>
           em_loop m' \<and> em_log m' = em_log m"
proof -
  let ?m' = "m\<lparr>em_fan := (em_fan m)\<lparr>f_eng := ys, f_fwd := FLoop, f_evq := f_evq (em_fan m) @ ev_of [x],
                                      f_stq := f_stq (em_fan m) @ st_of [x]\<rparr>\<rparr>"
  show ?thesis using ex_enqueue [OF assms] assms by (intro exI [of _ ?m']) simp
qed

text \<open>The consumer receives the event at the head of \<open>eventCh\<close>.\<close>

lemma ex_recv_event_fields:
  assumes "em_loop m" and "\<not> f_panic (em_fan m)" and "f_evq (em_fan m) = e # q"
  shows "\<exists>m'. ex_step\<^sup>*\<^sup>* m m' \<and> em_loop m' = (\<not> ex_stop_event e) \<and> em_log m' = em_log m @ [ex_log_event e] \<and>
           f_stq (em_fan m') = f_stq (em_fan m)"
proof -
  let ?m' = "\<lparr>em_fan = (em_fan m)\<lparr>f_evq := q, f_got_ev := f_got_ev (em_fan m) @ [e]\<rparr>,
              em_loop = \<not> ex_stop_event e, em_log = em_log m @ [ex_log_event e]\<rparr>"
  show ?thesis using ex_step.ex_recv_event [OF assms] by (intro exI [of _ ?m']) simp
qed

lemma example_math_expert:
  assumes "example_agents fmtv fmtl parse key = Some (math, poet)"
  shows "ag_tools math = [calculator_tool fmtv fmtl parse] \<and> fm_index (ag_config math) ''model'' = DString ''gpt-4o-mini''"
  using assms by (auto simp: example_agents_def Let_def configure_def go_lookup_def add_tool_def
                             new_openai_agent_def fm_index_def split: if_splits)

lemma calculator_args_checked:
  assumes "{''operation'', ''a''} \<subseteq> fst ` set args"
  shows "validate ord new_calculator args = check_fields (the (as_map (fm_index (t_schema new_calculator) ''properties''))) args"
proof -
  have "check_required (map_range ord (required_fields new_calculator)) args = None"
    using assms by (simp add: check_required_None_iff calculator_required)
  then show ?thesis by (simp add: validate_def calculator_eval)
qed

lemma exit_race_schedules:
  assumes "example_stream (xs @ [EmData d, EmEvent e]) None = Some m0"
    and "ex_stop_event e" and "\<not> list_ex ex_stop_event (ev_of xs)"
  shows "(\<exists>m. ex_step\<^sup>*\<^sup>* m0 m \<and> \<not> em_loop m \<and> f_stq (em_fan m) = [d] \<and>
             em_log m = concat (map ex_log_em xs) @ [ex_log_event e]) \<and>
         (\<exists>m. ex_step\<^sup>*\<^sup>* m0 m \<and> \<not> em_loop m \<and>
             em_log m = concat (map ex_log_em xs) @ ex_log_data d @ [ex_log_event e])"
proof
  note m0 = example_stream_start [OF assms(1)]
  obtain m1 where m1: "ex_step\<^sup>*\<^sup>* m0 m1" "quiet (em_fan m1)" "em_loop m1"
    "f_eng (em_fan m1) = [EmData d, EmEvent e]" "f_cap (em_fan m1) = 100"
    "em_log m1 = concat (map ex_log_em xs)"
    using ex_forward_prefix [of m0 xs "[EmData d, EmEvent e]"] m0 assms(3) by auto
  obtain m2 where m2: "ex_step\<^sup>*\<^sup>* m1 m2" "f_pc (em_fan m2) = ORun" "f_fwd (em_fan m2) = FLoop"
    "f_eng (em_fan m2) = [EmEvent e]" "\<not> f_panic (em_fan m2)" "\<not> f_ev_closed (em_fan m2)" "\<not> f_st_closed (em_fan m2)"
    "f_evq (em_fan m2) = []" "f_stq (em_fan m2) = [d]" "f_cap (em_fan m2) = 100" "em_loop m2" "em_log m2 = em_log m1"
    using ex_enqueue_fields [of m1 "EmData d" "[EmEvent e]"] m1 by (auto simp: quiet_def)
  obtain m3 where m3: "ex_step\<^sup>*\<^sup>* m2 m3" "\<not> f_panic (em_fan m3)"
    "f_evq (em_fan m3) = [e]" "f_stq (em_fan m3) = [d]" "em_loop m3" "em_log m3 = em_log m2"
    using ex_enqueue_fields [of m2 "EmEvent e" "[]"] m2 by auto
  obtain m4 where m4: "ex_step\<^sup>*\<^sup>* m3 m4" "\<not> em_loop m4" "em_log m4 = em_log m3 @ [ex_log_event e]"
    "f_stq (em_fan m4) = [d]"
    using ex_recv_event_fields [of m3 e "[]"] m3 assms(2) by auto
  have "ex_step\<^sup>*\<^sup>* m0 m4" using m1(1) m2(1) m3(1) m4(1) by (meson rtranclp_trans)
  with m4 m3(6) m2(12) m1(6) show "\<exists>m. ex_step\<^sup>*\<^sup>* m0 m \<and> \<not> em_loop m \<and> f_stq (em_fan m) = [d] \<and>
             em_log m = concat (map ex_log_em xs) @ [ex_log_event e]"
    by auto
next
  note m0 = example_stream_start [OF assms(1)]
  obtain m1 where m1: "ex_step\<^sup>*\<^sup>* m0 m1" "quiet (em_fan m1)" "em_loop m1"
    "f_eng (em_fan m1) = [EmEvent e]" "f_cap (em_fan m1) = 100"
    "em_log m1 = concat (map ex_log_em (xs @ [EmData d]))"
    using ex_forward_prefix [of m0 "xs @ [EmData d]" "[EmEvent e]"] m0 assms(3) by auto
  obtain m2 where m2: "ex_step\<^sup>*\<^sup>* m1 m2" "\<not> f_panic (em_fan m2)"
    "f_evq (em_fan m2) = [e]" "em_loop m2" "em_log m2 = em_log m1"
    using ex_enqueue_fields [of m1 "EmEvent e" "[]"] m1 by (auto simp: quiet_def)
  obtain m3 where m3: "ex_step\<^sup>*\<^sup>* m2 m3" "\<not> em_loop m3" "em_log m3 = em_log m2 @ [ex_log_event e]"
    using ex_recv_event_fields [of m2 e "[]"] m2 assms(2) by auto
  have "ex_step\<^sup>*\<^sup>* m0 m3" using m1(1) m2(1) m3(1) by (meson rtranclp_trans)
  with m3 m2(5) m1(6) show "\<exists>m. ex_step\<^sup>*\<^sup>* m0 m \<and> \<not> em_loop m \<and>
             em_log m = concat (map ex_log_em xs) @ ex_log_data d @ [ex_log_event e]"
    by auto
qed

text \<open>The sends of the example's run when both agents answer, and its outcome.\<close>

lemma example_sent:
  assumes "math \<lparr>msg_role = RoleUser, msg_content = calc_prompt\<rparr> = Inr \<lparr>msg_role = RoleAssistant, msg_content = ans\<rparr>"
    and "poet \<lparr>msg_role = RoleUser,
               msg_content = ''Create a short, beautiful poem that incorporates the number '' @ fmtv 55\<rparr> =
           Inr \<lparr>msg_role = RoleAssistant, msg_content = p\<rparr>"
  shows "sent (g_streamer (r_graph (fst (invoke c \<lparr>rs_graph = example_graph fmtv math poet\<rparr> cs example_initial)))) =
           [EmData \<lparr>se_mode = StreamValues, se_data = example_initial\<rparr>, EmEvent (run_event EventChainStart),
            EmEvent (node_event EventChainStart ''calculate'' 0), EmEvent (node_event EventChainEnd ''calculate'' 0),
            EmEvent (node_event EventChainStart ''write_poem'' 1), EmEvent (node_event EventChainEnd ''write_poem'' 1),
            EmData \<lparr>se_mode = StreamValues, se_data = example_final fmtv ans p\<rparr>, EmEvent (run_event EventChainEnd)] \<and>
         snd (invoke c \<lparr>rs_graph = example_graph fmtv math poet\<rparr> cs example_initial) = Done (example_final fmtv ans p)"
  using assms by (simp add: run_eval example_eval example_final_def cong: step_result.case_cong_weak)

section \<open>Properties\<close>

text \<open>C13: End to end, the graph example can end without logging the poem: when both agents answer with a non-empty poem, the run succeeds, the sends \<open>Invoke\<close> makes end with the final state and the run's \<open>on_chain_end\<close> event, and with these sends forwarded by \<open>Stream\<close> there is a schedule in which the consumer returns and \<open>main\<close> exits with the poem never logged, and one in which it is logged.\<close>

theorem example_may_exit_without_poem:
  assumes "math \<lparr>msg_role = RoleUser, msg_content = calc_prompt\<rparr> = Inr \<lparr>msg_role = RoleAssistant, msg_content = ans\<rparr>"
    and "poet \<lparr>msg_role = RoleUser,
               msg_content = ''Create a short, beautiful poem that incorporates the number '' @ fmtv 55\<rparr> =
           Inr \<lparr>msg_role = RoleAssistant, msg_content = p\<rparr>"
    and "p \<noteq> ''''"
  shows "snd (invoke c \<lparr>rs_graph = example_graph fmtv math poet\<rparr> cs example_initial) = Done (example_final fmtv ans p) \<and>
         (\<exists>m0. example_stream (sent (g_streamer (r_graph (fst (invoke c \<lparr>rs_graph = example_graph fmtv math poet\<rparr> cs example_initial)))))
                            None = Some m0 \<and>
           (\<exists>m. ex_step\<^sup>*\<^sup>* m0 m \<and> \<not> em_loop m \<and> LogPoem p \<notin> set (em_log m)) \<and>
           (\<exists>m. ex_step\<^sup>*\<^sup>* m0 m \<and> \<not> em_loop m \<and> LogPoem p \<in> set (em_log m)))"
proof -
  let ?xs = "[EmData \<lparr>se_mode = StreamValues, se_data = example_initial\<rparr>, EmEvent (run_event EventChainStart),
              EmEvent (node_event EventChainStart ''calculate'' 0), EmEvent (node_event EventChainEnd ''calculate'' 0),
              EmEvent (node_event EventChainStart ''write_poem'' 1), EmEvent (node_event EventChainEnd ''write_poem'' 1)]"
  let ?d = "\<lparr>se_mode = StreamValues, se_data = example_final fmtv ans p\<rparr>"
  let ?e = "run_event EventChainEnd"
  note run = example_sent [where math = math and poet = poet and fmtv = fmtv and ans = ans and p = p and c = c and cs = cs, OF assms(1,2)]
  let ?m0 = "the (example_stream (?xs @ [EmData ?d, EmEvent ?e]) None)"
  have src: "sent (g_streamer (r_graph (fst (invoke c \<lparr>rs_graph = example_graph fmtv math poet\<rparr> cs example_initial)))) =
               ?xs @ [EmData ?d, EmEvent ?e]"
    using run by simp
  have m0: "example_stream (?xs @ [EmData ?d, EmEvent ?e]) None = Some ?m0"
    by (simp add: example_stream_def stream_start_def example_config_def)
  have stop: "ex_stop_event ?e" "\<not> list_ex ex_stop_event (ev_of ?xs)"
    by (simp_all add: ex_stop_event_def run_event_def node_event_def)
  from exit_race_schedules [OF m0 stop] obtain m1 m2 where
    m1: "ex_step\<^sup>*\<^sup>* ?m0 m1" "\<not> em_loop m1" "em_log m1 = concat (map ex_log_em ?xs) @ [ex_log_event ?e]" and
    m2: "ex_step\<^sup>*\<^sup>* ?m0 m2" "\<not> em_loop m2" "em_log m2 = concat (map ex_log_em ?xs) @ ex_log_data ?d @ [ex_log_event ?e]"
    by blast
  have "LogPoem p \<notin> set (em_log m1)"
    using m1(3) by (simp add: ex_log_data_def ex_log_event_def example_initial_def)
  moreover have "LogPoem p \<in> set (em_log m2)"
    using m2(3) assms(3) by (simp add: ex_log_data_def example_final_def)
  ultimately show ?thesis using run src m0 m1(1,2) m2(1,2) by auto
qed

text \<open>C14: In the graph example the consumer goroutine can end the program before it has logged the final state: once \<open>Invoke\<close> has sent the final value and then the run's \<open>on_chain_end\<close> event, both may sit in the output buffers and the consumer's \<open>select\<close> may take the event first, return, and let \<open>main\<close> exit with the final value (the poem) unlogged; in another schedule it logs it.\<close>

theorem example_exit_race:
  assumes "example_stream (xs @ [EmData d, EmEvent e]) None = Some m0"
    and "ex_stop_event e" and "\<not> list_ex ex_stop_event (ev_of xs)"
  shows "(\<exists>m. ex_step\<^sup>*\<^sup>* m0 m \<and> \<not> em_loop m \<and> f_stq (em_fan m) = [d] \<and>
             em_log m = concat (map ex_log_em xs) @ [ex_log_event e]) \<and>
         (\<exists>m. ex_step\<^sup>*\<^sup>* m0 m \<and> \<not> em_loop m \<and>
             em_log m = concat (map ex_log_em xs) @ ex_log_data d @ [ex_log_event e])"
  using exit_race_schedules [OF assms] .

text \<open>C16: The math expert the graph example builds runs the calculator without \<open>Validate\<close>: a call whose arguments \<open>Validate\<close> rejects (an operand sent as a JSON string, which \<open>json.Unmarshal\<close> keeps a \<open>string\<close> and \<open>getNumber\<close> parses) is executed and the reply returned, while a call \<open>Validate\<close> accepts (a division by zero) makes \<open>ProcessMessage\<close> fail with the tool's error and discards the model's answer.\<close>

theorem math_expert_skips_validation:
  assumes "example_agents fmtv fmtl parse key = Some (math, poet)"
    and "\<forall>req. llm_chunks (llm req) = [ToolCallDone ''calculator'' args] \<and> llm_err (llm req) = None \<and>
               llm_choices (llm req) = [c]"
  shows "(dec args = Some [(''operation'', DString ''add''), (''a'', DString sa), (''b'', DFloat64 y)] \<and>
          parse sa = Some z \<longrightarrow>
            validate ord new_calculator [(''operation'', DString ''add''), (''a'', DString sa), (''b'', DFloat64 y)] =
              Returns (Some (ErrInvalidType ''a'' ''number'')) \<and>
            (\<exists>a'. process_message dec llm msg math = Returns (a', Inr [\<lparr>msg_role = RoleAssistant, msg_content = c\<rparr>]))) \<and>
         (dec args = Some [(''operation'', DString ''divide''), (''a'', DFloat64 x), (''b'', DFloat64 0)] \<longrightarrow>
            validate ord new_calculator [(''operation'', DString ''divide''), (''a'', DFloat64 x), (''b'', DFloat64 0)] =
              Returns None \<and>
            (\<exists>a'. process_message dec llm msg math = Returns (a', Inl (ErrExecuteTool ''division by zero''))))"
proof -
  note mx = example_math_expert [OF assms(1)]
  have tool: "at_name (calculator_tool fmtv fmtl parse) = ''calculator''"
    by (simp add: calculator_tool_def calculator_eval)
  show ?thesis
  proof (intro conjI impI)
    show "validate ord new_calculator [(''operation'', DString ''add''), (''a'', DString sa), (''b'', DFloat64 y)] =
            Returns (Some (ErrInvalidType ''a'' ''number''))"
      by (subst calculator_args_checked) (simp_all add: calculator_eval validate_type_def)
    show "validate ord new_calculator [(''operation'', DString ''divide''), (''a'', DFloat64 x), (''b'', DFloat64 0)] =
              Returns None"
      by (simp add: calculator_validate_iff)
  next
    assume "dec args = Some [(''operation'', DString ''add''), (''a'', DString sa), (''b'', DFloat64 y)] \<and>
            parse sa = Some z"
    then show "\<exists>a'. process_message dec llm msg math = Returns (a', Inr [\<lparr>msg_role = RoleAssistant, msg_content = c\<rparr>])"
      using mx tool assms(2)
      by (simp add: process_message_def Let_def calculator_tool_def calc_execute_def go_lookup_def)
  next
    assume "dec args = Some [(''operation'', DString ''divide''), (''a'', DFloat64 x), (''b'', DFloat64 0)]"
    then show "\<exists>a'. process_message dec llm msg math = Returns (a', Inl (ErrExecuteTool ''division by zero''))"
      using mx tool assms(2)
      by (simp add: process_message_def Let_def calculator_tool_def calc_execute_def go_lookup_def)
  qed
qed

end
