(* ===== verification/Serial.thy ===== *)
theory Serial
  imports Interrupt "HOL-Library.Word"
begin

text \<open>
  The serialisation helpers \<open>MarshalState\<close> and \<open>UnmarshalState\<close> of
  \<open>src/unnamed/part_000\<close> (lines 384--398). Both are generic in the state type and call
  \<open>encoding/json\<close>, a library: \<open>json.Marshal\<close> is a \<open>marshaller\<close> (as in theory
  \<open>Interrupt\<close>), and \<open>json.Unmarshal(data, &v)\<close> an \<open>unmarshaller\<close>, which decodes into
  the value \<open>v\<close> already holds and returns the error, if any, with the value as far as
  it got. For the state type \<open>int\<close> (64 bits on the platforms Go supports for this
  code) the library's behaviour is written out: decimal text, surrounding JSON white
  space, the literal \<open>null\<close> (which leaves the value alone), and the range check. The
  texts of the library's errors for non-integer input are not reproduced exactly.
\<close>

section \<open>The helpers\<close>

text \<open>\<open>MarshalState\<close> returns what \<open>json.Marshal\<close> returns.\<close>

definition marshal_state_json :: "'s marshaller \<Rightarrow> 's \<Rightarrow> string + raw_json" where
  "marshal_state_json enc s = enc s"

type_synonym 'a unmarshaller = "raw_json \<Rightarrow> 'a \<Rightarrow> string option \<times> 'a"

text \<open>
  \<open>UnmarshalState\<close>: decode into a zero-valued \<open>state\<close>; on an error return Go's zero
  value of the state type, not what the decoder had filled in.
\<close>

definition unmarshal_state :: "'s unmarshaller \<Rightarrow> 's \<Rightarrow> raw_json \<Rightarrow> 's \<times> string option" where
  "unmarshal_state dec zero data =
     (case dec data zero of
        (None, s) \<Rightarrow> (s, None)
      | (Some e, _) \<Rightarrow> (zero, Some e))"

section \<open>\<open>encoding/json\<close> for a Go \<open>int\<close>\<close>

text \<open>\<open>json.Marshal\<close> of an \<open>int\<close> writes it in decimal (\<open>strconv.FormatInt\<close>).\<close>

fun nat_digits :: "nat \<Rightarrow> string" where
  "nat_digits n = (if n < 10 then [char_of (48 + n)] else nat_digits (n div 10) @ [char_of (48 + n mod 10)])"

declare nat_digits.simps [simp del]

definition int_digits :: "int \<Rightarrow> string" where
  "int_digits i = (if i < 0 then CHR ''-'' # nat_digits (nat (- i)) else nat_digits (nat i))"

definition json_marshal_int :: "64 word marshaller" where
  "json_marshal_int w = Inr (int_digits (sint w))"

text \<open>
  \<open>json.Unmarshal\<close> into an \<open>int\<close>: a JSON number without fraction or exponent
  (\<open>-?(0|[1-9][0-9]*)\<close>) in the range of a 64-bit integer, or \<open>null\<close>, between white space.
\<close>

definition is_digit :: "char \<Rightarrow> bool" where
  "is_digit c \<longleftrightarrow> 48 \<le> (of_char c :: nat) \<and> (of_char c :: nat) \<le> 57"

definition digit_val :: "char \<Rightarrow> nat" where
  "digit_val c = of_char c - 48"

definition json_uint :: "string \<Rightarrow> nat option" where
  "json_uint ds =
     (if ds \<noteq> [] \<and> list_all is_digit ds \<and> (hd ds = CHR ''0'' \<longrightarrow> length ds = 1)
      then Some (foldl (\<lambda>n c. 10 * n + digit_val c) 0 ds) else None)"

definition json_int :: "string \<Rightarrow> int option" where
  "json_int s =
     (case s of
        c # ds \<Rightarrow> (if c = CHR ''-'' then map_option (\<lambda>n. - int n) (json_uint ds) else map_option int (json_uint s))
      | [] \<Rightarrow> None)"

definition json_ws :: "char \<Rightarrow> bool" where
  "json_ws c \<longleftrightarrow> c \<in> {CHR '' '', CHR 0x09, CHR 0x0A, CHR 0x0D}"

definition trim_ws :: "string \<Rightarrow> string" where
  "trim_ws s = rev (dropWhile json_ws (rev (dropWhile json_ws s)))"

definition json_unmarshal_int :: "64 word unmarshaller" where
  "json_unmarshal_int data v =
     (let t = trim_ws data in
      if t = ''null'' then (None, v)
      else (case json_int t of
              Some i \<Rightarrow>
                (if - (2 ^ 63) \<le> i \<and> i < 2 ^ 63 then (None, word_of_int i)
                 else (Some (''json: cannot unmarshal number '' @ t @ '' into Go value of type int''), v))
            | None \<Rightarrow> (Some (''json: cannot unmarshal '' @ t @ '' into Go value of type int''), v)))"

section \<open>Lemmas\<close>

lemma digit_char [simp]: "k < 10 \<Longrightarrow> is_digit (char_of (48 + k)) \<and> digit_val (char_of (48 + k)) = k"
  by (simp add: is_digit_def digit_val_def of_char_of)

lemma nat_digits_digits: "list_all is_digit (nat_digits n) \<and> nat_digits n \<noteq> []"
proof (induction n rule: nat_digits.induct)
  case (1 n)
  then show ?case by (simp add: nat_digits.simps [of n])
qed

lemma nat_digits_val: "foldl (\<lambda>n c. 10 * n + digit_val c) 0 (nat_digits n) = n"
proof (induction n rule: nat_digits.induct)
  case (1 n)
  then show ?case by (simp add: nat_digits.simps [of n])
qed

lemma nat_digits_hd: "0 < n \<Longrightarrow> hd (nat_digits n) \<noteq> CHR ''0''"
proof (induction n rule: nat_digits.induct)
  case (1 n)
  show ?case
  proof (cases "n < 10")
    case True
    have "char_of (48 + n) \<noteq> CHR ''0''"
    proof
      assume "char_of (48 + n) = CHR ''0''"
      then have "of_char (char_of (48 + n) :: char) = (of_char (CHR ''0'') :: nat)" by simp
      with True 1 show False by (simp add: of_char_of)
    qed
    with True show ?thesis by (simp add: nat_digits.simps [of n])
  next
    case False
    then show ?thesis using 1 nat_digits_digits [of "n div 10"] by (simp add: nat_digits.simps [of n])
  qed
qed


lemma json_uint_nat_digits [simp]: "json_uint (nat_digits n) = Some n"
proof (cases "n = 0")
  case True
  then show ?thesis by (simp add: json_uint_def nat_digits.simps [of 0] digit_val_def is_digit_def)
next
  case False
  then show ?thesis using nat_digits_digits [of n] nat_digits_hd [of n] nat_digits_val [of n]
    by (simp add: json_uint_def)
qed

lemma nat_digits_hd_digit: "is_digit (hd (nat_digits n))"
  using nat_digits_digits [of n] by (cases "nat_digits n") simp_all

lemma json_int_int_digits: "json_int (int_digits i) = Some i"
proof (cases "i < 0")
  case True
  then show ?thesis by (simp add: int_digits_def json_int_def)
next
  case False
  have "hd (nat_digits (nat i)) \<noteq> CHR ''-''"
    using nat_digits_hd_digit [of "nat i"] by (auto simp: is_digit_def)
  moreover obtain c cs where "nat_digits (nat i) = c # cs"
    using nat_digits_digits [of "nat i"] by (cases "nat_digits (nat i)") auto
  moreover note json_uint_nat_digits [of "nat i"]
  ultimately show ?thesis using False by (simp add: int_digits_def json_int_def)
qed

lemma digit_not_ws: "is_digit c \<Longrightarrow> \<not> json_ws c"
  by (auto simp: is_digit_def json_ws_def)

lemma digits_no_ws: "list_all is_digit xs \<Longrightarrow> \<not> list_ex json_ws xs"
  by (induction xs) (auto dest: digit_not_ws)

lemma int_digits_no_ws: "\<not> list_ex json_ws (int_digits i)"
  using digits_no_ws [OF conjunct1 [OF nat_digits_digits]] by (simp add: int_digits_def json_ws_def)

lemma dropWhile_none: "\<not> list_ex P xs \<Longrightarrow> dropWhile P xs = xs"
  by (induction xs) auto

lemma trim_ws_id: "\<not> list_ex json_ws s \<Longrightarrow> trim_ws s = s"
  by (simp add: trim_ws_def dropWhile_none)

lemma int_digits_hd: "int_digits i = c # cs \<Longrightarrow> is_digit c \<or> c = CHR ''-''"
  using nat_digits_hd_digit [of "nat i"] nat_digits_digits [of "nat i"]
  by (auto simp: int_digits_def split: if_splits)

lemma int_digits_not_null: "int_digits i \<noteq> ''null''"
  using int_digits_hd [of i "CHR ''n''" "''ull''"] by (auto simp: is_digit_def)

lemma unmarshal_int_digits:
  "json_unmarshal_int (int_digits i) v =
     (if - (2 ^ 63) \<le> i \<and> i < 2 ^ 63 then (None, word_of_int i)
      else (Some (''json: cannot unmarshal number '' @ int_digits i @ '' into Go value of type int''), v))"
  by (simp add: json_unmarshal_int_def trim_ws_id int_digits_no_ws int_digits_not_null json_int_int_digits)

lemma sint_range: "- (2 ^ 63) \<le> sint (w :: 64 word) \<and> sint w < 2 ^ 63"
  using sint_ge [of w] sint_lt [of w] by simp

lemma marshal_unmarshal_int: "unmarshal_state json_unmarshal_int 0 (int_digits (sint w)) = (w, None)"
  using sint_range [of w] by (simp add: unmarshal_state_def unmarshal_int_digits)

text \<open>\<open>UnmarshalState\<close> accepts \<open>null\<close> (and white space around a number) without an error.\<close>

lemma unmarshal_null: "unmarshal_state json_unmarshal_int 0 '' null'' = (0, None)"
  by (simp add: unmarshal_state_def json_unmarshal_int_def trim_ws_def json_ws_def)

section \<open>Properties\<close>

text \<open>C12: For a graph whose state is a Go \<open>int\<close>, the info \<open>Interrupt\<close> sends carries the state as the bytes \<open>MarshalState\<close> produces, and \<open>UnmarshalState\<close> decodes those bytes back to exactly the paused state, with no error: a client can always recover the state it is asked to resume from.\<close>

theorem interrupt_state_roundtrip:
  assumes "snd (interrupt md json_marshal_int n d s m) = Inr ()"
  shows "\<exists>info. interrupt_ch (fst (interrupt md json_marshal_int n d s m)) = interrupt_ch m @ [info] \<and>
           info_node info = n \<and> marshal_state_json json_marshal_int s = Inr (info_state info) \<and>
           unmarshal_state json_unmarshal_int 0 (info_state info) = (s, None)"
proof -
  obtain m' where m': "interrupt md json_marshal_int n d s m = (m', Inr ())"
    using assms by (cases "interrupt md json_marshal_int n d s m") simp
  from interrupt_Inr [OF m'] obtain db sb where "json_marshal_int s = Inr sb"
    and "m' = m\<lparr>interrupted := True, interrupt_ch := interrupt_ch m @ [\<lparr>info_node = n, info_data = db, info_state = sb\<rparr>]\<rparr>"
    by blast
  with m' show ?thesis
    by (auto simp: json_marshal_int_def marshal_state_json_def marshal_unmarshal_int)
qed

text \<open>\<open>UnmarshalState\<close> into a Go \<open>int\<close> returns the number written in decimal when it lies in the 64-bit range; one bit wider, it returns the zero value with the decoder's error, never a wrapped-around number.\<close>

lemma unmarshal_int_bounds:
  "unmarshal_state json_unmarshal_int 0 (int_digits i) =
     (if - (2 ^ 63) \<le> i \<and> i < 2 ^ 63 then (word_of_int i, None)
      else (0, Some (''json: cannot unmarshal number '' @ int_digits i @ '' into Go value of type int'')))"
  by (simp add: unmarshal_state_def unmarshal_int_digits)

end
