(* ===== verification/Rtc.thy ===== *)
theory Rtc
  imports Prelude
begin

text \<open>
  The token cache of the RTC example (\<open>src/examples/rtc/main.go\<close>, lines 26--155):
  \<open>TokenCache\<close> with \<open>get\<close> and \<open>set\<close>, \<open>createEphemeralToken\<close> and the handler
  \<open>handleWebRTCSignaling\<close>. The program's effects on the outside world are threaded
  through a world \<open>'w\<close>, as a state passed in and returned: \<open>time.Now()\<close> (in
  nanoseconds) reads the world's clock, and the HTTP call to the realtime-sessions endpoint
  is a transition of the world that returns the transport error or the status and body;
  \<open>get\<close> and \<open>set\<close> read the clock before and after the call. The JSON decoding of
  the answer and the API key read from the environment are parameters. The mutex makes
  \<open>get\<close> and \<open>set\<close> atomic, which the functional model gives for free; it does not
  make \<open>createEphemeralToken\<close> atomic. The server of \<open>main\<close> (lines 53--59 and
  157--204): its start-up checks, the mux and the logging middleware; the WebSocket
  upgrader and \<open>sendError\<close> are never used and not modelled. A concrete world
  \<open>rtc_world\<close>, whose endpoint logs every request it receives, states how often the
  endpoint is called.
\<close>

section \<open>Data model\<close>

record session =
  client_secret :: string

record token_cache =
  tc_token :: "session option"
  tc_expires_at :: int

record http_request =
  hr_method :: string
  hr_url :: string
  hr_auth :: string
  hr_body :: string

datatype rtc_error = ErrNoApiKey | ErrTransport string | ErrApi string | ErrDecode string

datatype http_reply = HttpError nat string | HttpJson "(string \<times> string) list"

text \<open>\<open>50 * time.Second\<close>.\<close>

definition token_ttl :: int where "token_ttl = 50 * 1000000000"

definition empty_cache :: token_cache where
  "empty_cache = \<lparr>tc_token = None, tc_expires_at = 0\<rparr>"

section \<open>Operations\<close>

definition tc_get :: "int \<Rightarrow> token_cache \<Rightarrow> session option" where
  "tc_get now tc = (if tc_token tc \<noteq> None \<and> now < tc_expires_at tc then tc_token tc else None)"

definition tc_set :: "int \<Rightarrow> session \<Rightarrow> token_cache \<Rightarrow> token_cache" where
  "tc_set now tok tc = tc\<lparr>tc_token := Some tok, tc_expires_at := now + token_ttl\<rparr>"

text \<open>The JSON body \<open>json.Marshal\<close> writes for the payload map (keys in sorted order).\<close>

definition session_payload :: string where
  "session_payload = ''{\"model\":\"gpt-4o-mini-realtime-preview-2024-12-17\",\"voice\":\"verse\"}''"

text \<open>The clock and the HTTP client, as functions of the world.\<close>

type_synonym 'w clock = "'w \<Rightarrow> int"

type_synonym 'w http_client = "http_request \<Rightarrow> 'w \<Rightarrow> (string + nat \<times> string) \<times> 'w"

text \<open>
  \<open>createEphemeralToken\<close>: the cache first; then the API key, the POST, the status,
  the decoding, and the cache update, which reads the clock again after the call.
\<close>

definition create_ephemeral_token ::
  "'w clock \<Rightarrow> string \<Rightarrow> 'w http_client \<Rightarrow> (string \<Rightarrow> session option) \<Rightarrow>
   token_cache \<Rightarrow> 'w \<Rightarrow> (token_cache \<times> (rtc_error + session)) \<times> 'w" where
  "create_ephemeral_token now key post dec tc w =
     (case tc_get (now w) tc of
        Some tok \<Rightarrow> ((tc, Inr tok), w)
      | None \<Rightarrow>
          (if key = '''' then ((tc, Inl ErrNoApiKey), w)
           else
             (case post \<lparr>hr_method = ''POST'', hr_url = ''https://api.openai.com/v1/realtime/sessions'',
                         hr_auth = ''Bearer '' @ key, hr_body = session_payload\<rparr> w of
                (Inl e, w1) \<Rightarrow> ((tc, Inl (ErrTransport e)), w1)
              | (Inr (status, body), w1) \<Rightarrow>
                  (if status \<noteq> 200 then ((tc, Inl (ErrApi (''OpenAI API error: '' @ body))), w1)
                   else
                     (case dec body of
                        None \<Rightarrow> ((tc, Inl (ErrDecode body)), w1)
                      | Some tok \<Rightarrow> ((tc_set (now w1) tok tc, Inr tok), w1))))))"

fun rtc_error_msg :: "rtc_error \<Rightarrow> string" where
  "rtc_error_msg ErrNoApiKey = ''OPENAI_API_KEY environment variable not set''"
| "rtc_error_msg (ErrTransport e) = e"
| "rtc_error_msg (ErrApi e) = e"
| "rtc_error_msg (ErrDecode e) = e"

definition handle_signaling ::
  "'w clock \<Rightarrow> string \<Rightarrow> 'w http_client \<Rightarrow> (string \<Rightarrow> session option) \<Rightarrow>
   token_cache \<Rightarrow> 'w \<Rightarrow> (token_cache \<times> http_reply) \<times> 'w" where
  "handle_signaling now key post dec tc w =
     (case create_ephemeral_token now key post dec tc w of
        ((tc', Inl e), w') \<Rightarrow> ((tc', HttpError 500 (rtc_error_msg e)), w')
      | ((tc', Inr tok), w') \<Rightarrow> ((tc', HttpJson [(''token'', client_secret tok)]), w'))"

section \<open>A world with an endpoint\<close>

text \<open>
  A world in which the program runs: the wall clock, the answers the endpoint will give
  in turn, each after a latency, and the endpoint's log of the requests it received, with
  their arrival times. A request for which no answer is left is refused. This is the
  environment, not code of the repository.
\<close>

record rtc_world =
  w_now :: int
  w_answers :: "(nat \<times> (string + nat \<times> string)) list"
  w_log :: "(int \<times> http_request) list"

definition rtc_post :: "rtc_world http_client" where
  "rtc_post req w =
     (case w_answers w of
        [] \<Rightarrow> (Inl ''connection refused'', w\<lparr>w_log := w_log w @ [(w_now w, req)]\<rparr>)
      | (lat, ans) # rest \<Rightarrow>
          (ans, w\<lparr>w_now := w_now w + int lat, w_answers := rest, w_log := w_log w @ [(w_now w, req)]\<rparr>))"

text \<open>Signalling requests served one after another, the clock moving on by the given delay
  before each: the cache, the replies and the world at the end.\<close>

fun serve_all ::
  "string \<Rightarrow> (string \<Rightarrow> session option) \<Rightarrow> nat list \<Rightarrow> token_cache \<Rightarrow> rtc_world \<Rightarrow>
   token_cache \<times> http_reply list \<times> rtc_world" where
  "serve_all key dec [] tc w = (tc, [], w)"
| "serve_all key dec (d # ds) tc w =
     (case handle_signaling w_now key rtc_post dec tc (w\<lparr>w_now := w_now w + int d\<rparr>) of
        ((tc1, reply), w1) \<Rightarrow>
          (case serve_all key dec ds tc1 w1 of (tc2, replies, w2) \<Rightarrow> (tc2, reply # replies, w2)))"

text \<open>The endpoint answers every request with status 200 and a decodable session.\<close>

definition answers_ok :: "(string \<Rightarrow> session option) \<Rightarrow> (nat \<times> (string + nat \<times> string)) list \<Rightarrow> bool" where
  "answers_ok dec ans \<longleftrightarrow> list_all (\<lambda>(_, a). \<exists>body tok. a = Inr (200, body) \<and> dec body = Some tok) ans"

section \<open>The server\<close>

text \<open>
  \<open>main\<close> (lines 157--204): the static directory and its \<open>index.html\<close> must exist
  (\<open>not_exist\<close> is \<open>os.IsNotExist\<close> of \<open>os.Stat\<close>'s error; \<open>log.Fatal\<close> is
  \<open>None\<close>); \<open>cwd\<close> is the clean absolute path \<open>os.Getwd\<close> returns. The mux
  routes the path \<open>/rtc\<close> to the signalling handler and every other path, through the
  logging middleware, to the file server; neither route looks at the method.
\<close>

definition path_join :: "string \<Rightarrow> string \<Rightarrow> string" where
  "path_join a b = (if a \<noteq> [] \<and> last a = CHR ''/'' then a @ b else a @ ''/'' @ b)"

record rtc_server =
  srv_static_dir :: string
  srv_addr :: string

definition rtc_main :: "string \<Rightarrow> (string \<Rightarrow> bool) \<Rightarrow> rtc_server option" where
  "rtc_main cwd not_exist =
     (let static_dir = path_join cwd ''examples/rtc/static'' in
      if not_exist static_dir then None
      else if not_exist (path_join static_dir ''index.html'') then None
      else Some \<lparr>srv_static_dir = static_dir, srv_addr = '':8080''\<rparr>)"

datatype rtc_route = RouteSignaling | RouteStatic

definition rtc_mux :: "string \<Rightarrow> rtc_route" where
  "rtc_mux path = (if path = ''/rtc'' then RouteSignaling else RouteStatic)"

text \<open>\<open>loggerMiddleware\<close>: one log line, then the wrapped handler.\<close>

definition logger_middleware :: "('r \<Rightarrow> 'a) \<Rightarrow> string \<Rightarrow> string \<Rightarrow> string \<Rightarrow> 'r \<Rightarrow> string \<times> 'a" where
  "logger_middleware next meth path remote r = (''['' @ meth @ ''] '' @ path @ '' '' @ remote, next r)"

datatype rtc_response = SignalingReply http_reply | StaticFile string

text \<open>
  One request to the server, by method, path and remote address: the cache after it,
  the response, the middleware's log lines, and the world. The file server answers with the file
  under the static directory (its handling of the path is not modelled).
\<close>

definition rtc_serve ::
  "rtc_server \<Rightarrow> 'w clock \<Rightarrow> string \<Rightarrow> 'w http_client \<Rightarrow>
   (string \<Rightarrow> session option) \<Rightarrow> string \<Rightarrow> string \<Rightarrow> string \<Rightarrow> token_cache \<Rightarrow> 'w \<Rightarrow>
   (token_cache \<times> rtc_response \<times> string list) \<times> 'w" where
  "rtc_serve srv now key post dec meth path remote tc w =
     (case rtc_mux path of
        RouteSignaling \<Rightarrow>
          (case handle_signaling now key post dec tc w of ((tc', reply), w') \<Rightarrow> ((tc', SignalingReply reply, []), w'))
      | RouteStatic \<Rightarrow>
          (case logger_middleware (\<lambda>p. StaticFile (path_join (srv_static_dir srv) p)) meth path remote path of
             (line, resp) \<Rightarrow> ((tc, resp, [line]), w)))"

section \<open>Lemmas\<close>

lemma token_ttl_pos: "0 < token_ttl"
  by (simp add: token_ttl_def)

text \<open>What one signalling request does to the world: served from the cache it leaves the
  world alone; otherwise the endpoint receives one request, at the time of \<open>get\<close>, and the
  token is cached from the time the answer arrives.\<close>

lemma handle_signaling_cached:
  "tc_get (w_now w) tc = Some tok \<Longrightarrow>
   handle_signaling w_now key rtc_post dec tc w = ((tc, HttpJson [(''token'', client_secret tok)]), w)"
  by (simp add: handle_signaling_def create_ephemeral_token_def)

lemma handle_signaling_post:
  assumes "tc_get (w_now w) tc = None" and "key \<noteq> ''''"
    and "w_answers w = (lat, Inr (200, body)) # rest" and "dec body = Some tok"
  shows "handle_signaling w_now key rtc_post dec tc w =
           ((tc_set (w_now w + int lat) tok tc, HttpJson [(''token'', client_secret tok)]),
            w\<lparr>w_now := w_now w + int lat, w_answers := rest,
              w_log := w_log w @ [(w_now w, \<lparr>hr_method = ''POST'', hr_url = ''https://api.openai.com/v1/realtime/sessions'',
                                             hr_auth = ''Bearer '' @ key, hr_body = session_payload\<rparr>)]\<rparr>)"
  using assms by (simp add: handle_signaling_def create_ephemeral_token_def rtc_post_def)

lemma serve_all_calls:
  assumes "answers_ok dec (w_answers w)" and "length ds \<le> length (w_answers w)" and "key \<noteq> ''''"
  shows "\<exists>new. w_log (snd (snd (serve_all key dec ds tc w))) = w_log w @ new \<and>
           sorted_wrt (\<lambda>a b. a + token_ttl \<le> b) (map fst new) \<and>
           (\<forall>t \<in> fst ` set new. w_now w \<le> t \<and> (tc_token tc \<noteq> None \<longrightarrow> tc_expires_at tc \<le> t))"
  using assms(1,2)
proof (induction ds arbitrary: tc w)
  case Nil
  then show ?case by simp
next
  case (Cons d ds)
  let ?w0 = "w\<lparr>w_now := w_now w + int d\<rparr>"
  show ?case
  proof (cases "tc_get (w_now ?w0) tc")
    case (Some tok')
    from Cons.IH [of ?w0 tc] Cons.prems obtain new where
      "w_log (snd (snd (serve_all key dec ds tc ?w0))) = w_log w @ new"
      "sorted_wrt (\<lambda>a b. a + token_ttl \<le> b) (map fst new)"
      "\<forall>t \<in> fst ` set new. w_now w + int d \<le> t \<and> (tc_token tc \<noteq> None \<longrightarrow> tc_expires_at tc \<le> t)"
      by auto
    with handle_signaling_cached [OF Some, of key dec] show ?thesis
      by (intro exI [of _ new]) (auto split: prod.splits)
  next
    case None
    from Cons.prems obtain lat body tok rest where
      ans: "w_answers w = (lat, Inr (200, body)) # rest" "dec body = Some tok"
      and ok: "answers_ok dec rest" and len: "length ds \<le> length rest"
      by (cases "w_answers w") (auto simp: answers_ok_def)
    let ?req = "\<lparr>hr_method = ''POST'', hr_url = ''https://api.openai.com/v1/realtime/sessions'',
                   hr_auth = ''Bearer '' @ key, hr_body = session_payload\<rparr>"
    have h: "handle_signaling w_now key rtc_post dec tc ?w0 = 
        ((tc_set (w_now w + int d + int lat) tok tc, HttpJson [(''token'', client_secret tok)]),
         ?w0\<lparr>w_now := w_now w + int d + int lat, w_answers := rest, w_log := w_log w @ [(w_now w + int d, ?req)]\<rparr>)"
      using handle_signaling_post [of ?w0 tc key lat body rest dec tok] None assms(3) ans by simp
    let ?tc1 = "tc_set (w_now w + int d + int lat) tok tc"
    let ?w1 = "?w0\<lparr>w_now := w_now w + int d + int lat, w_answers := rest, w_log := w_log w @ [(w_now w + int d, ?req)]\<rparr>"
    from Cons.IH [of ?w1 ?tc1] ok len obtain new where
      n: "w_log (snd (snd (serve_all key dec ds ?tc1 ?w1))) = w_log w @ [(w_now w + int d, ?req)] @ new"
      "sorted_wrt (\<lambda>a b. a + token_ttl \<le> b) (map fst new)"
      "\<forall>t \<in> fst ` set new. w_now w + int d + int lat \<le> t \<and> w_now w + int d + int lat + token_ttl \<le> t"
      by (auto simp: tc_set_def)
    have exp: "tc_token tc \<noteq> None \<Longrightarrow> tc_expires_at tc \<le> w_now w + int d"
      using None by (auto simp: tc_get_def split: if_splits)
    from n exp token_ttl_pos h show ?thesis
      by (intro exI [of _ "(w_now w + int d, ?req) # new"]) (fastforce split: prod.splits)
  qed
qed

section \<open>Properties\<close>

text \<open>C35: When signalling requests are served one after another, the clock moving forward, and the endpoint answers every request it receives with a session, the realtime-sessions endpoint receives requests at most once per 50 seconds: the arrival times it logs are at least the cache's lifetime apart, every other request being served from the token cache.\<close>

theorem api_called_once_per_ttl:
  assumes "answers_ok dec (w_answers w)" and "length ds \<le> length (w_answers w)" and "key \<noteq> ''''"
  shows "sorted_wrt (\<lambda>a b. a + token_ttl \<le> b)
           (map fst (drop (length (w_log w)) (w_log (snd (snd (serve_all key dec ds tc w))))))"
proof -
  from serve_all_calls [OF assms, of tc] obtain new where
    "w_log (snd (snd (serve_all key dec ds tc w))) = w_log w @ new"
    "sorted_wrt (\<lambda>a b. a + token_ttl \<le> b) (map fst new)" by blast
  then show ?thesis by simp
qed

end
