(* ===== verification/Spec2Isabelle.thy ===== *)
theory Spec2Isabelle
  imports ExampleMain Serial Rtc
begin

text \<open>
  \<^bold>\<open>A verification model of the moego state-graph engine.\<close>

  \<^emph>\<open>The program.\<close> The core of the repository (package \<open>core\<close>) is a typed
  node-and-edge execution engine. A \<open>StateGraph\<close> (\<open>src/unnamed/part_000\<close>) holds
  named step functions, conditional edges with routers, an entry point and a recursion
  limit, and owns a \<open>Streamer\<close> (\<open>src/pkg/core/stream.go\<close>) and an
  \<open>InterruptManager\<close> (\<open>src/unnamed/part_001\<close>). \<open>Compile\<close> checks the entry point;
  \<open>RunnableState.Invoke\<close> runs the step/route loop, emitting lifecycle events and state
  snapshots on the streamer and pausing at breakpoints and at interrupt requests through a
  rendezvous with an external controller (\<open>Interrupt\<close>, \<open>WaitForResume\<close>,
  \<open>Resume\<close>). \<open>Stream\<close> runs \<open>Invoke\<close> in a goroutine and forwards the streamer's
  channels.

  \<^emph>\<open>The theories.\<close>
  \<^item> \<open>Prelude\<close>: node names and JSON values as strings, event metadata, the rule
    collections \<open>emit_simps\<close> and \<open>step_simps\<close>, generic lemmas on first-match search,
    logs and the integer step budget.
  \<^item> \<open>Stream\<close> (\<open>stream.go\<close>): modes, event types, \<open>Event\<close>, \<open>StreamEvent\<close>,
    \<open>Streamer\<close> as a record of its modes, the logs of its two channels, and the log
    \<open>sent\<close> of all its sends in the order they are made (the sequence \<open>Stream\<close>
    forwards); the channel getters and \<open>Close\<close>;
    \<open>hasMode\<close> (\<open>has_mode\<close>), \<open>EmitEvent\<close> and the four data emissions (one shape,
    \<open>emit_data\<close>); \<open>StreamConfig\<close>. The invariant \<open>streamer_wf\<close> (data only in active
    modes, events only in debug mode) and the relation \<open>emits\<close> (the streamer evolves
    only by emissions), with its rule-induction lemmas.
  \<^item> \<open>Interrupt\<close> (\<open>part_001\<close>): \<open>InterruptInfo\<close>, the manager (flag, the two
    channels as logs, the breakpoint set), its operations, \<open>InterruptError\<close> and its
    helpers. JSON serialisation is a parameter that may fail.
  \<^item> \<open>Serial\<close> (\<open>part_000\<close>, lines 384--398): \<open>MarshalState\<close> and
    \<open>UnmarshalState\<close> over \<open>json.Marshal\<close>/\<open>json.Unmarshal\<close> as parameters, and
    \<open>encoding/json\<close> for a Go \<open>int\<close> written out (\<open>64 word\<close>, decimal text, white
    space, \<open>null\<close>, the range check), with the print/parse round-trip lemmas.
  \<^item> \<open>Graph\<close> (\<open>part_000\<close>, lines 11--169): nodes, edges, the graph record, the
    builder setters, the channel getters, the error type of the engine, \<open>Compile\<close>,
    and the unused \<open>Send\<close> and \<open>Command\<close>.
  \<^item> \<open>Step\<close> (\<open>Invoke\<close>, lines 185--305): one iteration of the loop
    (\<open>invoke_step\<close>: limit test, \<open>END\<close> test, breakpoint pause, then \<open>exec_node\<close>:
    lookup, start event, step function, interrupt pause or error, end event and update,
    routing by \<open>route\<close> and \<open>apply_mapping\<close>). The loop variables and the graph form the
    record \<open>run\<close>; \<open>r_ctl\<close> is the controller's sequence of actions at pauses and
    \<open>r_calls\<close> a history of the step functions called.
  \<^item> \<open>Invoke\<close>: the loop \<open>invoke_loop\<close> and \<open>invoke\<close> with the emissions that
    bracket a run; the abstract path interpreter \<open>spec_run\<close>; loop invariants by
    \<open>invoke_loop_inv\<close> (the frame, the call budget, a manager left interrupted).
  \<^item> \<open>Fanout\<close> (\<open>Stream\<close>, \<open>part_000\<close> lines 319--382): the goroutines of
    \<open>Stream\<close> as the inductive step relation \<open>fo_step\<close> on the record \<open>fanout\<close>: the
    forwarder's \<open>select\<close> loop (\<open>fwd\<close>), the outer goroutine's error report and deferred
    \<open>cancel\<close>/\<open>close\<close> (\<open>outer_pc\<close>), the buffered output channels with their
    capacity and closed flags, the caller consuming and cancelling. The sends of
    \<open>Invoke\<close> are the parameter \<open>f_src\<close>: each is a rendezvous with the forwarder.
  \<^item> \<open>Tool\<close> (\<open>tool.go\<close>, \<open>part_002\<close>): Go's \<open>interface{}\<close> values as the
    datatype \<open>dyn\<close> (nested maps as \<open>fmap\<close>, so HOL equality is
    \<open>reflect.DeepEqual\<close>), the comma-ok type assertions, \<open>validateType\<close>, \<open>Validate\<close>
    as its three loops, \<open>NewCalculator\<close>, \<open>getNumber\<close>, \<open>Execute\<close>. Map iteration
    order is a parameter (\<open>map_range\<close> reaches every order); a panic is an outcome.
    The inductive typing \<open>json_typed\<close> of an argument by its declared JSON type is the
    specification \<open>validateType\<close> is proved to decide.
  \<^item> \<open>Agent\<close> (\<open>openai_agent.go\<close>): \<open>OpenAIAgent\<close> as a record of its id,
    configuration, tools and chat history, with \<open>Configure\<close>, \<open>AddTool\<close> and
    \<open>ProcessMessage\<close>; the chat-completion service is a parameter from the request the
    agent builds to the streamed response, so what the service is sent is explicit.
    The \<open>Agent\<close> interface (\<open>agent.go\<close>) is the datatype \<open>agent_op\<close> of its methods
    with the dispatch \<open>agent_call\<close>; the calculator reaches an agent as
    \<open>calculator_tool\<close>, with the tool layer's error texts.
  \<^item> \<open>Examples\<close> (\<open>examples/graph/main.go\<close>): the example's state, its two agent nodes
    and its graph, run by the engine model with the agents as parameters.
  \<^item> \<open>ExampleMain\<close> (the \<open>main\<close> functions of \<open>examples/graph\<close> and
    \<open>examples/basic\<close>): the agents they build (\<open>example_agents\<close>,
    \<open>basic_agents\<close>), and the graph example's program after \<open>Stream\<close> as the step
    relation \<open>ex_step\<close> on \<open>ex_main\<close>: the fan-out of \<open>Fanout\<close> together with the
    consumer goroutine's \<open>select\<close> loop, its log and its exit, after which \<open>main\<close>
    returns.
  \<^item> \<open>Rtc\<close> (\<open>examples/rtc/main.go\<close>): the token cache with its 50 s expiry,
    \<open>createEphemeralToken\<close>, the signalling handler and the server's mux; the clock and
    the HTTP call act on a world threaded through the calls, JSON decoding is a parameter.
    In the world \<open>rtc_world\<close> the endpoint answers in turn and logs each request it
    receives with its arrival time, and \<open>serve_all\<close> serves requests one after another.
  \<^item> This theory: the scenarios of the specification as concrete graphs built with the
    builder operations, evaluated by \<open>simp\<close>, a concrete stream, configured agents, a
    world for the RTC example, and the witnesses.

  \<^emph>\<open>Termination and blocking.\<close> No fuel is needed: an iteration that goes on either
  consumes a controller action or increments \<open>steps\<close> below the limit, so the loop is a
  total \<^theory_text>\<open>function\<close> with the lexicographic measure \<open>run_measure\<close>. A pause for which
  the controller has no action left is the outcome \<open>Blocked\<close> (the goroutine waits for
  ever). In \<open>Invoke\<close> every blocking send on the streamer is taken; whether it is, is
  the subject of \<open>Fanout\<close>, where a send happens only when the forwarder receives it.
  Every run calls at most as many step functions as the controller has actions plus the
  recursion limit (C17), by the potential \<open>call_budget\<close>. Liveness of \<open>Stream\<close> is
  stated as the existence of a schedule (C23) and its failure as a reachable state from
  which no schedule closes the channels (C28).

  \<^emph>\<open>What is proved.\<close> Refinement of the path interpreter by the engine for graphs
  nothing pauses (C1), and its consequences that a successful such run calls fewer step
  functions than the limit (C3) and that a path needing exactly the limit fails after
  running it, because the limit is tested before \<open>END\<close> (C4); the budget: a successful
  run has made fewer steps than the limit (C2), and every run calls at most as many step
  functions as the controller's actions plus the limit (C17); the frame of a run (C8);
  the breakpoint and interrupt-request pauses step by step, with what the info they send
  carries (C5, C6); a pause ended by a cancellation leaves the manager interrupted for
  good, so that later runs of the graph never pause and fail at their first breakpoint
  (C7); the manager's protocol: the flag left set by a serialisation failure and the
  rendezvous round trip (C9, C10); with the default stream configuration a run sends no
  event and only value snapshots, the input first and the result last (C15). For
  serialisation: the state an interrupt info carries is the bytes of \<open>MarshalState\<close>,
  which \<open>UnmarshalState\<close> decodes back (C12). The misuse errors of the manager,
  breakpoints as a set, compilation, routing by the first edge, the mapping of router
  results, the sends of a run as the log \<open>sent\<close>, decoding an \<open>int\<close> in its 64-bit
  range, and scenarios A to D of the specification are lemmas of their theories. For the
  tools: \<open>Validate\<close> accepts exactly the well-typed argument maps (C11) and its
  acceptance does not depend on map iteration order (C18); validated calculator arguments
  fail in \<open>Execute\<close> only for the reasons the schema does not cover (C19), among them the
  unenforced operation enum (C20) and the optional \<open>b\<close> (C21); the nil-array panic
  (C22). For \<open>Stream\<close>: a schedule delivering everything (C23), order preservation in
  every execution (C24), and the races of its shutdown: a send on a closed channel (C25),
  the lost last event (C26), the error event overtaking it (C27), and the hang after
  cancellation (C28). For the example and the agents: the example's run and its error
  path (C29, C30); the agent's history holds only user messages (C31); an agent never
  given a string model panics at its first \<open>ProcessMessage\<close> (C32); \<open>Configure\<close>
  keeps only the model (C33); the reply is the service's first choice, untouched by tool
  results (C34); the example's math expert runs the calculator without \<open>Validate\<close>, and
  a tool error discards the answer (C16); the example's consumer can exit before logging
  the final state (C14), and end to end, for the run \<open>Invoke\<close> actually makes when both
  agents answer, the program can exit with the poem never logged (C13). For the RTC
  example: served one after another, requests reach the sessions endpoint at most once per
  50 s, as the endpoint's own log of arrivals shows (C35).

  \<^emph>\<open>Not modelled.\<close> Wall-clock fields (run ids, timestamps) and the fields the core
  never sets; the context passed to step functions; float64 rounding (numbers are
  reals); the closed state of the streamer's own channels during a run (the core never
  closes them; \<open>Close\<close> is modelled with the flag passed in); the blocking of the
  manager's unbuffered channels: a send on \<open>interruptCh\<close> or \<open>resumeCh\<close> and its
  receipt are one step (the controller takes each info; a \<open>Resume\<close> is received by the
  engine's \<open>WaitForResume\<close>), so a \<open>Resume\<close> for which no engine waits, which blocks in
  Go, returns in the model and no property relies on it;
  \<open>encoding/json\<close> for state types other than \<open>int\<close> and \<open>strconv.ParseFloat\<close>
  (library calls, parameters); the chat-completion service and HTTP calls
  (parameters); loading \<open>.env\<close> and building loggers; the rest of the basic example
  (commented out in the source) and the imports of every file; the RTC example's
  \<open>ListenAndServe\<close>, the file server's handling of paths, concurrent requests to
  its handler, its unused WebSocket upgrader and \<open>sendError\<close>, and its HTML client.
\<close>

section \<open>Concrete graphs\<close>

text \<open>JSON serialisation of an integer state, as \<open>encoding/json\<close> writes it.\<close>

fun digits_json :: "nat \<Rightarrow> string" where
  "digits_json n =
     (if n < 10 then [''0123456789'' ! n]
      else digits_json (n div 10) @ [''0123456789'' ! (n mod 10)])"

definition int_codec :: "(int, unit) codec" where
  "int_codec =
     \<lparr>marshal_state = \<lambda>s. Inr ((if s < 0 then ''-'' else '''') @ digits_json (nat \<bar>s\<bar>)),
      marshal_data = \<lambda>d. Inr (case d of None \<Rightarrow> ''null'' | Some _ \<Rightarrow> ''{}'')\<rparr>"

definition scenario_a :: "stream_mode list \<Rightarrow> (int, unit) state_graph" where
  "scenario_a ms =
     add_conditional_edges ''calc'' (\<lambda>s. ([END], None)) None
       (set_entry_point ''calc''
         (add_node ''calc'' (\<lambda>s. (55, None))
           (set_stream_config \<lparr>sc_modes = ms, sc_buffer_size = 100\<rparr> new_state_graph)))"

definition scenario_b :: "(int, unit) state_graph" where
  "scenario_b =
     set_recursion_limit 1
       (add_conditional_edges ''a'' (\<lambda>s. ([''a''], None)) None
         (set_entry_point ''a'' (add_node ''a'' (\<lambda>s. (s + 1, None)) new_state_graph)))"

definition scenario_c :: "(int, unit) state_graph" where
  "scenario_c =
     add_conditional_edges ''a'' (\<lambda>s. ([''x''], None)) None
       (set_entry_point ''a'' (add_node ''a'' (\<lambda>s. (s + 1, None)) new_state_graph))"

definition scenario_d :: "(int, unit) state_graph" where
  "scenario_d =
     graph_add_breakpoint ''b''
      (set_entry_point ''a''
        (add_conditional_edges ''b'' (\<lambda>s. ([END], None)) None
          (add_conditional_edges ''a'' (\<lambda>s. ([''b''], None)) None
            (add_node ''b'' (\<lambda>s. (2 * s, None))
              (add_node ''a'' (\<lambda>s. (s + 1, None)) new_state_graph)))))"

definition retry_graph :: "(int, unit) state_graph" where
  "retry_graph =
     add_conditional_edges ''a'' (\<lambda>s. ([END], None)) None
       (set_entry_point ''a''
         (add_node ''a'' (\<lambda>s. if s = 3 then interrupt_request 0 () else (s + 1, None)) new_state_graph))"

text \<open>Scenario D of the specification: \<open>a \<rightarrow> b \<rightarrow> END\<close> with a breakpoint on \<open>b\<close>.\<close>

definition bp_run :: "(int, unit) run" where
  "bp_run = \<lparr>r_graph = scenario_d, r_node = ''b'', r_steps = 1, r_state = 2,
             r_ctl = [CtlResume 7], r_calls = [''a'']\<rparr>"

definition retry_run :: "(int, unit) run" where
  "retry_run = \<lparr>r_graph = retry_graph, r_node = ''a'', r_steps = 0, r_state = 3,
                r_ctl = [CtlResume 5], r_calls = []\<rparr>"

text \<open>Three edges, the first two leaving different nodes, two leaving \<open>a\<close>.\<close>

definition route_example :: "(int, unit) conditional_edge list" where
  "route_example =
     [\<lparr>ce_from = ''x'', ce_router = \<lambda>s. ([''y''], None), ce_mapping = None\<rparr>,
      \<lparr>ce_from = ''a'', ce_router = \<lambda>s. ([''p'', ''q''], None), ce_mapping = Some [''p'' \<mapsto> ''b'']\<rparr>,
      \<lparr>ce_from = ''a'', ce_router = \<lambda>s. ([''z''], None), ce_mapping = None\<rparr>]"

text \<open>
  A stream of three sends, as \<open>Invoke\<close> makes them for a graph whose entry node goes
  straight to \<open>END\<close> in values and debug mode: the initial value, the start event, the
  final event. It is prefixed with the value so that the last send is an event.
\<close>

definition demo_prefix :: "int emission list" where
  "demo_prefix = [EmData \<lparr>se_mode = StreamValues, se_data = 0\<rparr>, EmEvent (run_event EventChainStart)]"

definition demo_stream :: "string option \<Rightarrow> int fanout" where
  "demo_stream err =
     the (stream_start default_stream_config (demo_prefix @ [EmEvent (run_event EventChainEnd)]) err)"

text \<open>
  Agents for the example: the service always answers with one fixed choice, and the
  configured agents of \<open>src/examples/graph/main.go\<close>.
\<close>

text \<open>The example graph never pauses, so its codec is never called; this one serialises nothing.\<close>

definition ex_codec :: "(ex_state, unit) codec" where
  "ex_codec = \<lparr>marshal_state = \<lambda>s. Inr ''{}'', marshal_data = \<lambda>d. Inr ''null''\<rparr>"

definition fixed_llm :: "string \<Rightarrow> chat_request \<Rightarrow> llm_response" where
  "fixed_llm c req = \<lparr>llm_chunks = [ContentDone c], llm_err = None, llm_choices = [c]\<rparr>"

definition poet_agent :: openai_agent where
  "poet_agent = fst (configure [(''model'', DString ''gpt-4o-mini''),
     (''system_message'', DString ''You are a creative poet.'')] (new_openai_agent ''poet''))"

text \<open>A world for the RTC example: the clock at 0 and an endpoint that answers three
  times, each after one nanosecond; and the delays before three token requests: the second
  comes two seconds after the first, the third a minute later.\<close>

definition token_world :: rtc_world where
  "token_world = \<lparr>w_now = 0, w_answers = [(1, Inr (200, ''s1'')), (1, Inr (200, ''s2'')), (1, Inr (200, ''s3''))],
                  w_log = []\<rparr>"

definition token_delays :: "nat list" where
  "token_delays = [0, 2000000000, 60000000000]"

text \<open>Scenario A's graph with a breakpoint on its entry node.\<close>

definition bp_entry_graph :: "(int, unit) state_graph" where
  "bp_entry_graph = graph_add_breakpoint ''calc'' (scenario_a [StreamValues])"

text \<open>A tool with one property of JSON type \<open>"integer"\<close>.\<close>

definition int_props :: "(string, dyn) fmap" where
  "int_props = fmap_of_list [(''n'', DObject (fmap_of_list [(''type'', DString ''integer'')]))]"

definition int_tool :: base_tool where
  "int_tool = new_base_tool ''counter'' ''counts'' (fmap_of_list [(''properties'', DObject int_props)])"

text \<open>What \<open>Invoke\<close> sends for the graph example before its final value: the initial
  state and the run's start event; the final state, with a poem.\<close>

definition race_prefix :: "ex_state emission list" where
  "race_prefix = [EmData \<lparr>se_mode = StreamValues, se_data = example_initial\<rparr>, EmEvent (run_event EventChainStart)]"

definition race_final :: ex_state where
  "race_final = \<lparr>ex_messages = [], ex_result = 55, ex_poem = ''roses''\<rparr>"

text \<open>A chat service that asks for one calculator call and answers \<open>done\<close>.\<close>

definition calc_llm :: "chat_request \<Rightarrow> llm_response" where
  "calc_llm req = \<lparr>llm_chunks = [ToolCallDone ''calculator'' ''{args}''], llm_err = None, llm_choices = [''done'']\<rparr>"

section \<open>Scenarios and findings\<close>

text \<open>The retry of an interrupt request: the info carries the state the step function
  returned (the zero value, for the \<open>Interrupt\<close> helper), not the state before the step;
  the node then runs again on the resumed state.\<close>

theorem scenario_retry_info:
  "snd (invoke int_codec \<lparr>rs_graph = retry_graph\<rparr> [CtlResume 5] 3) = Done 6 \<and>
   r_calls (fst (invoke int_codec \<lparr>rs_graph = retry_graph\<rparr> [CtlResume 5] 3)) = [''a'', ''a''] \<and>
   interrupt_ch (g_interrupt_manager (r_graph (fst (invoke int_codec \<lparr>rs_graph = retry_graph\<rparr> [CtlResume 5] 3)))) =
     [\<lparr>info_node = ''a'', info_data = ''{}'', info_state = ''0''\<rparr>]"
  by (simp add: run_eval retry_graph_def int_codec_def cong: step_result.case_cong_weak)

text \<open>Scenario A: the node sets the result to 55 and the run returns it. With the default
  configuration (values mode only) the data channel carries the initial and the final
  state and no update; the update appears only when the updates mode is active.\<close>

theorem scenario_a_streams:
  "snd (invoke int_codec \<lparr>rs_graph = scenario_a [StreamValues]\<rparr> [] 0) = Done 55 \<and>
   map se_mode (stream_ch (g_streamer (r_graph (fst (invoke int_codec \<lparr>rs_graph = scenario_a [StreamValues]\<rparr> [] 0))))) =
     [StreamValues, StreamValues] \<and>
   map se_mode (stream_ch (g_streamer (r_graph (fst (invoke int_codec
       \<lparr>rs_graph = scenario_a [StreamValues, StreamUpdates]\<rparr> [] 0))))) =
     [StreamValues, StreamUpdates, StreamValues]"
  by (simp add: run_eval scenario_a_def cong: step_result.case_cong_weak)

text \<open>Scenario B: with limit 1 and a node routed back to itself, the run fails with the
  recursion-limit error after exactly one node execution.\<close>

theorem scenario_b_limit_one:
  "snd (invoke int_codec \<lparr>rs_graph = scenario_b\<rparr> [] 0) = Failed (ErrRecursionLimit 1) \<and>
   r_calls (fst (invoke int_codec \<lparr>rs_graph = scenario_b\<rparr> [] 0)) = [''a'']"
  by (simp add: run_eval scenario_b_def cong: step_result.case_cong_weak)

text \<open>Scenario C: a router naming a node that does not exist makes the run fail with
  \<open>NodeNotFound\<close> for that name.\<close>

theorem scenario_c_node_not_found:
  "snd (invoke int_codec \<lparr>rs_graph = scenario_c\<rparr> [] 0) = Failed (ErrNodeNotFound ''x'') \<and>
   r_calls (fst (invoke int_codec \<lparr>rs_graph = scenario_c\<rparr> [] 0)) = [''a'']"
  by (simp add: run_eval scenario_c_def cong: step_result.case_cong_weak)

text \<open>Scenario D: the breakpoint on \<open>b\<close> sends one info with the state \<open>a\<close> produced,
  and \<open>b\<close> runs on the state the controller resumes with (7, doubled to 14).\<close>

theorem scenario_d_breakpoint_resume:
  "snd (invoke int_codec \<lparr>rs_graph = scenario_d\<rparr> [CtlResume 7] 1) = Done 14 \<and>
   r_calls (fst (invoke int_codec \<lparr>rs_graph = scenario_d\<rparr> [CtlResume 7] 1)) = [''a'', ''b''] \<and>
   interrupt_ch (g_interrupt_manager (r_graph (fst (invoke int_codec \<lparr>rs_graph = scenario_d\<rparr> [CtlResume 7] 1)))) =
     [\<lparr>info_node = ''b'', info_data = ''null'', info_state = ''2''\<rparr>]"
  by (simp add: run_eval scenario_d_def int_codec_def cong: step_result.case_cong_weak)

section \<open>Witnesses\<close>

text \<open>Each theorem with a hypothesis applied at a concrete input where the hypotheses hold.\<close>

lemma scenario_a_pause_free: "pause_free (scenario_a ms)"
  by (simp add: pause_free_def scenario_a_def builder_defs new_state_graph_def new_interrupt_manager_def)

theorem exact_limit_run_fails_witness:
  "pause_free (set_recursion_limit 1 (scenario_a [StreamValues])) \<and>
   snd (invoke int_codec \<lparr>rs_graph = set_recursion_limit 1 (scenario_a [StreamValues])\<rparr> [] 0) =
     Failed (ErrRecursionLimit 1) \<and>
   r_calls (fst (invoke int_codec \<lparr>rs_graph = set_recursion_limit 1 (scenario_a [StreamValues])\<rparr> [] 0)) = [''calc'']"
proof -
  let ?g = "set_recursion_limit 1 (scenario_a [StreamValues])"
  have pf: "pause_free (rs_graph \<lparr>rs_graph = ?g\<rparr>)"
    by (simp add: pause_free_def scenario_a_def builder_defs new_state_graph_def new_interrupt_manager_def)
  have sp: "spec_run (g_nodes (rs_graph \<lparr>rs_graph = ?g\<rparr>)) (g_edges (rs_graph \<lparr>rs_graph = ?g\<rparr>)) 25 0
              (g_entry_point (rs_graph \<lparr>rs_graph = ?g\<rparr>)) 0 = ([''calc''], Inr 55)"
    by (simp add: spec_run.simps [of _ _ 25 0] spec_run.simps [of _ _ 25 1] scenario_a_def builder_defs
                  new_state_graph_def route_def apply_mapping_def END_def)
  have lim: "int (length [''calc'']) = g_recursion_limit (rs_graph \<lparr>rs_graph = ?g\<rparr>)"
    by (simp add: scenario_a_def builder_defs new_state_graph_def)
  from Invoke.exact_limit_run_fails [OF pf sp lim, where c = int_codec and cs = "[]"] pf
  show ?thesis by (simp add: builder_defs)
qed

theorem cancelled_pause_blocks_later_breakpoints_witness:
  "snd (invoke int_codec \<lparr>rs_graph = bp_entry_graph\<rparr> [CtlCancel] 0) = Failed (ErrWaitForResume ContextCanceled) \<and>
   interrupted (g_interrupt_manager (r_graph (fst (invoke int_codec \<lparr>rs_graph = bp_entry_graph\<rparr> [CtlCancel] 0)))) \<and>
   r_ctl (fst (invoke int_codec \<lparr>rs_graph = r_graph (fst (invoke int_codec \<lparr>rs_graph = bp_entry_graph\<rparr> [CtlCancel] 0))\<rparr>
            [CtlResume 7] 0)) = [CtlResume 7] \<and>
   snd (invoke int_codec \<lparr>rs_graph = r_graph (fst (invoke int_codec \<lparr>rs_graph = bp_entry_graph\<rparr> [CtlCancel] 0))\<rparr>
          [CtlResume 7] 0) = Failed (ErrBreakpoint AlreadyInterrupted)"
proof -
  let ?g = "r_graph (fst (invoke int_codec \<lparr>rs_graph = bp_entry_graph\<rparr> [CtlCancel] 0))"
  have h: "snd (invoke int_codec \<lparr>rs_graph = bp_entry_graph\<rparr> [CtlCancel] 0) = Failed (ErrWaitForResume ContextCanceled)"
    by (simp add: run_eval bp_entry_graph_def scenario_a_def int_codec_def cong: step_result.case_cong_weak)
  have pre: "has_breakpoint (g_entry_point ?g) (g_interrupt_manager ?g) \<and> 0 < g_recursion_limit ?g \<and>
             g_entry_point ?g \<noteq> END"
    by (simp add: run_eval bp_entry_graph_def scenario_a_def int_codec_def cong: step_result.case_cong_weak)
  from Invoke.cancelled_pause_blocks_later_breakpoints
    [where c' = int_codec and cs' = "[CtlResume 7]" and s' = 0, OF h refl] pre h
  show ?thesis by simp
qed

theorem default_config_streams_values_witness:
  "event_ch (g_streamer (r_graph (fst (invoke int_codec \<lparr>rs_graph = scenario_a [StreamValues]\<rparr> [] 0)))) = [] \<and>
   (\<exists>ds. stream_ch (g_streamer (r_graph (fst (invoke int_codec \<lparr>rs_graph = scenario_a [StreamValues]\<rparr> [] 0)))) =
           \<lparr>se_mode = StreamValues, se_data = 0\<rparr> # ds \<and> last ds = \<lparr>se_mode = StreamValues, se_data = 55\<rparr>)"
proof -
  have a: "modes (g_streamer (rs_graph \<lparr>rs_graph = scenario_a [StreamValues]\<rparr>)) = sc_modes default_stream_config"
    "event_ch (g_streamer (rs_graph \<lparr>rs_graph = scenario_a [StreamValues]\<rparr>)) = []"
    "stream_ch (g_streamer (rs_graph \<lparr>rs_graph = scenario_a [StreamValues]\<rparr>)) = []"
    by (simp_all add: scenario_a_def builder_defs new_state_graph_def new_streamer_def default_stream_config_def)
  have d: "snd (invoke int_codec \<lparr>rs_graph = scenario_a [StreamValues]\<rparr> [] 0) = Done 55"
    by (simp add: run_eval scenario_a_def cong: step_result.case_cong_weak)
  from Invoke.default_config_streams_values [where c = int_codec and cs = "[]" and s = 0 and s' = 55, OF a] d
  show ?thesis by auto
qed

theorem unconfigured_agent_panics_witness:
  "\<exists>p. agent_calls (\<lambda>_. None) (fixed_llm ''hi'')
         ([OpAddTool (calculator_tool (\<lambda>_. ''x'') (\<lambda>_. ''[]'') (\<lambda>_. None)), OpConfigure [(''model'', DFloat64 4)], OpID] @
          [OpProcessMessage \<lparr>msg_role = RoleUser, msg_content = ''hello''\<rparr>])
         (new_openai_agent ''math_expert'') = Panics p"
proof -
  have "\<forall>cfg. OpConfigure cfg \<in> set [OpAddTool (calculator_tool (\<lambda>_. ''x'') (\<lambda>_. ''[]'') (\<lambda>_. None)),
                                   OpConfigure [(''model'', DFloat64 4)], OpID] \<longrightarrow>
              as_string (go_lookup cfg ''model'') = None"
    by (simp add: go_lookup_def)
  from Agent.unconfigured_agent_panics [OF this] show ?thesis .
qed

theorem invoke_refines_spec_witness:
  "pause_free (scenario_a [StreamValues]) \<and>
   r_calls (fst (invoke int_codec \<lparr>rs_graph = scenario_a [StreamValues]\<rparr> [] 0)) =
     fst (spec_run (g_nodes (scenario_a [StreamValues])) (g_edges (scenario_a [StreamValues])) 25 0 ''calc'' 0) \<and>
   abs_outcome (snd (invoke int_codec \<lparr>rs_graph = scenario_a [StreamValues]\<rparr> [] 0)) =
     Some (snd (spec_run (g_nodes (scenario_a [StreamValues])) (g_edges (scenario_a [StreamValues])) 25 0 ''calc'' 0))"
  using Invoke.invoke_refines_spec [of "\<lparr>rs_graph = scenario_a [StreamValues]\<rparr>" int_codec "[]" 0]
        scenario_a_pause_free [of "[StreamValues]"]
  by (simp add: scenario_a_def builder_defs new_state_graph_def)

theorem invoke_done_below_limit_witness:
  "snd (invoke int_codec \<lparr>rs_graph = scenario_a [StreamValues]\<rparr> [] 0) = Done 55 \<and>
   0 \<le> r_steps (fst (invoke int_codec \<lparr>rs_graph = scenario_a [StreamValues]\<rparr> [] 0)) \<and>
   r_steps (fst (invoke int_codec \<lparr>rs_graph = scenario_a [StreamValues]\<rparr> [] 0)) < 25"
proof -
  have run: "invoke int_codec \<lparr>rs_graph = scenario_a [StreamValues]\<rparr> [] 0 =
               (fst (invoke int_codec \<lparr>rs_graph = scenario_a [StreamValues]\<rparr> [] 0), Done 55)"
    by (simp add: run_eval scenario_a_def cong: step_result.case_cong_weak)
  have lim: "g_recursion_limit (rs_graph \<lparr>rs_graph = scenario_a [StreamValues]\<rparr>) = 25"
    by (simp add: scenario_a_def builder_defs new_state_graph_def)
  from Invoke.invoke_done_below_limit [OF run] lim arg_cong [where f = snd, OF run] show ?thesis
    by simp
qed

theorem pause_free_done_below_limit_witness:
  "pause_free (scenario_a [StreamValues]) \<and>
   snd (invoke int_codec \<lparr>rs_graph = scenario_a [StreamValues]\<rparr> [] 0) = Done 55 \<and>
   int (length (r_calls (fst (invoke int_codec \<lparr>rs_graph = scenario_a [StreamValues]\<rparr> [] 0)))) < 25"
proof -
  have pf: "pause_free (rs_graph \<lparr>rs_graph = scenario_a [StreamValues]\<rparr>)"
    using scenario_a_pause_free [of "[StreamValues]"] by simp
  have dn: "snd (invoke int_codec \<lparr>rs_graph = scenario_a [StreamValues]\<rparr> [] 0) = Done 55"
    by (simp add: run_eval scenario_a_def cong: step_result.case_cong_weak)
  have lim: "g_recursion_limit (rs_graph \<lparr>rs_graph = scenario_a [StreamValues]\<rparr>) = 25"
    by (simp add: scenario_a_def builder_defs new_state_graph_def)
  from Invoke.pause_free_done_below_limit [OF pf dn] lim pf dn show ?thesis by simp
qed

theorem breakpoint_pauses_before_node_witness:
  "invoke_step int_codec bp_run =
     exec_node int_codec (bp_run\<lparr>r_graph := (r_graph bp_run)\<lparr>g_interrupt_manager :=
        (g_interrupt_manager (r_graph bp_run))\<lparr>interrupt_ch :=
           interrupt_ch (g_interrupt_manager (r_graph bp_run)) @
           [\<lparr>info_node = ''b'', info_data = ''null'', info_state = ''2''\<rparr>]\<rparr>\<rparr>,
        r_ctl := [], r_state := 7\<rparr>)"
  using Step.breakpoint_pauses_before_node [of bp_run int_codec "''null''" "''2''" 7 "[]"]
  by (simp add: bp_run_def scenario_d_def builder_defs new_state_graph_def new_interrupt_manager_def
                add_breakpoint_def has_breakpoint_def int_codec_def END_def)

theorem interrupt_request_retries_node_witness:
  "\<exists>r'. invoke_step int_codec retry_run = Continue r' \<and> r_node r' = ''a'' \<and> r_steps r' = 0 \<and>
        r_state r' = 5 \<and> r_ctl r' = [] \<and> r_calls r' = [''a''] \<and>
        \<not> interrupted (g_interrupt_manager (r_graph r')) \<and>
        interrupt_ch (g_interrupt_manager (r_graph r')) = [\<lparr>info_node = ''a'', info_data = ''{}'', info_state = ''0''\<rparr>]"
  using Step.interrupt_request_retries_node
    [of retry_run "\<lparr>sn_name = ''a'', sn_function = \<lambda>s. if s = 3 then interrupt_request 0 () else (s + 1, None)\<rparr>"
        0 "()" int_codec "''{}''" "''0''" 5 "[]"]
  by (simp add: retry_run_def retry_graph_def builder_defs new_state_graph_def new_interrupt_manager_def
                has_breakpoint_def int_codec_def END_def interrupt_request_def)

theorem invoke_frame_witness:
  "streamer_wf (g_streamer (r_graph (fst (invoke int_codec \<lparr>rs_graph = scenario_d\<rparr> [CtlResume 7] 1)))) \<and>
   prefix [] (event_ch (g_streamer (r_graph (fst (invoke int_codec \<lparr>rs_graph = scenario_d\<rparr> [CtlResume 7] 1)))))"
proof -
  have "streamer_wf (g_streamer scenario_d)"
    by (simp add: scenario_d_def builder_defs new_state_graph_def streamer_wf_def new_streamer_def)
  moreover have "event_ch (g_streamer scenario_d) = []"
    by (simp add: scenario_d_def builder_defs new_state_graph_def new_streamer_def)
  ultimately show ?thesis
    using Invoke.invoke_frame [of int_codec "\<lparr>rs_graph = scenario_d\<rparr>" "[CtlResume 7]" 1] by simp
qed

theorem interrupt_marshal_failure_keeps_flag_witness:
  "interrupt (\<lambda>d :: unit option. Inl ''json: unsupported type'') (marshal_state int_codec) ''b'' None 2
     (new_interrupt_manager :: int interrupt_manager) =
     (new_interrupt_manager\<lparr>interrupted := True\<rparr>, Inl (MarshalError ''json: unsupported type'')) \<and>
   interrupt (marshal_data int_codec) (marshal_state int_codec) ''b'' None 2
     (fst (interrupt (\<lambda>d :: unit option. Inl ''json: unsupported type'') (marshal_state int_codec) ''b'' None 2
             (new_interrupt_manager :: int interrupt_manager))) =
     (fst (interrupt (\<lambda>d :: unit option. Inl ''json: unsupported type'') (marshal_state int_codec) ''b'' None 2
             (new_interrupt_manager :: int interrupt_manager)), Inl AlreadyInterrupted)"
proof -
  have h1: "\<not> interrupted (new_interrupt_manager :: int interrupt_manager)" by (simp add: new_interrupt_manager_def)
  have h2: "(\<lambda>d :: unit option. Inl ''json: unsupported type'') None = Inl ''json: unsupported type'' \<or>
            (\<exists>db. (\<lambda>d :: unit option. Inl ''json: unsupported type'') None = Inr db) \<and>
            marshal_state int_codec 2 = Inl ''json: unsupported type''"
    by simp
  from Interrupt.interrupt_marshal_failure_keeps_flag [where md = "\<lambda>d :: unit option. Inl ''json: unsupported type''"
         and d = None and ms = "marshal_state int_codec" and s = 2 and e = "''json: unsupported type''"
         and md' = "marshal_data int_codec" and ms' = "marshal_state int_codec" and n' = "''b''" and d' = None
         and s' = 2 and n = "''b''", OF h1 h2]
  show ?thesis .
qed

theorem interrupt_resume_roundtrip_witness:
  "snd (interrupt (marshal_data int_codec) (marshal_state int_codec) ''b'' None 2 (new_interrupt_manager :: int interrupt_manager)) = Inr () \<and>
   snd (resume 7 (fst (interrupt (marshal_data int_codec) (marshal_state int_codec) ''b'' None 2 (new_interrupt_manager :: int interrupt_manager)))) = Inr () \<and>
   wait_for_resume False (fst (resume 7 (fst (interrupt (marshal_data int_codec) (marshal_state int_codec) ''b'' None 2 (new_interrupt_manager :: int interrupt_manager))))) =
     Some (new_interrupt_manager\<lparr>interrupt_ch := [\<lparr>info_node = ''b'', info_data = ''null'', info_state = ''2''\<rparr>]\<rparr>, Inr 7)"
  using Interrupt.interrupt_resume_roundtrip
    [of "new_interrupt_manager :: int interrupt_manager" "marshal_data int_codec" None "''null''"
        "marshal_state int_codec" 2 "''2''" "''b''" 7 False]
  by (simp add: new_interrupt_manager_def int_codec_def)

theorem route_first_edge_witness:
  "route route_example ''a'' (0::int) = Inr ''b''"
  using Step.route_first_edge
    [of "[\<lparr>ce_from = ''x'', ce_router = \<lambda>s. ([''y''], None), ce_mapping = None\<rparr>]" "''a''"
        "\<lparr>ce_from = ''a'', ce_router = \<lambda>s. ([''p'', ''q''], None), ce_mapping = Some [''p'' \<mapsto> ''b'']\<rparr>"
        "0::int" "''p''" "[''q'']" "[\<lparr>ce_from = ''a'', ce_router = \<lambda>s. ([''z''], None), ce_mapping = None\<rparr>]"]
  by (simp add: route_example_def apply_mapping_def)

theorem validate_order_independent_witness:
  "validate [''a''] new_calculator [(''a'', DFloat64 1), (''operation'', DString ''add'')] = Returns None \<longleftrightarrow>
   validate [] new_calculator [(''operation'', DString ''add''), (''a'', DFloat64 1)] = Returns None"
  using Tool.validate_order_independent
    [of "[(''a'', DFloat64 1), (''operation'', DString ''add'')]" "[(''operation'', DString ''add''), (''a'', DFloat64 1)]"
        "[''a'']" new_calculator "[]"]
  by auto

theorem calculator_validation_sound_witness:
  "calc_execute (\<lambda>_. None) [(''operation'', DString ''divide''), (''a'', DFloat64 1), (''b'', DFloat64 0)] =
     Inl ErrDivisionByZero"
proof -
  have v: "validate [] new_calculator [(''operation'', DString ''divide''), (''a'', DFloat64 1), (''b'', DFloat64 0)] =
             Returns None"
    by (simp add: calculator_validate_iff)
  have e: "calc_execute (\<lambda>_. None) [(''operation'', DString ''divide''), (''a'', DFloat64 1), (''b'', DFloat64 0)] =
             Inl ErrDivisionByZero"
    by (simp add: calc_execute_def go_lookup_def)
  from Tool.calculator_validation_sound [OF v e] e show ?thesis by simp
qed

theorem calculator_enum_not_enforced_witness:
  "validate [] new_calculator [(''operation'', DString ''power''), (''a'', DFloat64 2)] = Returns None \<and>
   calc_execute (\<lambda>_. None) [(''operation'', DString ''power''), (''a'', DFloat64 2), (''b'', DFloat64 3)] =
     Inl (ErrUnknownOperation ''power'')"
  using Tool.calculator_enum_not_enforced [of "[]" "''power''" 2 "\<lambda>_. None" 3] by simp

theorem calculator_b_not_required_witness:
  "validate [] new_calculator [(''operation'', DString ''add''), (''a'', DFloat64 2)] = Returns None \<and>
   calc_execute (\<lambda>_. None) [(''operation'', DString ''add''), (''a'', DFloat64 2)] =
     Inl (ErrInvalidSecondNumber (ErrUnsupportedNumberType ''<nil>''))"
  using Tool.calculator_b_not_required [of "[]" "''add''" 2 "\<lambda>_. None"] by simp

theorem validate_nil_array_panics_witness:
  "validate [] (new_base_tool ''lister'' ''lists tags''
      (fmap_of_list [(''properties'', DObject (fmap_of_list
         [(''tags'', DObject (fmap_of_list [(''type'', DString ''array'')]))]))]))
     [(''tags'', DNil)] = Panics ''nil pointer dereference''"
  using Tool.validate_nil_array_panics
    [of "new_base_tool ''lister'' ''lists tags''
           (fmap_of_list [(''properties'', DObject (fmap_of_list
              [(''tags'', DObject (fmap_of_list [(''type'', DString ''array'')]))]))])"
        "fmap_of_list [(''tags'', DObject (fmap_of_list [(''type'', DString ''array'')]))]"
        "''tags''" "fmap_of_list [(''type'', DString ''array'')]" "[]" "[]"]
  by (simp add: new_base_tool_def fm_index_def fmlookup_of_list required_fields_def)

lemma demo_stream_start:
  "stream_start default_stream_config (demo_prefix @ [EmEvent (run_event EventChainEnd)]) err = Some (demo_stream err)"
  "0 < sc_buffer_size default_stream_config" "1 < sc_buffer_size default_stream_config"
  by (simp_all add: demo_stream_def stream_start_def default_stream_config_def)

theorem stream_delivers_all_witness:
  "\<exists>s. fo_next\<^sup>*\<^sup>* (demo_stream None) s \<and> f_pc s = ODone \<and> \<not> f_panic s \<and>
     f_got_st s = [\<lparr>se_mode = StreamValues, se_data = 0\<rparr>] \<and>
     f_got_ev s = [run_event EventChainStart, run_event EventChainEnd]"
  using Fanout.stream_delivers_all [OF demo_stream_start(1) [of None] demo_stream_start(2)]
  by (simp add: demo_prefix_def err_part_def)

theorem stream_data_in_order_witness:
  "subseq (f_got_st (demo_stream None) @ f_stq (demo_stream None)) [\<lparr>se_mode = StreamValues, se_data = 0\<rparr>] \<and>
   subseq (f_got_ev (demo_stream None) @ f_evq (demo_stream None)) [run_event EventChainStart, run_event EventChainEnd]"
  using Fanout.stream_data_in_order [OF demo_stream_start(1) [of None] rtranclp.rtrancl_refl]
  by (simp add: demo_prefix_def)

theorem stream_send_on_closed_panics_witness:
  "\<exists>s. fo_next\<^sup>*\<^sup>* (demo_stream None) s \<and> f_panic s"
  using Fanout.stream_send_on_closed_panics [OF demo_stream_start(1) [of None] demo_stream_start(2)] .

theorem stream_drops_last_event_witness:
  "\<exists>s. fo_next\<^sup>*\<^sup>* (demo_stream None) s \<and> f_pc s = ODone \<and> f_fwd s = FExit \<and> \<not> f_panic s \<and>
     f_got_ev s @ f_evq s = [run_event EventChainStart]"
  using Fanout.stream_drops_last_event [OF demo_stream_start(1) [of None] demo_stream_start(2)]
  by (simp add: demo_prefix_def err_part_def)

theorem stream_error_event_overtakes_witness:
  "\<exists>s. fo_next\<^sup>*\<^sup>* (demo_stream (Some ''node failed'')) s \<and> f_got_ev s = [run_event EventChainStart] \<and>
     f_evq s = [error_event ''node failed'', run_event EventChainEnd]"
  using Fanout.stream_error_event_overtakes [OF demo_stream_start(1) [of "Some ''node failed''"] demo_stream_start(3)]
  by (simp add: demo_prefix_def)

theorem stream_cancel_hangs_witness:
  "\<exists>s. fo_next\<^sup>*\<^sup>* (demo_stream None) s \<and>
     (\<forall>s'. fo_next\<^sup>*\<^sup>* s s' \<longrightarrow> f_pc s' = ORun \<and> \<not> f_ev_closed s' \<and> \<not> f_st_closed s')"
  using Fanout.stream_cancel_hangs [of default_stream_config
      "EmData \<lparr>se_mode = StreamValues, se_data = 0\<rparr>" "[EmEvent (run_event EventChainStart), EmEvent (run_event EventChainEnd)]"
      None "demo_stream None"]
  demo_stream_start(1) [of None] by (simp add: demo_prefix_def)

theorem example_run_witness:
  "snd (invoke ex_codec \<lparr>rs_graph = example_graph (\<lambda>x. ''55'')
          (\<lambda>m. Inr \<lparr>msg_role = RoleAssistant, msg_content = ''The answer is 55.''\<rparr>)
          (\<lambda>m. Inr \<lparr>msg_role = RoleAssistant, msg_content = ''Fifty-five bright stars''\<rparr>)\<rparr> [] example_initial) =
     Done \<lparr>ex_messages = [\<lparr>msg_role = RoleUser, msg_content = calc_prompt\<rparr>,
                          \<lparr>msg_role = RoleAssistant, msg_content = ''The answer is 55.''\<rparr>,
                          \<lparr>msg_role = RoleUser, msg_content = ''Create a short, beautiful poem that incorporates the number 55''\<rparr>,
                          \<lparr>msg_role = RoleAssistant, msg_content = ''Fifty-five bright stars''\<rparr>],
           ex_result = 55, ex_poem = ''Fifty-five bright stars''\<rparr>"
  using Examples.example_run [of "\<lambda>m. Inr \<lparr>msg_role = RoleAssistant, msg_content = ''The answer is 55.''\<rparr>"
      "''The answer is 55.''" "\<lambda>m. Inr \<lparr>msg_role = RoleAssistant, msg_content = ''Fifty-five bright stars''\<rparr>"
      "\<lambda>x. ''55''" "''Fifty-five bright stars''" ex_codec "[]"]
  by simp

theorem example_math_error_witness:
  "snd (invoke ex_codec \<lparr>rs_graph = example_graph (\<lambda>x. ''55'') (\<lambda>m. Inl ''stream error: timeout'')
          (\<lambda>m. Inr \<lparr>msg_role = RoleAssistant, msg_content = ''unused''\<rparr>)\<rparr> [] example_initial) =
     Failed (ErrNode ''calculate'' (PlainError ''math expert error: stream error: timeout''))"
  using Examples.example_math_error [of "\<lambda>m. Inl ''stream error: timeout''" "''stream error: timeout''"
      ex_codec "\<lambda>x. ''55''" "\<lambda>m. Inr \<lparr>msg_role = RoleAssistant, msg_content = ''unused''\<rparr>" "[]"]
  by simp

theorem history_only_user_messages_witness:
  "ag_history (the (process_all (\<lambda>_. None) (fixed_llm ''ok'')
      [\<lparr>msg_role = RoleUser, msg_content = ''first''\<rparr>, \<lparr>msg_role = RoleUser, msg_content = ''second''\<rparr>] poet_agent)) =
     [UserMsg ''first'', UserMsg ''second'']"
proof -
  have "process_all (\<lambda>_. None) (fixed_llm ''ok'')
          [\<lparr>msg_role = RoleUser, msg_content = ''first''\<rparr>, \<lparr>msg_role = RoleUser, msg_content = ''second''\<rparr>] poet_agent =
        Some (the (process_all (\<lambda>_. None) (fixed_llm ''ok'')
          [\<lparr>msg_role = RoleUser, msg_content = ''first''\<rparr>, \<lparr>msg_role = RoleUser, msg_content = ''second''\<rparr>] poet_agent))"
    by (simp add: process_message_def poet_agent_def configure_def new_openai_agent_def go_lookup_def
        fm_index_def fixed_llm_def Let_def)
  from Agent.history_only_user_messages [OF this] show ?thesis
    by (simp add: poet_agent_def configure_def new_openai_agent_def go_lookup_def)
qed

theorem configure_drops_other_keys_witness:
  "fmlookup (ag_config poet_agent) ''system_message'' = None"
  using Agent.configure_drops_other_keys [of "''system_message''"
      "[(''model'', DString ''gpt-4o-mini''), (''system_message'', DString ''You are a creative poet.'')]"
      "new_openai_agent ''poet''"]
  by (simp add: poet_agent_def new_openai_agent_def)

theorem reply_is_first_choice_witness:
  "process_message (\<lambda>_. None) (fixed_llm ''A poem about 55'') \<lparr>msg_role = RoleUser, msg_content = ''write''\<rparr> poet_agent =
     Returns (poet_agent\<lparr>ag_history := [UserMsg ''write'']\<rparr>,
              Inr [\<lparr>msg_role = RoleAssistant, msg_content = ''A poem about 55''\<rparr>])"
proof -
  have p: "process_message (\<lambda>_. None) (fixed_llm ''A poem about 55'') \<lparr>msg_role = RoleUser, msg_content = ''write''\<rparr> poet_agent =
     Returns (poet_agent\<lparr>ag_history := [UserMsg ''write'']\<rparr>,
              Inr [\<lparr>msg_role = RoleAssistant, msg_content = ''A poem about 55''\<rparr>])"
    by (simp add: process_message_def poet_agent_def configure_def new_openai_agent_def go_lookup_def
        fm_index_def fixed_llm_def Let_def)
  from Agent.reply_is_first_choice [OF p] have "fm_index (ag_config poet_agent) ''model'' = DString ''gpt-4o-mini''"
    by (auto simp: poet_agent_def configure_def new_openai_agent_def go_lookup_def fm_index_def)
  with p show ?thesis by simp
qed

theorem api_called_once_per_ttl_witness:
  "map fst (w_log (snd (snd (serve_all ''sk-test'' (\<lambda>b. Some \<lparr>client_secret = b\<rparr>) token_delays empty_cache token_world)))) =
     [0, 62000000001] \<and>
   sorted_wrt (\<lambda>a b. a + token_ttl \<le> b)
     (map fst (drop (length (w_log token_world))
        (w_log (snd (snd (serve_all ''sk-test'' (\<lambda>b. Some \<lparr>client_secret = b\<rparr>) token_delays empty_cache token_world))))))"
proof -
  have "answers_ok (\<lambda>b. Some \<lparr>client_secret = b\<rparr>) (w_answers token_world)"
    "length token_delays \<le> length (w_answers token_world)"
    by (simp_all add: token_world_def token_delays_def answers_ok_def)
  from Rtc.api_called_once_per_ttl [OF this, of "''sk-test''" empty_cache]
  show ?thesis
    by (simp add: token_world_def token_delays_def empty_cache_def handle_signaling_def create_ephemeral_token_def
        rtc_post_def tc_get_def tc_set_def token_ttl_def)
qed

theorem validate_well_typed_witness:
  "validate [] int_tool [(''n'', DInt 3)] = Returns None \<and> validate [] int_tool [(''n'', DFloat64 3)] \<noteq> Returns None"
  using Tool.validate_well_typed [where t = int_tool and props = int_props and ord = "[]"]
  by (simp add: int_tool_def int_props_def new_base_tool_def fm_index_def fmlookup_of_list required_fields_def
      json_typed_simps)

theorem interrupt_state_roundtrip_witness:
  "snd (interrupt (\<lambda>_. Inr ''null'') json_marshal_int ''b'' None (42::64 word) new_interrupt_manager) = Inr () \<and>
   (\<exists>info. interrupt_ch (fst (interrupt (\<lambda>_. Inr ''null'') json_marshal_int ''b'' None (42::64 word) new_interrupt_manager)) =
      [info] \<and> info_state info = ''42'' \<and> unmarshal_state json_unmarshal_int 0 (info_state info) = (42, None))"
  using Serial.interrupt_state_roundtrip [where md = "\<lambda>_. Inr ''null''" and n = "''b''" and d = None and s = 42
      and m = new_interrupt_manager]
  by (simp add: interrupt_def new_interrupt_manager_def json_marshal_int_def int_digits_def nat_digits.simps
      char_of_def bit_0)

theorem example_exit_race_witness:
  "(\<exists>m. ex_step\<^sup>*\<^sup>* (the (example_stream (race_prefix @ [EmData \<lparr>se_mode = StreamValues, se_data = race_final\<rparr>,
                                                  EmEvent (run_event EventChainEnd)]) None)) m \<and>
        \<not> em_loop m \<and> LogPoem ''roses'' \<notin> set (em_log m)) \<and>
   (\<exists>m. ex_step\<^sup>*\<^sup>* (the (example_stream (race_prefix @ [EmData \<lparr>se_mode = StreamValues, se_data = race_final\<rparr>,
                                                  EmEvent (run_event EventChainEnd)]) None)) m \<and>
        \<not> em_loop m \<and> LogPoem ''roses'' \<in> set (em_log m))"
proof -
  let ?src = "race_prefix @ [EmData \<lparr>se_mode = StreamValues, se_data = race_final\<rparr>, EmEvent (run_event EventChainEnd)]"
  have s: "example_stream ?src None = Some (the (example_stream ?src None))"
    by (simp add: example_stream_def stream_start_def example_config_def)
  have "ex_stop_event (run_event EventChainEnd)" "\<not> list_ex ex_stop_event (ev_of race_prefix)"
    by (simp_all add: ex_stop_event_def run_event_def race_prefix_def)
  from ExampleMain.example_exit_race [OF s this]
  show ?thesis
    by (auto simp: race_prefix_def race_final_def example_initial_def ex_log_data_def ex_log_event_def)
qed

theorem math_expert_skips_validation_witness:
  "validate [] new_calculator [(''operation'', DString ''add''), (''a'', DString ''2''), (''b'', DFloat64 3)] =
     Returns (Some (ErrInvalidType ''a'' ''number'')) \<and>
   (\<exists>a'. process_message (\<lambda>_. Some [(''operation'', DString ''add''), (''a'', DString ''2''), (''b'', DFloat64 3)]) calc_llm
           \<lparr>msg_role = RoleUser, msg_content = ''2+3?''\<rparr>
           (fst (the (example_agents (\<lambda>_. ''5'') (\<lambda>_. ''[]'') (\<lambda>_. Some 2) ''sk-test''))) =
         Returns (a', Inr [\<lparr>msg_role = RoleAssistant, msg_content = ''done''\<rparr>]))"
proof -
  have e: "example_agents (\<lambda>_. ''5'') (\<lambda>_. ''[]'') (\<lambda>_. Some 2) ''sk-test'' =
             Some (fst (the (example_agents (\<lambda>_. ''5'') (\<lambda>_. ''[]'') (\<lambda>_. Some 2) ''sk-test'')),
                   snd (the (example_agents (\<lambda>_. ''5'') (\<lambda>_. ''[]'') (\<lambda>_. Some 2) ''sk-test'')))"
    by (simp add: example_agents_def Let_def)
  have "\<forall>req. llm_chunks (calc_llm req) = [ToolCallDone ''calculator'' ''{args}''] \<and> llm_err (calc_llm req) = None \<and>
               llm_choices (calc_llm req) = [''done'']"
    by (simp add: calc_llm_def)
  from ExampleMain.math_expert_skips_validation [OF e this,
      where dec = "\<lambda>_. Some [(''operation'', DString ''add''), (''a'', DString ''2''), (''b'', DFloat64 3)]"
      and sa = "''2''" and y = 3 and z = 2 and x = 0 and ord = "[]"
      and msg = "\<lparr>msg_role = RoleUser, msg_content = ''2+3?''\<rparr>"]
  show ?thesis by simp
qed

theorem example_may_exit_without_poem_witness:
  "\<exists>m0. example_stream (sent (g_streamer (r_graph (fst (invoke ex_codec
            \<lparr>rs_graph = example_graph (\<lambda>_. ''55'') (\<lambda>_. Inr \<lparr>msg_role = RoleAssistant, msg_content = ''55''\<rparr>)
                                       (\<lambda>_. Inr \<lparr>msg_role = RoleAssistant, msg_content = ''roses''\<rparr>)\<rparr>
            [] example_initial))))) None = Some m0 \<and>
     (\<exists>m. ex_step\<^sup>*\<^sup>* m0 m \<and> \<not> em_loop m \<and> LogPoem ''roses'' \<notin> set (em_log m))"
  using ExampleMain.example_may_exit_without_poem [where math = "\<lambda>_. Inr \<lparr>msg_role = RoleAssistant, msg_content = ''55''\<rparr>"
      and poet = "\<lambda>_. Inr \<lparr>msg_role = RoleAssistant, msg_content = ''roses''\<rparr>" and fmtv = "\<lambda>_. ''55''"
      and ans = "''55''" and p = "''roses''" and c = ex_codec and cs = "[]"]
  by auto

end
